theory Spec2Isabelle
  imports Main
begin

section \<open>Strings and URLs\<close>

text \<open>
  JavaScript strings are modelled as \<open>string\<close> (lists of 8-bit characters standing for
  code units).  \<open>s.startsWith(p)\<close> compares the first \<open>length p\<close> units of \<open>s\<close> with \<open>p\<close>.
\<close>

definition startsWith :: "string \<Rightarrow> string \<Rightarrow> bool" where
  "startsWith s p = (take (length p) s = p)"

text \<open>\<open>const ORIGIN = "https://medex.com.bd"\<close> of the MedEx scripts.\<close>

definition ORIGIN :: string where
  "ORIGIN = ''https://medex.com.bd''"

text \<open>
  \<open>normalizeUrl(u)\<close> of the detail fetchers, on a string argument: the empty string is
  falsy and returned as it is.
\<close>

definition normalizeUrl :: "string \<Rightarrow> string" where
  "normalizeUrl u =
     (if u = [] then u
      else if startsWith u ''http'' then u
      else if startsWith u ''/'' then ORIGIN @ u
      else ORIGIN @ ''/'' @ u)"


section \<open>The fetch-retry unit\<close>

text \<open>
  A value thrown by the HTTP client: its \<open>message\<close> property and its \<open>String(err)\<close>
  rendering.  The catch clause reports \<open>lastErr.message || String(lastErr)\<close>: the message
  unless it is empty.
\<close>

datatype js_error = JsError (message: string) (as_string: string)

definition error_text :: "js_error \<Rightarrow> string" where
  "error_text e = (if message e \<noteq> [] then message e else as_string e)"

text \<open>
  The network is a parameter: \<open>net page k\<close> is what the \<open>k\<close>-th call of
  \<open>fetchPageRaw(page)\<close> made by one invocation of \<open>fetchWithRetries\<close> does, either
  throwing (\<open>Inl\<close>) or returning the response (\<open>Inr\<close>).  The result object is
  \<open>{success: true, page, ...res}\<close> or \<open>{success: false, page, error}\<close>.
\<close>

datatype 'r fetch_result =
    Success (page: int) (payload: 'r)
  | Failure (page: int) (error: string)

text \<open>
  The \<open>while (attempt < maxRetries)\<close> loop, with its two variables \<open>attempt\<close> and
  \<open>lastErr\<close>.  The second component of the result is the final value of \<open>attempt\<close>,
  which is incremented once before every call of \<open>fetchPageRaw\<close>: the number of fetch
  attempts made.  The wait \<open>sleep(RETRY_DELAY_MS)\<close> after a failed attempt changes
  neither variable and is left out.
\<close>

function fetch_loop ::
  "(int \<Rightarrow> int \<Rightarrow> js_error + 'r) \<Rightarrow> int \<Rightarrow> int \<Rightarrow> int \<Rightarrow> js_error option
     \<Rightarrow> 'r fetch_result \<times> int" where
  "fetch_loop net pg maxRetries attempt lastErr =
     (if attempt < maxRetries then
        (case net pg (attempt + 1) of
           Inr res \<Rightarrow> (Success pg res, attempt + 1)
         | Inl err \<Rightarrow> fetch_loop net pg maxRetries (attempt + 1) (Some err))
      else
        (Failure pg (case lastErr of Some e \<Rightarrow> error_text e | None \<Rightarrow> ''unknown''),
         attempt))"
  by pat_completeness auto
termination
  by (relation "measure (\<lambda>(net, pg, maxRetries, attempt, lastErr). nat (maxRetries - attempt))")
     auto

declare fetch_loop.simps [simp del]

definition fetchWithRetries ::
  "(int \<Rightarrow> int \<Rightarrow> js_error + 'r) \<Rightarrow> int \<Rightarrow> int \<Rightarrow> 'r fetch_result \<times> int" where
  "fetchWithRetries net pg maxRetries = fetch_loop net pg maxRetries 0 None"



section \<open>String helpers of the extractors\<close>

text \<open>
  The characters matched by \<open>\s\<close> in a JavaScript regular expression and stripped by
  \<open>trim()\<close>, among the code units modelled: tab, line feed, vertical tab, form feed,
  carriage return, space and the no-break space \<open>\u00A0\<close>.
\<close>

definition is_space :: "char \<Rightarrow> bool" where
  "is_space c =
     (c = CHR 0x09 \<or> c = CHR 0x0A \<or> c = CHR 0x0B \<or> c = CHR 0x0C \<or> c = CHR 0x0D
      \<or> c = CHR '' '' \<or> c = CHR 0xA0)"

text \<open>\<open>s.trim()\<close>.\<close>

definition trim :: "string \<Rightarrow> string" where
  "trim s = rev (dropWhile is_space (rev (dropWhile is_space s)))"

text \<open>\<open>s.replace(/\u00A0/g, " ")\<close>.\<close>

definition replace_nbsp :: "string \<Rightarrow> string" where
  "replace_nbsp s = map (\<lambda>c. if c = CHR 0xA0 then CHR '' '' else c) s"

text \<open>
  \<open>s.replace(/\s+/g, " ")\<close>: every maximal run of whitespace becomes one space.  The flag
  says that the previous character belonged to a run already replaced.
\<close>

primrec collapse_from :: "bool \<Rightarrow> string \<Rightarrow> string" where
  "collapse_from prev [] = []"
| "collapse_from prev (c # cs) =
     (if is_space c then (if prev then collapse_from True cs else CHR '' '' # collapse_from True cs)
      else c # collapse_from False cs)"

definition collapse_ws :: "string \<Rightarrow> string" where
  "collapse_ws s = collapse_from False s"

text \<open>
  The chain \<open>.replace(/\u00A0/g, " ").replace(/\s+/g, " ").trim()\<close> and the shorter
  \<open>.replace(/\s+/g, " ").trim()\<close>.
\<close>

definition norm_ws :: "string \<Rightarrow> string" where
  "norm_ws s = trim (collapse_ws (replace_nbsp s))"

definition squeeze :: "string \<Rightarrow> string" where
  "squeeze s = trim (collapse_ws s)"

text \<open>\<open>x || null\<close> on a string: the empty string is falsy.\<close>

definition or_null :: "string \<Rightarrow> string option" where
  "or_null s = (if s = [] then None else Some s)"

text \<open>\<open>x || null\<close> and \<open>x || ""\<close> on a value that is a string or \<open>null\<close>.\<close>

definition opt_or_null :: "string option \<Rightarrow> string option" where
  "opt_or_null x = (case x of None \<Rightarrow> None | Some s \<Rightarrow> or_null s)"

definition or_empty :: "string option \<Rightarrow> string" where
  "or_empty x = (case x of None \<Rightarrow> [] | Some s \<Rightarrow> s)"

text \<open>Truthiness of a value that is a string or \<open>null\<close>.\<close>

definition truthy_str :: "string option \<Rightarrow> bool" where
  "truthy_str x = (case x of None \<Rightarrow> False | Some s \<Rightarrow> s \<noteq> [])"

text \<open>
  Case-insensitive matching of a regular expression without the \<open>u\<close> flag compares
  canonicalised code units; for the ASCII letters of the patterns used here only the two
  cases of the same letter are equal.
\<close>

definition lower_char :: "char \<Rightarrow> char" where
  "lower_char c =
     (if 65 \<le> (of_char c :: nat) \<and> (of_char c :: nat) \<le> 90
      then char_of ((of_char c :: nat) + 32) else c)"

definition lower :: "string \<Rightarrow> string" where
  "lower s = map lower_char s"

text \<open>\<open>/lit/i.test(s)\<close> for a literal pattern: some position of \<open>s\<close> starts with it.\<close>

fun contains_ci :: "string \<Rightarrow> string \<Rightarrow> bool" where
  "contains_ci [] lit = (lit = [])"
| "contains_ci (c # cs) lit =
     (startsWith (lower (c # cs)) (lower lit) \<or> contains_ci cs lit)"

text \<open>\<open>s.includes(lit)\<close>, used by the attribute selector \<open>[a*='lit']\<close>.\<close>

fun str_includes :: "string \<Rightarrow> string \<Rightarrow> bool" where
  "str_includes [] lit = (lit = [])"
| "str_includes (c # cs) lit = (startsWith (c # cs) lit \<or> str_includes cs lit)"

text \<open>\<open>s.replace(/:$/, "")\<close>: one colon at the very end is removed.\<close>

definition strip_colon :: "string \<Rightarrow> string" where
  "strip_colon s = (if s \<noteq> [] \<and> last s = CHR '':'' then butlast s else s)"

text \<open>
  \<open>s.split(sep)\<close> for a non-empty separator: the pieces between the occurrences of
  \<open>sep\<close>, found from the left.  The accumulator holds the current piece.
\<close>

fun split_from :: "string \<Rightarrow> string \<Rightarrow> string \<Rightarrow> string list" where
  "split_from sep acc [] = [acc]"
| "split_from sep acc (c # cs) =
     (if sep \<noteq> [] \<and> startsWith (c # cs) sep
      then acc # split_from sep [] (drop (length sep) (c # cs))
      else split_from sep (acc @ [c]) cs)"

definition split_str :: "string \<Rightarrow> string \<Rightarrow> string list" where
  "split_str s sep = split_from sep [] s"


section \<open>JSON values\<close>

text \<open>
  The objects the scripts build, read and persist.  \<open>JUndefined\<close> is the value of a
  missing property; an object is the list of its own properties in insertion order.
\<close>

datatype jv =
    JUndefined
  | JNull
  | JBool bool
  | JNum int
  | JStr string
  | JArr "jv list"
  | JObj "(string \<times> jv) list"

text \<open>\<open>o.k\<close> on a value that is not \<open>null\<close> or \<open>undefined\<close>.\<close>

definition get_prop :: "jv \<Rightarrow> string \<Rightarrow> jv" where
  "get_prop v k =
     (case v of
        JObj kvs \<Rightarrow> (case map_of kvs k of Some x \<Rightarrow> x | None \<Rightarrow> JUndefined)
      | _ \<Rightarrow> JUndefined)"

text \<open>\<open>o.k = x\<close> on an object: an existing property keeps its place.\<close>

definition set_prop :: "jv \<Rightarrow> string \<Rightarrow> jv \<Rightarrow> jv" where
  "set_prop v k x =
     (case v of
        JObj kvs \<Rightarrow>
          (if k \<in> fst ` set kvs then JObj (map (\<lambda>(k', y). if k' = k then (k', x) else (k', y)) kvs)
           else JObj (kvs @ [(k, x)]))
      | _ \<Rightarrow> v)"

text \<open>Truthiness, and \<open>a || b\<close>.\<close>

definition truthy :: "jv \<Rightarrow> bool" where
  "truthy v =
     (case v of
        JUndefined \<Rightarrow> False | JNull \<Rightarrow> False | JBool b \<Rightarrow> b | JNum n \<Rightarrow> n \<noteq> 0
      | JStr s \<Rightarrow> s \<noteq> [] | JArr xs \<Rightarrow> True | JObj kvs \<Rightarrow> True)"

definition js_or :: "jv \<Rightarrow> jv \<Rightarrow> jv" where
  "js_or a b = (if truthy a then a else b)"

text \<open>A string or \<open>null\<close> as a value, and a list of strings as an array.\<close>

definition jopt :: "string option \<Rightarrow> jv" where
  "jopt x = (case x of None \<Rightarrow> JNull | Some s \<Rightarrow> JStr s)"

definition jstrs :: "string list \<Rightarrow> jv" where
  "jstrs xs = JArr (map JStr xs)"

text \<open>
  A string as \<open>collapse_from prev\<close> leaves it: its only whitespace characters are single
  spaces, and it does not start with one when \<open>prev\<close> holds.
\<close>

primrec tidy :: "bool \<Rightarrow> string \<Rightarrow> bool" where
  "tidy prev [] = True"
| "tidy prev (c # cs) =
     (if is_space c then c = CHR '' '' \<and> \<not> prev \<and> tidy True cs else tidy False cs)"


section \<open>The parse tree and the queries made on it\<close>

text \<open>
  The tree that \<open>cheerio.load(html)\<close> builds is the input of the extractors: text nodes,
  comments and elements with their attributes and child nodes.  Tag names are in lower
  case, as the HTML parser leaves them.
\<close>

datatype node =
    TextNode string
  | Comment string
  | Element string "(string \<times> string) list" "node list"

text \<open>
  \<open>node.type\<close>: the parser gives the types \<open>script\<close> and \<open>style\<close> to those two
  elements and \<open>tag\<close> to every other element.
\<close>

definition node_type :: "node \<Rightarrow> string" where
  "node_type n =
     (case n of
        TextNode s \<Rightarrow> ''text''
      | Comment s \<Rightarrow> ''comment''
      | Element t as cs \<Rightarrow> (if t = ''script'' \<or> t = ''style'' then t else ''tag''))"

definition tagName :: "node \<Rightarrow> string" where
  "tagName n = (case n of Element t as cs \<Rightarrow> t | _ \<Rightarrow> [])"

definition contents :: "node \<Rightarrow> node list" where
  "contents n = (case n of Element t as cs \<Rightarrow> cs | _ \<Rightarrow> [])"

definition is_element :: "node \<Rightarrow> bool" where
  "is_element n = (case n of Element t as cs \<Rightarrow> True | _ \<Rightarrow> False)"

text \<open>
  \<open>.attr(name)\<close> of one element: \<open>None\<close> is \<open>undefined\<close>.  The first attribute of that
  name counts.
\<close>

definition attr :: "node \<Rightarrow> string \<Rightarrow> string option" where
  "attr n a = (case n of Element t as cs \<Rightarrow> map_of as a | _ \<Rightarrow> None)"

text \<open>
  \<open>.text()\<close> of one node: the data of its text descendants in document order; the
  contents of comments, scripts and styles are left out.
\<close>

fun text_of :: "node \<Rightarrow> string" where
  "text_of (TextNode s) = s"
| "text_of (Comment s) = []"
| "text_of (Element t as cs) =
     (if t = ''script'' \<or> t = ''style'' then [] else concat (map text_of cs))"

text \<open>
  An element of a selection is a node with its position: the child indices leading to it
  from the top of the tree it was selected in.  Positions identify nodes, and their
  lexicographic order is document order, so a selection is a list of located nodes
  without repetition, in document order.
\<close>

type_synonym el = "nat list \<times> node"

fun path_less :: "nat list \<Rightarrow> nat list \<Rightarrow> bool" where
  "path_less [] [] = False"
| "path_less [] (y # ys) = True"
| "path_less (x # xs) [] = False"
| "path_less (x # xs) (y # ys) = (x < y \<or> (x = y \<and> path_less xs ys))"

fun ins_el :: "el \<Rightarrow> el list \<Rightarrow> el list" where
  "ins_el e [] = [e]"
| "ins_el e (x # xs) =
     (if fst e = fst x then x # xs
      else if path_less (fst e) (fst x) then e # x # xs
      else x # ins_el e xs)"

definition uniq_sort :: "el list \<Rightarrow> el list" where
  "uniq_sort es = foldr ins_el es []"

text \<open>The child nodes of a located node, located, and those that are elements.\<close>

fun locate_from :: "nat list \<Rightarrow> nat \<Rightarrow> node list \<Rightarrow> el list" where
  "locate_from p i [] = []"
| "locate_from p i (c # cs) = (p @ [i], c) # locate_from p (Suc i) cs"

definition child_nodes :: "el \<Rightarrow> el list" where
  "child_nodes e = locate_from (fst e) 0 (contents (snd e))"

definition child_els :: "el \<Rightarrow> el list" where
  "child_els e = filter (\<lambda>c. is_element (snd c)) (child_nodes e)"

text \<open>The elements below a node located at \<open>p\<close>, in document order.\<close>

fun desc_els :: "nat list \<Rightarrow> node \<Rightarrow> el list"
  and desc_list :: "nat list \<Rightarrow> nat \<Rightarrow> node list \<Rightarrow> el list" where
  "desc_els p (TextNode s) = []"
| "desc_els p (Comment s) = []"
| "desc_els p (Element t as cs) = desc_list p 0 cs"
| "desc_list p i [] = []"
| "desc_list p i (c # cs) =
     (if is_element c then [(p @ [i], c)] else []) @ desc_els (p @ [i]) c
       @ desc_list p (Suc i) cs"

definition descendants :: "el \<Rightarrow> el list" where
  "descendants e = desc_els (fst e) (snd e)"

text \<open>
  The document is the list of its top nodes; \<open>root_els\<close> are all its elements, which is
  what \<open>$(selector)\<close> searches.
\<close>

definition root_els :: "node list \<Rightarrow> el list" where
  "root_els doc = desc_list [] 0 doc"

text \<open>
  Selectors.  A compound selector is a list of tests on one element; a selector is a
  chain of compounds, each reached from the previous one (or from the context) by the
  descendant or the child combinator; a selector list is the union of its selectors.
\<close>

datatype test =
    Tag string
  | Cls string
  | Id string
  | AttrEq string string
  | AttrPrefix string string
  | AttrContains string string

datatype comb = Desc | Child

type_synonym selector = "(comb \<times> test list) list"

text \<open>
  The class names of an element: its \<open>class\<close> attribute split at the whitespace of
  HTML (tab, line feed, form feed, carriage return, space).
\<close>

definition html_space :: "char \<Rightarrow> bool" where
  "html_space c =
     (c = CHR 0x09 \<or> c = CHR 0x0A \<or> c = CHR 0x0C \<or> c = CHR 0x0D \<or> c = CHR '' '')"

primrec words_from :: "string \<Rightarrow> string \<Rightarrow> string list" where
  "words_from acc [] = (if acc = [] then [] else [acc])"
| "words_from acc (c # cs) =
     (if html_space c then (if acc = [] then words_from [] cs else acc # words_from [] cs)
      else words_from (acc @ [c]) cs)"

definition class_names :: "node \<Rightarrow> string list" where
  "class_names n = (case attr n ''class'' of None \<Rightarrow> [] | Some s \<Rightarrow> words_from [] s)"

fun holds :: "test \<Rightarrow> node \<Rightarrow> bool" where
  "holds (Tag t) n = (is_element n \<and> tagName n = t)"
| "holds (Cls c) n = (c \<in> set (class_names n))"
| "holds (Id i) n = (attr n ''id'' = Some i)"
| "holds (AttrEq a v) n = (attr n a = Some v)"
| "holds (AttrPrefix a v) n = (case attr n a of None \<Rightarrow> False | Some x \<Rightarrow> v \<noteq> [] \<and> startsWith x v)"
| "holds (AttrContains a v) n = (case attr n a of None \<Rightarrow> False | Some x \<Rightarrow> v \<noteq> [] \<and> str_includes x v)"

definition matches :: "test list \<Rightarrow> node \<Rightarrow> bool" where
  "matches ts n = (is_element n \<and> list_all (\<lambda>t. holds t n) ts)"

text \<open>
  One step of a selector from a selection: the matching elements below (or directly
  below, for the child combinator) the elements of the selection, each once, in
  document order; and a chain of such steps.
\<close>

definition sel_step :: "comb \<times> test list \<Rightarrow> el list \<Rightarrow> el list" where
  "sel_step st ctx =
     uniq_sort (concat (map (\<lambda>e. filter (\<lambda>d. matches (snd st) (snd d))
        (case fst st of Desc \<Rightarrow> descendants e | Child \<Rightarrow> child_els e)) ctx))"

definition sel_chain :: "selector \<Rightarrow> el list \<Rightarrow> el list" where
  "sel_chain sel ctx = foldl (\<lambda>c st. sel_step st c) ctx sel"

text \<open>
  \<open>.find(selector)\<close>.  The elements found lie below the elements of the selection, but
  the first compound of a selector with several compounds is matched against the
  elements of the selection too: \<open>$pc.find("div span")\<close> finds the spans below \<open>$pc\<close> that
  have a \<open>div\<close> ancestor which is \<open>$pc\<close> itself or lies below it.  A selector that starts
  with \<open>>\<close> begins at the children of the selection.
\<close>

definition sel_start :: "comb \<times> test list \<Rightarrow> selector \<Rightarrow> el list \<Rightarrow> el list" where
  "sel_start st rest ctx =
     (if fst st = Desc \<and> rest \<noteq> []
      then uniq_sort (concat (map (\<lambda>e. filter (\<lambda>d. matches (snd st) (snd d))
                                         (e # descendants e)) ctx))
      else sel_step st ctx)"

definition find1 :: "selector \<Rightarrow> el list \<Rightarrow> el list" where
  "find1 sel ctx =
     (case sel of
        [] \<Rightarrow> []
      | st # rest \<Rightarrow> sel_chain rest (sel_start st rest ctx))"

definition find_els :: "selector list \<Rightarrow> el list \<Rightarrow> el list" where
  "find_els sels ctx = uniq_sort (concat (map (\<lambda>sel. find1 sel ctx) sels))"

text \<open>
  \<open>$(selector)\<close> on the whole document.  The first step of each selector looks at every
  element of the document.
\<close>

definition query1 :: "node list \<Rightarrow> selector \<Rightarrow> el list" where
  "query1 doc sel =
     (case sel of
        [] \<Rightarrow> []
      | st # rest \<Rightarrow> sel_chain rest (filter (\<lambda>d. matches (snd st) (snd d)) (root_els doc)))"

definition query :: "node list \<Rightarrow> selector list \<Rightarrow> el list" where
  "query doc sels = uniq_sort (concat (map (query1 doc) sels))"

text \<open>
  The other operations on selections: \<open>.first()\<close>, \<open>.last()\<close>, \<open>.eq(i)\<close>,
  \<open>.children(sel)\<close>, \<open>.not(sel)\<close>, \<open>.is(sel)\<close>, \<open>.text()\<close> and \<open>.attr(name)\<close> (of the
  first element).
\<close>

definition first :: "el list \<Rightarrow> el list" where
  "first s = take 1 s"

definition last_el :: "el list \<Rightarrow> el list" where
  "last_el s = (if s = [] then [] else [last s])"

definition eq_el :: "nat \<Rightarrow> el list \<Rightarrow> el list" where
  "eq_el i s = take 1 (drop i s)"

definition children :: "test list \<Rightarrow> el list \<Rightarrow> el list" where
  "children ts s = find1 [(Child, ts)] s"

definition not_matching :: "test list \<Rightarrow> el list \<Rightarrow> el list" where
  "not_matching ts s = filter (\<lambda>e. \<not> matches ts (snd e)) s"

definition is_matching :: "test list \<Rightarrow> el list \<Rightarrow> bool" where
  "is_matching ts s = list_ex (\<lambda>e. matches ts (snd e)) s"

definition sel_text :: "el list \<Rightarrow> string" where
  "sel_text s = concat (map (\<lambda>e. text_of (snd e)) s)"

definition attr_of :: "el list \<Rightarrow> string \<Rightarrow> string option" where
  "attr_of s a = (case s of [] \<Rightarrow> None | e # es \<Rightarrow> attr (snd e) a)"

text \<open>
  \<open>.clone().children().remove().end().text()\<close>: the text of the selection once the
  child elements of each of its elements are removed, and
  \<open>.clone().children(sel).remove().end().text()\<close> and \<open>clone.find(sel).remove()\<close> followed
  by \<open>clone.text()\<close>, where only the matching children, or the matching descendants, are
  removed.
\<close>

definition without_children :: "(node \<Rightarrow> bool) \<Rightarrow> node \<Rightarrow> node" where
  "without_children P n =
     (case n of Element t as cs \<Rightarrow> Element t as (filter (\<lambda>c. \<not> P c) cs) | _ \<Rightarrow> n)"

fun without_descendants :: "(node \<Rightarrow> bool) \<Rightarrow> node \<Rightarrow> node" where
  "without_descendants P (Element t as cs) =
     Element t as (map (without_descendants P) (filter (\<lambda>c. \<not> P c) cs))"
| "without_descendants P n = n"

definition own_text :: "el list \<Rightarrow> string" where
  "own_text s = concat (map (\<lambda>e. text_of (without_children is_element (snd e))) s)"

text \<open>
  Siblings and parents are found in the document by position: \<open>nodes_at doc p\<close> are
  the child nodes of the node at \<open>p\<close> (the top nodes for the empty position).
\<close>

fun nodes_at :: "node list \<Rightarrow> nat list \<Rightarrow> node list" where
  "nodes_at ns [] = ns"
| "nodes_at ns (i # p) = (if i < length ns then nodes_at (contents (ns ! i)) p else [])"

definition later_siblings :: "node list \<Rightarrow> el \<Rightarrow> el list" where
  "later_siblings doc e =
     (if fst e = [] then []
      else filter (\<lambda>s. is_element (snd s))
             (drop (Suc (last (fst e)))
                (locate_from (butlast (fst e)) 0 (nodes_at doc (butlast (fst e))))))"

text \<open>
  \<open>.nextAll(sel)\<close>: the following sibling elements that match; \<open>.next(sel)\<close>: the
  immediately following sibling element if it matches; \<open>.parent()\<close>.
\<close>

definition nextAll :: "node list \<Rightarrow> test list \<Rightarrow> el list \<Rightarrow> el list" where
  "nextAll doc ts s =
     uniq_sort (concat (map (\<lambda>e. filter (\<lambda>d. matches ts (snd d)) (later_siblings doc e)) s))"

definition next_el :: "node list \<Rightarrow> test list \<Rightarrow> el list \<Rightarrow> el list" where
  "next_el doc ts s =
     uniq_sort (concat (map (\<lambda>e. filter (\<lambda>d. matches ts (snd d)) (take 1 (later_siblings doc e))) s))"

definition parent :: "node list \<Rightarrow> el list \<Rightarrow> el list" where
  "parent doc s =
     uniq_sort (concat (map (\<lambda>e.
        (case fst e of
           [] \<Rightarrow> []
         | i # p \<Rightarrow>
             (if butlast (fst e) = [] then []
              else (let q = butlast (fst e); ns = nodes_at doc (butlast q)
                    in if last q < length ns then [(q, ns ! last q)] else []))) ) s))"

text \<open>
  \<open>normText($el)\<close>, \<open>cleanText($el)\<close> and \<open>textOrNullLocal($el)\<close> are the same function: \<open>null\<close>
  for an empty selection, otherwise the normalised text or \<open>null\<close> if that is empty.
\<close>

definition normText :: "el list \<Rightarrow> string option" where
  "normText s = (if s = [] then None else or_null (norm_ws (sel_text s)))"


section \<open>The detail extractor: pricing\<close>

text \<open>
  One entry \<open>{ label, price, pack_size_info }\<close> of \<open>packageEntries\<close>; each field is a
  string or \<open>null\<close>.
\<close>

datatype package = Package (pk_label: "string option") (pk_price: "string option")
  (pk_info: "string option")

text \<open>
  \<open>cleanText($(span))?.replace(/:$/, "") || null\<close> and \<open>cleanText($sel) || null\<close>.
\<close>

definition label_of :: "el \<Rightarrow> string option" where
  "label_of e = opt_or_null (map_option strip_colon (normText [e]))"

definition price_of :: "el list \<Rightarrow> string option" where
  "price_of s = opt_or_null (normText s)"

text \<open>
  The body of \<open>$(".packages-wrapper .package-container").each\<close>: the entries pushed for
  one package container, first from its direct spans, then from each of its child
  \<open>div\<close>s.
\<close>

definition package_entries_of :: "el \<Rightarrow> package list" where
  "package_entries_of pc =
     (let psiText = normText (first (find_els [[(Desc, [Cls ''pack-size-info''])]] [pc]));
          directSpans = not_matching [Cls ''pack-size-info''] (children [Tag ''span''] [pc]);
          direct =
            (if 2 \<le> length directSpans then
               [Package (label_of (directSpans ! 0)) (price_of [directSpans ! 1]) psiText]
             else if length directSpans = 1 then
               [Package (label_of (directSpans ! 0))
                  (price_of (last_el (find_els [[(Desc, [Tag ''div'']), (Desc, [Tag ''span''])]] [pc])))
                  psiText]
             else []);
          nested =
            concat (map (\<lambda>d.
              (let spans = find_els [[(Desc, [Tag ''span''])]] [d]
               in if 2 \<le> length spans
                  then [Package (label_of (spans ! 0)) (price_of [spans ! 1]) None]
                  else []))
              (children [Tag ''div''] [pc]))
      in direct @ nested)"

definition packageEntries :: "node list \<Rightarrow> package list" where
  "packageEntries doc =
     concat (map package_entries_of
       (query doc [[(Desc, [Cls ''packages-wrapper'']), (Desc, [Cls ''package-container''])]]))"

text \<open>
  The deduplication loop: \<open>seenPK\<close> holds the keys seen so far, and an entry is kept
  when its key \<open>(p.label || "") + "||" + (p.price || "")\<close> is new.
\<close>

definition pk_key :: "package \<Rightarrow> string" where
  "pk_key p = or_empty (pk_label p) @ ''||'' @ or_empty (pk_price p)"

fun dedupe_packages :: "string list \<Rightarrow> package list \<Rightarrow> package list" where
  "dedupe_packages seenPK [] = []"
| "dedupe_packages seenPK (p # ps) =
     (if pk_key p \<in> set seenPK then dedupe_packages seenPK ps
      else p # dedupe_packages (pk_key p # seenPK) ps)"

text \<open>
  The resolution loop over \<open>packages\<close>, on the three variables \<open>unit_price\<close>,
  \<open>strip_price\<close> and \<open>pack_size_info\<close>, then the two defaults taken from \<open>packages[0]\<close>.
\<close>

fun resolve_step ::
  "string option \<times> string option \<times> string option \<Rightarrow> package
     \<Rightarrow> string option \<times> string option \<times> string option" where
  "resolve_step (unit_price, strip_price, pack_size_info) p =
     (if \<not> truthy_str unit_price \<and> contains_ci (or_empty (pk_label p)) ''unit price''
      then pk_price p else unit_price,
      if \<not> truthy_str strip_price \<and> contains_ci (or_empty (pk_label p)) ''strip price''
      then pk_price p else strip_price,
      if \<not> truthy_str pack_size_info \<and> truthy_str (pk_info p)
      then pk_info p else pack_size_info)"

fun resolve_defaults ::
  "package list \<Rightarrow> string option \<times> string option \<times> string option
     \<Rightarrow> string option \<times> string option \<times> string option" where
  "resolve_defaults packages (unit_price, strip_price, pack_size_info) =
     (if \<not> truthy_str unit_price \<and> 0 < length packages
      then opt_or_null (pk_price (packages ! 0)) else unit_price,
      strip_price,
      if \<not> truthy_str pack_size_info \<and> 0 < length packages
      then opt_or_null (pk_info (packages ! 0)) else pack_size_info)"

definition resolve_prices ::
  "package list \<Rightarrow> string option \<times> string option \<times> string option" where
  "resolve_prices packages =
     resolve_defaults packages (foldl resolve_step (None, None, None) packages)"

definition package_obj :: "package \<Rightarrow> jv" where
  "package_obj p =
     JObj [(''label'', jopt (pk_label p)), (''price'', jopt (pk_price p)),
           (''pack_size_info'', jopt (pk_info p))]"

text \<open>The \<open>pricing\<close> object built from the deduplicated packages.\<close>

definition pricing_of :: "package list \<Rightarrow> jv" where
  "pricing_of packages =
     (case resolve_prices packages of
        (unit_price, strip_price, pack_size_info) \<Rightarrow>
          JObj [(''unit_price'', jopt (opt_or_null unit_price)),
                (''strip_price'', jopt (opt_or_null strip_price)),
                (''pack_size_info'', jopt (opt_or_null pack_size_info)),
                (''packages'', JArr (map package_obj packages))])"

definition pricing :: "node list \<Rightarrow> jv" where
  "pricing doc = pricing_of (dedupe_packages [] (packageEntries doc))"


section \<open>The detail extractor: structured sections\<close>

text \<open>\<open>parts.join(" ")\<close>.\<close>

fun join_sp :: "string list \<Rightarrow> string" where
  "join_sp [] = []"
| "join_sp [x] = x"
| "join_sp (x # y # ys) = x @ '' '' @ join_sp (y # ys)"

text \<open>
  The normalised texts of the \<open>li\<close> elements below a node, empty ones left out: the
  loop \<open>$(node).find("li").each(...)\<close> that pushes \<open>liText\<close> when it is non-empty.
\<close>

definition li_texts :: "el \<Rightarrow> string list" where
  "li_texts e =
     filter (\<lambda>t. t \<noteq> [])
       (map (\<lambda>li. norm_ws (text_of (snd li))) (find_els [[(Desc, [Tag ''li''])]] [e]))"

text \<open>
  The same loop nested in \<open>$node.find(lists).each(...)\<close>: every list below the node
  contributes the items below it, so an item of a list nested in another list is pushed
  once for each of them.
\<close>

definition lists_li_texts :: "selector list \<Rightarrow> el \<Rightarrow> string list" where
  "lists_li_texts sels e = concat (map li_texts (find_els sels [e]))"

definition ul_or_ol :: "node \<Rightarrow> bool" where
  "ul_or_ol n = (is_element n \<and> (tagName n = ''ul'' \<or> tagName n = ''ol''))"

text \<open>The object \<open>{ title, information, items }\<close>.\<close>

definition section_group :: "string option \<Rightarrow> string option \<Rightarrow> string list \<Rightarrow> jv" where
  "section_group title information items =
     JObj [(''title'', jopt title), (''information'', jopt information),
           (''items'', jstrs items)]"

text \<open>
  The state of the traversal: the groups emitted so far and the three accumulators
  \<open>currTitle\<close>, \<open>currInfos\<close> and \<open>currItems\<close>.
\<close>

type_synonym section_state = "jv list \<times> string option \<times> string list \<times> string list"

fun flushCurrent :: "section_state \<Rightarrow> section_state" where
  "flushCurrent (out, currTitle, currInfos, currItems) =
     (let infosText = norm_ws (join_sp currInfos);
          itemsArr = filter (\<lambda>s. s \<noteq> []) (map norm_ws currItems)
      in ((if currTitle \<noteq> None \<or> infosText \<noteq> [] \<or> itemsArr \<noteq> []
           then out @ [section_group (opt_or_null currTitle) (or_null infosText) itemsArr]
           else out),
          None, [], []))"

text \<open>The loop body for one child node of the section body.\<close>

fun section_node :: "section_state \<Rightarrow> el \<Rightarrow> section_state" where
  "section_node (out, currTitle, currInfos, currItems) nd =
     (if node_type (snd nd) = ''text'' then
        (let t = norm_ws (text_of (snd nd))
         in (out, currTitle, (if t \<noteq> [] then currInfos @ [t] else currInfos), currItems))
      else if node_type (snd nd) = ''tag'' then
        (if tagName (snd nd) = ''strong'' then
           (case flushCurrent (out, currTitle, currInfos, currItems) of
              (out', t', infos', items') \<Rightarrow> (out', opt_or_null (normText [nd]), infos', items'))
         else if tagName (snd nd) = ''ul'' \<or> tagName (snd nd) = ''ol'' then
           (out, currTitle, currInfos, currItems @ li_texts nd)
         else
           (let directText = norm_ws (text_of (without_descendants ul_or_ol (snd nd)))
            in (out, currTitle,
                (if directText \<noteq> [] then currInfos @ [directText] else currInfos),
                currItems @ lists_li_texts [[(Desc, [Tag ''ul''])], [(Desc, [Tag ''ol''])]] nd)))
      else (out, currTitle, currInfos, currItems))"

text \<open>
  The traversal of a section body that was found, its final flush and the fallback
  group.
\<close>

definition section_walk :: "el \<Rightarrow> jv list" where
  "section_walk body =
     fst (flushCurrent (foldl section_node ([], None, [], []) (child_nodes body)))"

definition parse_section_body :: "el \<Rightarrow> jv list" where
  "parse_section_body body =
     (let out = section_walk body
      in if length out = 0 then
           (case opt_or_null (normText [body]) of
              Some full \<Rightarrow> out @ [section_group None (Some full) []]
            | None \<Rightarrow> out)
         else out)"

text \<open>
  How the body of a section is located: the \<open>.ac-body\<close> right after the marker, else the
  first \<open>.ac-body\<close> among its later siblings, else the first one inside the marker.  (The
  last alternative of the source, after \<open>||\<close>, is never evaluated: a selection object is
  truthy.)
\<close>

definition section_body :: "node list \<Rightarrow> string \<Rightarrow> el list" where
  "section_body doc sectionId =
     (let marker = first (query doc [[(Desc, [Id sectionId])]]);
          body1 =
            (if marker \<noteq> [] then
               (let b = next_el doc [Cls ''ac-body''] marker
                in if b = [] then first (nextAll doc [Cls ''ac-body''] marker) else b)
             else [])
      in if body1 = []
         then first (query doc [[(Desc, [Id sectionId]), (Desc, [Cls ''ac-body''])]])
         else body1)"

definition parseSectionToStructuredArray :: "node list \<Rightarrow> string \<Rightarrow> jv list" where
  "parseSectionToStructuredArray doc sectionId =
     (case section_body doc sectionId of
        [] \<Rightarrow> []
      | body # rest \<Rightarrow> parse_section_body body)"

text \<open>
  A group that carries something: a title, some prose or at least one item.
\<close>

definition nonempty_group :: "jv \<Rightarrow> bool" where
  "nonempty_group g =
     (get_prop g ''title'' \<noteq> JNull \<or> get_prop g ''information'' \<noteq> JNull
      \<or> get_prop g ''items'' \<noteq> JArr [])"

text \<open>
  What the traversal maintains: every group emitted so far carries something, and the
  current title is \<open>null\<close> or a non-empty string.
\<close>

definition section_inv :: "section_state \<Rightarrow> bool" where
  "section_inv st =
     (case st of (out, currTitle, currInfos, currItems) \<Rightarrow>
        list_all nonempty_group out \<and> currTitle \<noteq> Some [])"


section \<open>The detail extractor: dosage\<close>

text \<open>
  The \<open>TypeError\<close> thrown by reading \<open>infos.length\<close> when \<open>infos\<close> is \<open>null\<close>.
\<close>

definition null_length_error :: js_error where
  "null_length_error =
     JsError (''Cannot read properties of null (reading '' @ [CHR 0x27] @ ''length''
                @ [CHR 0x27] @ '')'')
             (''TypeError: Cannot read properties of null (reading '' @ [CHR 0x27] @ ''length''
                @ [CHR 0x27] @ '')'')"

text \<open>The object \<open>{ medication_type, information, instructions }\<close>.\<close>

definition dosage_group :: "string option \<Rightarrow> string option \<Rightarrow> string list \<Rightarrow> jv" where
  "dosage_group medication_type information instructions =
     JObj [(''medication_type'', jopt medication_type), (''information'', jopt information),
           (''instructions'', jstrs instructions)]"

text \<open>
  \<open>pushGroup(groups, medType, infos, instr)\<close>.  The argument \<open>infos\<close> is an array or
  \<open>null\<close> (\<open>None\<close>); \<open>infos.length\<close> throws on \<open>null\<close>.
\<close>

definition pushGroup ::
  "jv list \<Rightarrow> string option \<Rightarrow> string list option \<Rightarrow> string list \<Rightarrow> js_error + jv list" where
  "pushGroup groups medType infos instr =
     (case infos of
        None \<Rightarrow> Inl null_length_error
      | Some is \<Rightarrow>
          (let information = (if length is \<noteq> 0 then Some (squeeze (join_sp is)) else None);
               instructions = filter (\<lambda>s. s \<noteq> []) (map squeeze instr)
           in Inr (groups @ [dosage_group (opt_or_null medType) information instructions])))"

text \<open>
  The state of the traversal: \<open>dosageArray\<close>, \<open>currMed\<close>, \<open>currInfos\<close> and
  \<open>currInstr\<close>; and the block that pushes the current group when it holds something and
  resets the three accumulators.
\<close>

type_synonym dosage_state = "jv list \<times> string option \<times> string list \<times> string list"

fun push_current :: "dosage_state \<Rightarrow> js_error + dosage_state" where
  "push_current (dosageArray, currMed, currInfos, currInstr) =
     (if currMed \<noteq> None \<or> length currInfos \<noteq> 0 \<or> length currInstr \<noteq> 0 then
        (case pushGroup dosageArray currMed (Some currInfos) currInstr of
           Inl err \<Rightarrow> Inl err
         | Inr groups \<Rightarrow> Inr (groups, None, [], []))
      else Inr (dosageArray, currMed, currInfos, currInstr))"

text \<open>
  The body of the loop over the child \<open>li\<close>s of a list that has an item with a
  bold child: \<open>$s = $li.find("> strong").first()\<close>, the text left when the bold children
  are removed, and the items of the first list nested in the item.
\<close>

definition strong_child :: "el \<Rightarrow> el list" where
  "strong_child li = first (find_els [[(Child, [Tag ''strong''])]] [li])"

definition is_strong :: "node \<Rightarrow> bool" where
  "is_strong n = (is_element n \<and> tagName n = ''strong'')"

definition li_rest :: "el \<Rightarrow> string" where
  "li_rest li = norm_ws (text_of (without_children is_strong (snd li)))"

definition li_child_instr :: "el \<Rightarrow> string list" where
  "li_child_instr li =
     filter (\<lambda>t. t \<noteq> [])
       (map (\<lambda>subli. norm_ws (text_of (snd subli)))
          (find_els [[(Desc, [Tag ''li''])]] (first (find_els [[(Desc, [Tag ''ul''])]] [li]))))"

definition dosage_li :: "jv list \<Rightarrow> el \<Rightarrow> js_error + jv list" where
  "dosage_li dosageArray li =
     (if strong_child li \<noteq> [] then
        (let medType = normText (strong_child li);
             rest = li_rest li;
             childInstr = li_child_instr li
         in if length childInstr \<noteq> 0
            then pushGroup dosageArray medType (Some (if rest \<noteq> [] then [rest] else [])) childInstr
            else pushGroup dosageArray medType (Some (if rest \<noteq> [] then [rest] else [])) [])
      else
        (let t = norm_ws (text_of (snd li))
         in if t \<noteq> [] then pushGroup dosageArray None None [t] else Inr dosageArray))"

fun dosage_lis :: "jv list \<Rightarrow> el list \<Rightarrow> js_error + jv list" where
  "dosage_lis dosageArray [] = Inr dosageArray"
| "dosage_lis dosageArray (li # lis) =
     (case dosage_li dosageArray li of
        Inl err \<Rightarrow> Inl err
      | Inr groups \<Rightarrow> dosage_lis groups lis)"

text \<open>The loop body for one child node of the dosage body.\<close>

fun dosage_node :: "dosage_state \<Rightarrow> el \<Rightarrow> js_error + dosage_state" where
  "dosage_node (dosageArray, currMed, currInfos, currInstr) nd =
     (if node_type (snd nd) = ''text'' then
        (let t = norm_ws (text_of (snd nd))
         in Inr (dosageArray, currMed, (if t \<noteq> [] then currInfos @ [t] else currInfos), currInstr))
      else if node_type (snd nd) = ''tag'' then
        (if tagName (snd nd) = ''strong'' then
           (case push_current (dosageArray, currMed, currInfos, currInstr) of
              Inl err \<Rightarrow> Inl err
            | Inr (groups, med, infos, instr) \<Rightarrow> Inr (groups, normText [nd], infos, instr))
         else if tagName (snd nd) = ''ul'' then
           (let liHasStrong = list_ex (\<lambda>li. strong_child li \<noteq> []) (children [Tag ''li''] [nd])
            in if liHasStrong then
                 (case push_current (dosageArray, currMed, currInfos, currInstr) of
                    Inl err \<Rightarrow> Inl err
                  | Inr (groups, med, infos, instr) \<Rightarrow>
                      (case dosage_lis groups (children [Tag ''li''] [nd]) of
                         Inl err \<Rightarrow> Inl err
                       | Inr groups' \<Rightarrow> Inr (groups', med, infos, instr)))
               else Inr (dosageArray, currMed, currInfos, currInstr @ li_texts nd))
         else
           (let direct = norm_ws (text_of (without_children (\<lambda>c. is_element c \<and> tagName c = ''ul'')
                                             (snd nd)))
            in Inr (dosageArray, currMed,
                    (if direct \<noteq> [] then currInfos @ [direct] else currInfos),
                    currInstr @ lists_li_texts [[(Desc, [Tag ''ul''])]] nd)))
      else Inr (dosageArray, currMed, currInfos, currInstr))"

fun dosage_nodes :: "dosage_state \<Rightarrow> el list \<Rightarrow> js_error + dosage_state" where
  "dosage_nodes st [] = Inr st"
| "dosage_nodes st (nd # nds) =
     (case dosage_node st nd of
        Inl err \<Rightarrow> Inl err
      | Inr st' \<Rightarrow> dosage_nodes st' nds)"

text \<open>
  The traversal of a dosage body that was found, the last push and the fallback group;
  and \<open>dosageArray\<close> for a document, empty when there is no dosage body.
\<close>

definition parse_dosage_body :: "el \<Rightarrow> js_error + jv list" where
  "parse_dosage_body body =
     (case dosage_nodes ([], None, [], []) (child_nodes body) of
        Inl err \<Rightarrow> Inl err
      | Inr st \<Rightarrow>
          (case push_current st of
             Inl err \<Rightarrow> Inl err
           | Inr (dosageArray, med, infos, instr) \<Rightarrow>
               (if length dosageArray = 0 then
                  (case normText [body] of
                     Some plain \<Rightarrow>
                       (if plain \<noteq> [] then Inr (dosageArray @ [dosage_group None (Some plain) []])
                        else Inr dosageArray)
                   | None \<Rightarrow> Inr dosageArray)
                else Inr dosageArray)))"

definition dosage_body :: "node list \<Rightarrow> el list" where
  "dosage_body doc = first (nextAll doc [Cls ''ac-body''] (query doc [[(Desc, [Id ''dosage''])]]))"

definition dosage :: "node list \<Rightarrow> js_error + jv list" where
  "dosage doc =
     (case dosage_body doc of
        [] \<Rightarrow> Inr []
      | body # rest \<Rightarrow> parse_dosage_body body)"


section \<open>The listing extractors\<close>

text \<open>
  \<open>($img.attr("alt") || $img.attr("title") || "").trim() || null\<close>: an attribute that
  is missing or empty is falsy.
\<close>

definition img_label :: "el list \<Rightarrow> string option" where
  "img_label img =
     or_null (trim
       (if truthy_str (attr_of img ''alt'') then or_empty (attr_of img ''alt'')
        else if truthy_str (attr_of img ''title'') then or_empty (attr_of img ''title'')
        else []))"

text \<open>
  \<open>/(Ltd|Limited|PLC|Pharma|Laboratories|Ltd\.)/i.test(s)\<close>.
\<close>

definition company_suffix :: "string \<Rightarrow> bool" where
  "company_suffix s =
     (contains_ci s ''Ltd'' \<or> contains_ci s ''Limited'' \<or> contains_ci s ''PLC''
      \<or> contains_ci s ''Pharma'' \<or> contains_ci s ''Laboratories'' \<or> contains_ci s ''Ltd.'')"

text \<open>
  The loop \<open>for (const $col of cols)\<close> that looks for the generic name: the text of the
  first column that passes every \<open>continue\<close> test.
\<close>

fun generic_scan :: "string \<Rightarrow> string option \<Rightarrow> el list \<Rightarrow> string option" where
  "generic_scan name strength [] = None"
| "generic_scan name strength (col # cols) =
     (let txt = trim (sel_text [col])
      in if txt = [] then generic_scan name strength cols
         else if txt = name then generic_scan name strength cols
         else if Some txt = strength then generic_scan name strength cols
         else if length (find_els [[(Desc, [Cls ''data-row-company''])]] [col]) \<noteq> 0
           then generic_scan name strength cols
         else if is_matching [Cls ''data-row-top''] [col]
                 \<or> is_matching [Cls ''data-row-strength''] [col]
           then generic_scan name strength cols
         else Some txt)"

text \<open>
  In the callback of \<open>$("a.hoverable-block").each\<close> of the MedEx listing scraper:
  \<open>source_url\<close>, \<open>$dataRow\<close> and \<open>name\<close>.
\<close>

definition medex_source_url :: "el \<Rightarrow> string" where
  "medex_source_url a =
     (let href = or_empty (attr (snd a) ''href'')
      in if startsWith href ''http'' then href else ORIGIN @ href)"

definition medex_data_row :: "el \<Rightarrow> el list" where
  "medex_data_row a = find_els [[(Desc, [Cls ''data-row''])]] [a]"

definition medex_name :: "el list \<Rightarrow> string" where
  "medex_name dataRow =
     (let top = find_els [[(Desc, [Cls ''data-row-top''])]] dataRow;
          name0 = trim (own_text top)
      in if name0 = [] then trim (sel_text top) else name0)"

text \<open>The callback itself: the records pushed for one anchor, none or one.\<close>

definition medex_entry :: "el \<Rightarrow> jv list" where
  "medex_entry a =
     (let source_url = medex_source_url a;
          dataRow = medex_data_row a
      in if length dataRow = 0 then []
         else
          (let img = first (find_els [[(Desc, [Cls ''md-icon-container'']),
                                       (Desc, [Tag ''img'', Cls ''dosage-icon''])]] dataRow);
               img2 = first (find_els [[(Desc, [Cls ''md-icon-container'']),
                                        (Desc, [Tag ''img''])]] dataRow);
               medicine_type =
                 (if img \<noteq> [] then img_label img
                  else if img2 \<noteq> [] then img_label img2 else None);
               name = medex_name dataRow;
               strength0 =
                 trim (sel_text (find_els [[(Desc, [Cls ''data-row-strength'']),
                                            (Desc, [Cls ''grey-ligten''])]] dataRow));
               strength1 =
                 (if strength0 = []
                  then trim (sel_text (find_els [[(Desc, [Cls ''data-row-strength''])]] dataRow))
                  else strength0);
               strength = (if strength1 = [] then None else Some strength1);
               cols = find_els [[(Desc, [Cls ''col-xs-12''])]] dataRow;
               generic0 =
                 (if 3 \<le> length cols then
                    (let candidate = trim (sel_text [cols ! 2])
                     in if candidate \<noteq> []
                           \<and> length (find_els [[(Desc, [Cls ''data-row-company''])]] [cols ! 2]) = 0
                        then Some candidate else None)
                  else None);
               generic1 =
                 (if \<not> truthy_str generic0 then generic_scan name strength cols else generic0);
               generic = (if generic1 = Some [] then None else generic1);
               company0 = trim (sel_text (find_els [[(Desc, [Cls ''data-row-company''])]] dataRow));
               company1 =
                 (if company0 = [] \<and> length cols \<noteq> 0
                     \<and> company_suffix (trim (sel_text [cols ! (length cols - 1)]))
                  then trim (sel_text [cols ! (length cols - 1)]) else company0);
               company = (if company1 = [] then None else Some company1)
           in if name = [] then []
              else [JObj [(''name'', JStr name), (''strength'', jopt strength),
                          (''generic'', jopt generic), (''company'', jopt company),
                          (''medicine_type'', jopt medicine_type),
                          (''source_url'', JStr source_url)]]))"

definition parsePageByStructure :: "node list \<Rightarrow> jv list" where
  "parsePageByStructure doc =
     concat (map medex_entry (query doc [[(Desc, [Tag ''a'', Cls ''hoverable-block''])]]))"

text \<open>
  The listing scraper of the other site: its origin, \<open>pArray[i] || null\<close>, and the
  callback of \<open>$("ul.space-y-6 > li").each\<close>.
\<close>

definition ORIGIN_bissoy :: string where
  "ORIGIN_bissoy = ''https://www.bissoy.com''"

definition nth_or_null :: "string list \<Rightarrow> nat \<Rightarrow> string option" where
  "nth_or_null xs i = (if i < length xs then or_null (xs ! i) else None)"

definition bissoy_link :: "el \<Rightarrow> el list" where
  "bissoy_link li = first (find_els [[(Desc, [Tag ''a'', AttrPrefix ''href'' ''/medicine/''])]] [li])"

text \<open>\<open>nameText.split(" | ").map(s => s.trim())\<close>, whose first part is \<open>name_en\<close>.\<close>

definition bissoy_names :: "el \<Rightarrow> string list" where
  "bissoy_names li =
     map trim (split_str
       (trim (sel_text (find_els [[(Desc, [Tag ''h3'', Cls ''text-xl'', Cls ''font-bold'']),
                                   (Child, [Tag ''a''])]] [li])))
       '' | '')"

definition bissoy_entry :: "el \<Rightarrow> jv list" where
  "bissoy_entry li =
     (let href = or_empty (attr_of (bissoy_link li) ''href'');
          source_url = (if startsWith href ''http'' then href else ORIGIN_bissoy @ href)
      in if source_url = [] \<or> source_url = ORIGIN_bissoy then []
         else
          (let parts = bissoy_names li;
               name_en = parts ! 0;
               name_bn = nth_or_null parts 1
           in if name_en = [] then []
              else
               (let pArray = map (\<lambda>p. trim (sel_text [p]))
                               (find_els [[(Desc, [Tag ''div'']), (Child, [Tag ''p''])]] [li]);
                    strength = nth_or_null pArray 0;
                    generic = nth_or_null pArray 1;
                    company = nth_or_null pArray 2;
                    price = nth_or_null pArray 3
                in [JObj [(''name_en'', JStr name_en), (''name_bn'', jopt name_bn),
                          (''source_url'', JStr source_url), (''company'', jopt company),
                          (''price'', jopt price), (''generic'', jopt generic),
                          (''strength'', jopt strength)]])))"

definition parsePageByStructure_bissoy :: "node list \<Rightarrow> jv list" where
  "parsePageByStructure_bissoy doc =
     concat (map bissoy_entry
       (query doc [[(Desc, [Tag ''ul'', Cls ''space-y-6'']), (Child, [Tag ''li''])]]))"

text \<open>
  The keys of an object, and the values that hold no \<open>undefined\<close> at any depth.
\<close>

definition obj_keys :: "jv \<Rightarrow> string list" where
  "obj_keys v = (case v of JObj kvs \<Rightarrow> map fst kvs | _ \<Rightarrow> [])"

fun defined :: "jv \<Rightarrow> bool" where
  "defined JUndefined = False"
| "defined (JArr xs) = list_all defined xs"
| "defined (JObj kvs) = list_all (\<lambda>kv. defined (snd kv)) kvs"
| "defined v = True"


section \<open>The detail extractor: the other fields and the record\<close>

text \<open>
  \<open>s.replace(sub, "")\<close> with a string pattern: the first occurrence of \<open>sub\<close> is
  removed.
\<close>

fun remove_first :: "string \<Rightarrow> string \<Rightarrow> string" where
  "remove_first sub [] = []"
| "remove_first sub (c # cs) =
     (if startsWith (c # cs) sub then drop (length sub) (c # cs) else c # remove_first sub cs)"

text \<open>\<open>a || b\<close> on values that are strings or \<open>null\<close>.\<close>

definition opt_or :: "string option \<Rightarrow> string option \<Rightarrow> string option" where
  "opt_or a b = (if truthy_str a then a else b)"

text \<open>
  \<open>makeAbs(src)\<close> on a non-empty string; \<open>/^https?:\/\//i\<close> is a test on the start of
  the string.
\<close>

definition makeAbs :: "string \<Rightarrow> string" where
  "makeAbs src =
     (if startsWith (lower src) ''http://'' \<or> startsWith (lower src) ''https://'' then src
      else if startsWith src ''/'' then ORIGIN @ src
      else ORIGIN @ ''/'' @ src)"

text \<open>
  \<open>$img.attr("src") || $img.attr("data-src") || $img.attr("data-lazy") || null\<close>, made
  absolute when it is there.
\<close>

definition img_src :: "el list \<Rightarrow> string option" where
  "img_src img =
     map_option makeAbs
       (opt_or_null (opt_or (attr_of img ''src'')
          (opt_or (attr_of img ''data-src'') (attr_of img ''data-lazy''))))"

text \<open>\<open>href ? (href.startsWith("http") ? href : ORIGIN + href) : null\<close>.\<close>

definition abs_href :: "string option \<Rightarrow> string option" where
  "abs_href href =
     (if truthy_str href
      then Some (if startsWith (or_empty href) ''http'' then or_empty href
                 else ORIGIN @ or_empty href)
      else None)"

text \<open>The name and the dosage form read from the heading.\<close>

definition brand_heading :: selector where
  "brand_heading = [(Desc, [Tag ''h1'', Cls ''page-heading-1-l'', Cls ''brand''])]"

definition brand_subtitle :: selector where
  "brand_subtitle = brand_heading @ [(Desc, [Tag ''small'', Cls ''h1-subtitle''])]"

definition brand_name :: "node list \<Rightarrow> string option" where
  "brand_name doc =
     (let name = normText (first (query doc [brand_heading]))
      in if truthy_str name then
           (let subtitle = normText (query doc [brand_subtitle])
            in if truthy_str subtitle
               then Some (trim (remove_first (or_empty subtitle) (or_empty name)))
               else name)
         else normText (first (query doc [[(Desc, [Cls ''brand''])]])))"

definition brand_dosage_form :: "node list \<Rightarrow> string option" where
  "brand_dosage_form doc = normText (first (query doc [brand_subtitle]))"

text \<open>The labelled fields: generic name, strength and manufacturer.\<close>

definition titled :: "string \<Rightarrow> selector" where
  "titled t = [(Desc, [Tag ''div'', AttrEq ''title'' t])]"

definition brand_generic :: "node list \<Rightarrow> string option" where
  "brand_generic doc =
     opt_or (normText (first (query doc [titled ''Generic Name'' @ [(Desc, [Tag ''a''])]])))
            (normText (first (query doc [titled ''Generic Name''])))"

definition brand_strength :: "node list \<Rightarrow> string option" where
  "brand_strength doc = opt_or_null (normText (first (query doc [titled ''Strength''])))"

definition brand_company :: "node list \<Rightarrow> string option" where
  "brand_company doc =
     (let company = normText (first (query doc [titled ''Manufactured by'' @ [(Desc, [Tag ''a''])]]))
      in if \<not> truthy_str company then
           (let manuDiv = first (query doc [titled ''Manufactured by''])
            in if length manuDiv \<noteq> 0 then
                 (let anchor = first (find_els [[(Desc, [Tag ''a''])]] manuDiv)
                  in if length anchor \<noteq> 0 then normText anchor
                     else or_null (trim (replace_nbsp (own_text manuDiv))))
               else company)
         else company)"


text \<open>The flags, the sibling brands and the link to the alternate brands.\<close>

definition flags :: "node list \<Rightarrow> jv list" where
  "flags doc =
     map (\<lambda>el.
       JObj [(''label'', jopt (normText (first (find_els [[(Child, [Tag ''div''])]] [el])))),
             (''note'', jopt (normText (eq_el 1 (find_els [[(Child, [Tag ''div''])]] [el]))))])
       (query doc [[(Desc, [Cls ''sp-flag''])]])"

definition also_available :: "node list \<Rightarrow> jv list" where
  "also_available doc =
     map (\<lambda>a.
       JObj [(''text'', jopt (normText [a])),
             (''href'', jopt (abs_href (attr (snd a) ''href'')))])
       (query doc [[(Desc, [Cls ''btn-sibling-brands''])]])"

definition alternate_brands_url :: "node list \<Rightarrow> string option" where
  "alternate_brands_url doc =
     abs_href (attr_of (query doc [[(Desc, [Tag ''a'', Cls ''btn-teal'', Cls ''prsinf-btn'',
                                           AttrContains ''href'' ''/brand-names''])]]) ''href'')"

text \<open>
  \<open>extractAnswerArray($container)\<close>: the text and the list items of the child nodes of
  an answer, in order.
\<close>

definition answer_node :: "el \<Rightarrow> string list" where
  "answer_node nd =
     (if node_type (snd nd) = ''text'' then
        (let t = norm_ws (text_of (snd nd)) in if t \<noteq> [] then [t] else [])
      else if node_type (snd nd) = ''tag'' then
        (if tagName (snd nd) = ''ul'' \<or> tagName (snd nd) = ''ol'' then li_texts nd
         else
           (let textPart = norm_ws (text_of (without_descendants ul_or_ol (snd nd)))
            in (if textPart \<noteq> [] then [textPart] else [])
               @ lists_li_texts [[(Desc, [Tag ''ul''])], [(Desc, [Tag ''ol''])]] nd))
      else [])"

definition extractAnswerArray :: "el list \<Rightarrow> string list" where
  "extractAnswerArray container =
     (if length container = 0 then []
      else filter (\<lambda>s. s \<noteq> [])
             (map trim (concat (map answer_node (concat (map child_nodes container))))))"

text \<open>
  The callback for one question block: the records pushed for it, none or one.
\<close>

definition question_entry :: "el \<Rightarrow> jv list" where
  "question_entry el =
     (let q = opt_or_null
                (opt_or (normText (first (find_els [[(Desc, [Cls ''caq-q''])]] [el])))
                        (normText (first (find_els [[(Desc, [Tag ''h4''])]] [el]))));
          ansEl = first (find_els [[(Desc, [Cls ''caq-a''])]] [el]);
          arr0 = extractAnswerArray ansEl;
          arr = (if length arr0 = 0 \<and> length ansEl \<noteq> 0 \<and> truthy_str (normText ansEl)
                 then [or_empty (normText ansEl)] else arr0)
      in if truthy_str q \<or> 0 < length arr
         then [JObj [(''question'', jopt q), (''answer'', jstrs arr)]]
         else [])"

definition common_questions :: "node list \<Rightarrow> jv list" where
  "common_questions doc =
     (let commBlock = first (query doc [[(Desc, [Id ''commonly_asked_questions''])]]);
          found =
            (if length commBlock \<noteq> 0
             then concat (map question_entry
                    (find_els [[(Desc, [Cls ''ac-body'']), (Desc, [Cls ''caq''])],
                               [(Desc, [Cls ''caq''])]] commBlock))
             else [])
      in if length found = 0
         then concat (map question_entry (query doc [[(Desc, [Cls ''caq''])]]))
         else found)"

text \<open>
  \<open>s.replace(/[:\s]+$/, "")\<close>, \<open>s.toLowerCase()\<close> on the code units modelled, and the
  tests \<open>/w1\s*w2/i.test(s)\<close>.
\<close>

definition strip_colons :: "string \<Rightarrow> string" where
  "strip_colons s = rev (dropWhile (\<lambda>c. c = CHR '':'' \<or> is_space c) (rev s))"

definition toLowerCase :: "string \<Rightarrow> string" where
  "toLowerCase s =
     map (\<lambda>c. if (65 \<le> (of_char c :: nat) \<and> (of_char c :: nat) \<le> 90)
                  \<or> (192 \<le> (of_char c :: nat) \<and> (of_char c :: nat) \<le> 222
                      \<and> (of_char c :: nat) \<noteq> 215)
               then char_of ((of_char c :: nat) + 32) else c) s"

fun words_ci :: "string \<Rightarrow> string \<Rightarrow> string \<Rightarrow> bool" where
  "words_ci [] w1 w2 = (w1 = [] \<and> w2 = [])"
| "words_ci (c # cs) w1 w2 =
     ((startsWith (lower (c # cs)) w1
        \<and> startsWith (lower (dropWhile is_space (drop (length w1) (c # cs)))) w2)
      \<or> words_ci cs w1 w2)"

text \<open>
  The match of
  \<open>/Molecular\s*Formula\s*[:\-]?\s*([A-Za-z0-9\-\+\(\)\/\u00B7\s]+)/i\<close> (the class holds the
  middle dot, written here by its code): the text of the
  group.  \<open>formula_group\<close> tries, right after \<open>Formula\<close>, the ways to match
  \<open>\s*[:\-]?\s*\<close> in the order of the backtracking (longest first, the optional
  character taken first) and returns the first non-empty run of the class that follows;
  \<open>formula_match\<close> finds the leftmost position where the whole expression matches.
\<close>

definition formula_char :: "char \<Rightarrow> bool" where
  "formula_char c =
     ((65 \<le> (of_char c :: nat) \<and> (of_char c :: nat) \<le> 90)
      \<or> (97 \<le> (of_char c :: nat) \<and> (of_char c :: nat) \<le> 122)
      \<or> (48 \<le> (of_char c :: nat) \<and> (of_char c :: nat) \<le> 57)
      \<or> c = CHR ''-'' \<or> c = CHR ''+'' \<or> c = CHR ''('' \<or> c = CHR '')'' \<or> c = CHR ''/''
      \<or> c = CHR 0xB7 \<or> is_space c)"

definition space_backtrack :: "string \<Rightarrow> string list" where
  "space_backtrack s = map (\<lambda>k. drop k s) (rev [0..<Suc (length (takeWhile is_space s))])"

definition formula_group :: "string \<Rightarrow> string option" where
  "formula_group s =
     (case filter (\<lambda>r. r \<noteq> [])
             (map (takeWhile formula_char)
                (concat (map space_backtrack
                   (concat (map (\<lambda>s1.
                      (if s1 \<noteq> [] \<and> (hd s1 = CHR '':'' \<or> hd s1 = CHR ''-'') then [tl s1, s1]
                       else [s1]))
                      (space_backtrack s)))))) of
        [] \<Rightarrow> None
      | r # rs \<Rightarrow> Some r)"

fun formula_match :: "string \<Rightarrow> string option" where
  "formula_match [] = None"
| "formula_match (c # cs) =
     (let after1 = dropWhile is_space (drop 9 (c # cs))
      in if startsWith (lower (c # cs)) ''molecular'' \<and> startsWith (lower after1) ''formula''
            \<and> formula_group (drop 7 after1) \<noteq> None
         then formula_group (drop 7 after1)
         else formula_match cs)"

text \<open>
  The compound summary: the loop over the rows of the table, on the two fields
  \<open>molecular_formula\<close> and \<open>chemical_structure\<close>, and the fallbacks on the text and the
  first image of the body.
\<close>

definition cell_text :: "el list \<Rightarrow> string" where
  "cell_text td = norm_ws (sel_text td)"

definition structure_of_cell :: "el list \<Rightarrow> string option \<Rightarrow> string option" where
  "structure_of_cell td old =
     (let img = first (find_els [[(Desc, [Tag ''img''])]] td)
      in if length img \<noteq> 0 then (case img_src img of Some src \<Rightarrow> Some src | None \<Rightarrow> old)
         else if cell_text td \<noteq> [] then Some (cell_text td) else old)"

fun compound_row :: "string option \<times> string option \<Rightarrow> el \<Rightarrow> string option \<times> string option" where
  "compound_row (molecular_formula, chemical_structure) tr =
     (let tds = find_els [[(Desc, [Tag ''td''])]] [tr]
      in if 2 \<le> length tds then
           (let rawKey = toLowerCase (trim (strip_colons (sel_text (eq_el 0 tds))));
                valTd = eq_el 1 tds
            in if words_ci rawKey ''molecular'' ''formula'' then
                 ((if cell_text valTd \<noteq> [] then Some (cell_text valTd) else molecular_formula),
                  chemical_structure)
               else if words_ci rawKey ''chemical'' ''structure'' \<or> contains_ci rawKey ''structure''
               then (molecular_formula, structure_of_cell valTd chemical_structure)
               else
                 (let mf = (if contains_ci rawKey ''molecular'' \<and> contains_ci rawKey ''formula''
                               \<and> \<not> truthy_str molecular_formula \<and> cell_text valTd \<noteq> []
                            then Some (cell_text valTd) else molecular_formula);
                      cs = (if contains_ci rawKey ''structure'' \<and> \<not> truthy_str chemical_structure
                            then structure_of_cell valTd chemical_structure
                            else chemical_structure)
                  in (mf, cs)))
         else (molecular_formula, chemical_structure))"

text \<open>
  The bodies of the compound summary and of the therapeutic class are located as the
  body of a structured section is.
\<close>

definition marker_body :: "node list \<Rightarrow> string \<Rightarrow> el list" where
  "marker_body doc sectionId = section_body doc sectionId"

definition compound_summary :: "node list \<Rightarrow> jv" where
  "compound_summary doc =
     (let compBody = marker_body doc ''compound_summary'';
          found =
            (if length compBody \<noteq> 0 then
               (let table = first (find_els [[(Desc, [Tag ''table''])]] compBody);
                    rows = (if length table \<noteq> 0
                            then foldl compound_row (None, None)
                                   (find_els [[(Desc, [Tag ''tr''])]] table)
                            else (None, None));
                    mf0 = fst rows;
                    cs0 = snd rows;
                    bodyText = norm_ws (sel_text compBody);
                    mf1 = (if \<not> truthy_str mf0 \<or> \<not> truthy_str cs0 then
                             (if \<not> truthy_str mf0 then
                                (case formula_match bodyText of
                                   Some g \<Rightarrow> Some (trim g) | None \<Rightarrow> mf0)
                              else mf0)
                           else mf0);
                    cs1 = (if \<not> truthy_str mf0 \<or> \<not> truthy_str cs0 then
                             (if \<not> truthy_str cs0 then
                                (let img = first (find_els [[(Desc, [Tag ''img''])]] compBody)
                                 in if length img \<noteq> 0
                                    then (case img_src img of Some src \<Rightarrow> Some src | None \<Rightarrow> cs0)
                                    else cs0)
                              else cs0)
                           else cs0)
                in (mf1, cs1))
             else (None, None))
      in JObj [(''molecular_formula'', jopt (opt_or_null (fst found))),
               (''chemical_structure'', jopt (opt_or_null (snd found)))])"





section \<open>The detail fetcher that keeps raw section texts\<close>

text \<open>
  \<open>parseBrandDetail\<close> of \<open>fetch_medex_brand_details.js\<close>.  Its header fields, sibling
  brands and alternate link are computed as above (\<open>textOrNullLocal\<close> is \<open>normText\<close>).
\<close>

definition pack_image_raw :: "node list \<Rightarrow> string option" where
  "pack_image_raw doc =
     (let mpImg = first (query doc [[(Desc, [Cls ''mp-trigger'']), (Desc, [Tag ''img''])]])
      in if length mpImg \<noteq> 0 then
           (let pack_image = opt_or_null (opt_or (attr_of mpImg ''src'') (attr_of mpImg ''data-src''))
            in if truthy_str pack_image \<and> \<not> startsWith (or_empty pack_image) ''http''
               then Some (ORIGIN @ or_empty pack_image) else pack_image)
         else
           (let imgDefer = first (query doc [[(Desc, [Cls ''img-defer''])]])
            in if length imgDefer \<noteq> 0
               then opt_or_null (opt_or (attr_of imgDefer ''src'') (attr_of imgDefer ''data-src''))
               else None))"

text \<open>
  The group of \<open>/Unit Price:\s*([...\d\.,]+)/i\<close> and of the same expression for the
  strip price, at the leftmost match: \<open>lit\<close> is the literal part in lower case.  The
  class holds the digits, the point, the comma and a currency sign that is outside the
  code units modelled.
\<close>

definition price_char :: "char \<Rightarrow> bool" where
  "price_char c =
     ((48 \<le> (of_char c :: nat) \<and> (of_char c :: nat) \<le> 57) \<or> c = CHR ''.'' \<or> c = CHR '','')"

fun price_match :: "string \<Rightarrow> string \<Rightarrow> string option" where
  "price_match lit [] = None"
| "price_match lit (c # cs) =
     (let run = takeWhile price_char (dropWhile is_space (drop (length lit) (c # cs)))
      in if startsWith (lower (c # cs)) lit \<and> run \<noteq> [] then Some run
         else price_match lit cs)"

text \<open>
  The whole match of \<open>/\(([^)]+x[^)]+)\)/i\<close>: the leftmost parenthesis whose content, up
  to the next closing parenthesis, has an \<open>x\<close> with a character on each side.
\<close>

fun pack_size_match :: "string \<Rightarrow> string option" where
  "pack_size_match [] = None"
| "pack_size_match (c # cs) =
     (let run = takeWhile (\<lambda>d. d \<noteq> CHR '')'') cs
      in if c = CHR ''('' \<and> length run < length cs
            \<and> CHR ''x'' \<in> set (lower (butlast (tl run)))
         then Some (c # run @ '')'')
         else pack_size_match cs)"

text \<open>
  The loop over the package containers, on \<open>unit_price\<close>, \<open>strip_price\<close> and
  \<open>pack_size_info\<close>.
\<close>

fun pricing_raw_step ::
  "string option \<times> string option \<times> string option \<Rightarrow> el
     \<Rightarrow> string option \<times> string option \<times> string option" where
  "pricing_raw_step (unit_price, strip_price, pack_size_info) pc =
     (let txt = squeeze (sel_text [pc]);
          unit_price' = (case price_match ''unit price:'' txt of
                           Some g \<Rightarrow> Some (trim g) | None \<Rightarrow> unit_price);
          strip_price' = (case price_match ''strip price:'' txt of
                            Some g \<Rightarrow> Some (trim g) | None \<Rightarrow> strip_price);
          psi = first (find_els [[(Desc, [Cls ''pack-size-info''])]] [pc]);
          info1 = (if length psi \<noteq> 0 then Some (trim (sel_text psi)) else pack_size_info);
          info2 = (if \<not> truthy_str info1
                   then (case pack_size_match txt of Some m \<Rightarrow> Some m | None \<Rightarrow> info1)
                   else info1)
      in (unit_price', strip_price', info2))"

definition pricing_raw :: "node list \<Rightarrow> jv" where
  "pricing_raw doc =
     (case foldl pricing_raw_step (None, None, None)
             (query doc [[(Desc, [Cls ''packages-wrapper'']), (Desc, [Cls ''package-container''])]]) of
        (unit_price, strip_price, pack_size_info) \<Rightarrow>
          JObj [(''unit_price'', jopt unit_price), (''strip_price'', jopt strip_price),
                (''pack_size_info'', jopt pack_size_info)])"

text \<open>
  The loop over \<open>sectionIds\<close>: a section gets a property of the object \<open>sections\<close> only
  when the text of its body is found.
\<close>

definition sectionIds :: "string list" where
  "sectionIds =
     [''indications'', ''mode_of_action'', ''dosage'', ''interaction'', ''contraindications'',
      ''side_effects'', ''pregnancy_cat'', ''precautions'', ''pediatric_uses'',
      ''overdose_effects'', ''drug_classes'', ''storage_conditions'', ''compound_summary'',
      ''commonly_asked_questions'']"

definition section_text :: "node list \<Rightarrow> string \<Rightarrow> string option" where
  "section_text doc sectionId =
     (let marker = query doc [[(Desc, [Id sectionId])]]
      in if length marker \<noteq> 0 then
           (let body1 = first (nextAll doc [Cls ''ac-body''] marker);
                body = (if length body1 = 0
                        then first (find_els [[(Desc, [Cls ''ac-body''])]] (parent doc marker))
                        else body1)
            in normText body)
         else None)"

definition sections_raw :: "node list \<Rightarrow> jv" where
  "sections_raw doc =
     foldl (\<lambda>sections sectionId.
        (if truthy_str (section_text doc sectionId)
         then set_prop sections sectionId (JStr (or_empty (section_text doc sectionId)))
         else sections))
       (JObj []) sectionIds"

definition common_questions_raw :: "node list \<Rightarrow> jv list" where
  "common_questions_raw doc =
     concat (map (\<lambda>el.
        (let q = normText (find_els [[(Desc, [Cls ''caq-q''])]] [el]);
             a = normText (find_els [[(Desc, [Cls ''caq-a''])]] [el])
         in if truthy_str q \<or> truthy_str a then [JObj [(''q'', jopt q), (''a'', jopt a)]] else []))
       (query doc [[(Desc, [Id ''commonly_asked_questions'']), (Desc, [Cls ''caq''])]]))"

text \<open>
  The compound summary: an object that starts empty and gets a property for each row
  of the table, named by the row.
\<close>

definition compound_raw_row :: "jv \<Rightarrow> el \<Rightarrow> jv" where
  "compound_raw_row compound tr =
     (let tds = find_els [[(Desc, [Tag ''td''])]] [tr]
      in if 2 \<le> length tds then
           (let key = trim (strip_colons (sel_text (eq_el 0 tds)));
                valEl = eq_el 1 tds;
                valText = trim (sel_text valEl)
            in if contains_ci key ''Molecular Formula''
               then set_prop compound ''molecular_formula'' (jopt (or_null valText))
               else if contains_ci key ''Chemical Structure'' then
                 (let img = first (find_els [[(Desc, [Tag ''img''])]] valEl)
                  in if length img \<noteq> 0
                     then set_prop compound ''chemical_structure'' (jopt (abs_href (attr_of img ''src'')))
                     else set_prop compound ''chemical_structure'' (jopt (or_null valText)))
               else set_prop compound key (jopt (or_null valText)))
         else compound)"

definition compound_raw :: "node list \<Rightarrow> jv" where
  "compound_raw doc =
     (let compoundTable =
            first (query doc [[(Desc, [Id ''compound_summary'']), (Desc, [Cls ''ac-body'']),
                               (Desc, [Tag ''table''])]])
      in if length compoundTable \<noteq> 0
         then foldl compound_raw_row (JObj []) (find_els [[(Desc, [Tag ''tr''])]] compoundTable)
         else
           (let compTxt = normText (first (query doc [[(Desc, [Id ''compound_summary'']),
                                                        (Desc, [Cls ''ac-body''])]]))
            in if truthy_str compTxt then set_prop (JObj []) ''summary'' (jopt compTxt)
               else JObj []))"

definition therapeutic_class_raw :: "node list \<Rightarrow> string option" where
  "therapeutic_class_raw doc =
     opt_or_null (normText (first (query doc [[(Desc, [Id ''drug_classes'']),
                                                (Desc, [Cls ''ac-body''])]])))"

text \<open>
  The dosage groups: one for each \<open>strong\<close> element of the dosage body, with the texts
  collected from the sibling elements that follow it up to the next \<open>strong\<close>
  (\<open>nextUntil\<close>); without any \<open>strong\<close>, one group with the items of all the lists.
\<close>

definition nextUntil :: "node list \<Rightarrow> test list \<Rightarrow> el \<Rightarrow> el list" where
  "nextUntil doc ts e = takeWhile (\<lambda>s. \<not> matches ts (snd s)) (later_siblings doc e)"

definition li_norm_texts :: "el \<Rightarrow> string list" where
  "li_norm_texts e =
     concat (map (\<lambda>li. (case normText [li] of Some t \<Rightarrow> [t] | None \<Rightarrow> []))
               (find_els [[(Desc, [Tag ''li''])]] [e]))"

definition dosage_raw_node :: "string option \<Rightarrow> string list \<Rightarrow> el \<Rightarrow> string list" where
  "dosage_raw_node medType instructions nd =
     (if node_type (snd nd) = ''text'' then
        (let t = norm_ws (text_of (snd nd)) in if t \<noteq> [] then instructions @ [t] else instructions)
      else if tagName (snd nd) \<noteq> [] \<and> lower (tagName (snd nd)) = ''ul'' then
        instructions @ li_norm_texts nd
      else
        (let pushed = instructions
               @ concat (map li_norm_texts (find_els [[(Desc, [Tag ''ul''])]] [nd]));
             directText = norm_ws (text_of (without_children
                                      (\<lambda>c. is_element c \<and> tagName c = ''ul'') (snd nd)))
         in if directText \<noteq> [] \<and> Some directText \<noteq> medType then directText # pushed
            else pushed))"

definition dosage_raw_group :: "node list \<Rightarrow> el \<Rightarrow> jv" where
  "dosage_raw_group doc s =
     (let medType = opt_or_null (normText [s]);
          instructions = foldl (dosage_raw_node medType) [] (nextUntil doc [Tag ''strong''] s)
      in JObj [(''medication_type'', jopt medType), (''instructions'', jstrs instructions)])"

definition dosage_raw :: "node list \<Rightarrow> jv list" where
  "dosage_raw doc =
     (let dosageBody = first (nextAll doc [Cls ''ac-body''] (query doc [[(Desc, [Id ''dosage''])]]))
      in if length dosageBody \<noteq> 0 then
           (let strongs = find_els [[(Desc, [Tag ''strong''])]] dosageBody
            in if length strongs \<noteq> 0 then map (dosage_raw_group doc) strongs
               else
                 (let fallbackInstructions =
                        concat (map li_norm_texts (find_els [[(Desc, [Tag ''ul''])]] dosageBody))
                  in if length fallbackInstructions \<noteq> 0
                     then [JObj [(''medication_type'', JNull),
                                 (''instructions'', jstrs fallbackInstructions)]]
                     else []))
         else [])"

definition parseBrandDetail_raw :: "node list \<Rightarrow> string \<Rightarrow> string \<Rightarrow> jv" where
  "parseBrandDetail_raw doc pageUrl now =
     JObj [(''source_url'', JStr pageUrl),
           (''name'', jopt (opt_or_null (brand_name doc))),
           (''dosage_form'', jopt (opt_or_null (brand_dosage_form doc))),
           (''generic'', jopt (opt_or_null (brand_generic doc))),
           (''strength'', jopt (opt_or_null (brand_strength doc))),
           (''company'', jopt (opt_or_null (brand_company doc))),
           (''pack_image'', jopt (opt_or_null (pack_image_raw doc))),
           (''pricing'', pricing_raw doc),
           (''also_available'', JArr (also_available doc)),
           (''alternate_brands_url'', jopt (alternate_brands_url doc)),
           (''sections'', sections_raw doc),
           (''dosage'', JArr (dosage_raw doc)),
           (''common_questions'', JArr (common_questions_raw doc)),
           (''compound_summary'', compound_raw doc),
           (''therapeutic_class'', jopt (therapeutic_class_raw doc)),
           (''fetched_at'', JStr now)]"


section \<open>The batch scheduler of the listing scraper\<close>

text \<open>
  What \<open>fetchPageRaw\<close> returns: the body and the final URL.  \<open>cheerio.load\<close> is the first
  call of the parser; the body either loads into a tree or makes it throw.
\<close>

datatype response = Response (html: "js_error + node list") (finalUrl: string)

definition load_and_parse :: "response \<Rightarrow> js_error + jv list" where
  "load_and_parse r =
     (case html r of Inl err \<Rightarrow> Inl err | Inr doc \<Rightarrow> Inr (parsePageByStructure doc))"

text \<open>
  The constants of the script (\<open>MAX_PAGES = 900\<close>, \<open>BATCH_SIZE = 5\<close>,
  \<open>MAX_RETRIES = 3\<close> in the source) are parameters of the model.
\<close>

record config =
  MAX_PAGES :: int
  BATCH_SIZE :: int
  MAX_RETRIES :: int

text \<open>
  The output directory: the file \<open>page_{start}_to_{end}.json\<close> is named by the pair
  \<open>(start, end)\<close>; a file is empty or holds the JSON text of an array.  The environment
  of a run is the network and, for each file, the error its write throws, if any.
\<close>

datatype out_file = EmptyFile | JsonArray "jv list"

record env =
  network :: "int \<Rightarrow> int \<Rightarrow> js_error + response"
  write_error :: "int \<times> int \<Rightarrow> js_error option"

text \<open>
  The state of \<open>main\<close>: the files, \<open>failedPages\<close> and \<open>totalSaved\<close>.  The last two
  fields are not variables of the script: \<open>dispatched\<close> records the pages handed to
  \<open>fetchWithRetries\<close>, in order, and \<open>write_calls\<close> the calls of \<open>writeBatchFile\<close>, each
  with the file and the items it was given, whether or not the write succeeded.
\<close>

record run_state =
  files :: "int \<times> int \<Rightarrow> out_file option"
  failedPages :: "int list"
  totalSaved :: int
  dispatched :: "int list"
  write_calls :: "((int \<times> int) \<times> jv list) list"

definition fileExistsNonEmpty :: "(int \<times> int \<Rightarrow> out_file option) \<Rightarrow> int \<times> int \<Rightarrow> bool" where
  "fileExistsNonEmpty fs name =
     (case fs name of None \<Rightarrow> False | Some EmptyFile \<Rightarrow> False | Some (JsonArray items) \<Rightarrow> True)"

text \<open>
  The loop over the results of a batch, on \<open>batchItems\<close> and \<open>batchFailed\<close> (pairs of a
  page and an error text).
\<close>

fun collect_results ::
  "response fetch_result list \<Rightarrow> jv list \<times> (int \<times> string) list
     \<Rightarrow> jv list \<times> (int \<times> string) list" where
  "collect_results [] acc = acc"
| "collect_results (res # rest) (batchItems, batchFailed) =
     (case res of
        Failure p e \<Rightarrow>
          collect_results rest (batchItems, batchFailed @ [(p, if e \<noteq> [] then e else ''unknown'')])
      | Success p r \<Rightarrow>
          (case load_and_parse r of
             Inr parsed \<Rightarrow>
               collect_results rest
                 (batchItems @ map (\<lambda>it. set_prop it ''_source_page'' (JNum p)) parsed,
                  batchFailed)
           | Inl err \<Rightarrow>
               collect_results rest
                 (batchItems, batchFailed @ [(p, ''parse_error: '' @ error_text err)])))"

text \<open>
  The catch clause of the write: every page of the batch not yet in \<open>batchFailed\<close> is
  added to it.
\<close>

definition mark_write_failed ::
  "js_error \<Rightarrow> int list \<Rightarrow> (int \<times> string) list \<Rightarrow> (int \<times> string) list" where
  "mark_write_failed err pages batchFailed =
     foldl (\<lambda>bf p. if p \<in> fst ` set bf then bf else bf @ [(p, ''write_error: '' @ error_text err)])
       batchFailed pages"

definition batch_end :: "config \<Rightarrow> int \<Rightarrow> int" where
  "batch_end cfg start = min (start + BATCH_SIZE cfg - 1) (MAX_PAGES cfg)"

definition batch_pages :: "config \<Rightarrow> int \<Rightarrow> int list" where
  "batch_pages cfg start = [start..batch_end cfg start]"

text \<open>One iteration of the \<open>for\<close> loop of \<open>main\<close>.\<close>

definition batch_step :: "config \<Rightarrow> env \<Rightarrow> int \<Rightarrow> run_state \<Rightarrow> run_state" where
  "batch_step cfg e start st =
     (let name = (start, batch_end cfg start) in
      if fileExistsNonEmpty (files st) name then st
      else
       (let pages = batch_pages cfg start;
            results = map (\<lambda>p. fst (fetchWithRetries (network e) p (MAX_RETRIES cfg))) pages;
            collected = collect_results results ([], []);
            batchItems = fst collected;
            batchFailed0 = snd collected;
            st1 = st\<lparr>dispatched := dispatched st @ pages,
                     write_calls := write_calls st @ [(name, batchItems)]\<rparr>
        in (case write_error e name of
              None \<Rightarrow>
                st1\<lparr>files := (files st)(name \<mapsto> JsonArray batchItems),
                    totalSaved := totalSaved st + int (length batchItems),
                    failedPages := failedPages st @ map fst batchFailed0\<rparr>
            | Some err \<Rightarrow>
                st1\<lparr>failedPages :=
                      failedPages st @ map fst (mark_write_failed err pages batchFailed0)\<rparr>)))"

text \<open>
  The loop \<open>for (let start = 1; start <= MAX_PAGES; start += BATCH_SIZE)\<close>.  It does not
  end when \<open>BATCH_SIZE\<close> is not positive.
\<close>

partial_function (option) main_loop ::
  "config \<Rightarrow> env \<Rightarrow> int \<Rightarrow> run_state \<Rightarrow> run_state option" where
  "main_loop cfg e start st =
     (if start \<le> MAX_PAGES cfg
      then main_loop cfg e (start + BATCH_SIZE cfg) (batch_step cfg e start st)
      else Some st)"

text \<open>
  \<open>Array.from(new Set(failedPages)).sort((a, b) => a - b)\<close>: the set keeps the first
  occurrence of each page, the sort is numeric.
\<close>

definition failedUnique :: "int list \<Rightarrow> int list" where
  "failedUnique failed = sort (rev (remdups (rev failed)))"

text \<open>
  \<open>main\<close>, from the files found in the output directory: the final state and the
  report of the failed pages.
\<close>

definition main :: "config \<Rightarrow> env \<Rightarrow> (int \<times> int \<Rightarrow> out_file option) \<Rightarrow> (run_state \<times> int list) option" where
  "main cfg e fs =
     (case main_loop cfg e 1
             \<lparr>files = fs, failedPages = [], totalSaved = 0, dispatched = [], write_calls = []\<rparr> of
        None \<Rightarrow> None
      | Some st \<Rightarrow> Some (st, failedUnique (failedPages st)))"

text \<open>
  For one page of a batch: the result of its fetch, the records it contributes to the
  batch (those of its parse, tagged with the page), and whether it is recorded as
  failed by the loop over the results.
\<close>

definition page_result :: "config \<Rightarrow> env \<Rightarrow> int \<Rightarrow> response fetch_result" where
  "page_result cfg e p = fst (fetchWithRetries (network e) p (MAX_RETRIES cfg))"

definition page_items :: "config \<Rightarrow> env \<Rightarrow> int \<Rightarrow> jv list" where
  "page_items cfg e p =
     (case page_result cfg e p of
        Failure q msg \<Rightarrow> []
      | Success q r \<Rightarrow>
          (case load_and_parse r of
             Inl err \<Rightarrow> []
           | Inr parsed \<Rightarrow> map (\<lambda>it. set_prop it ''_source_page'' (JNum p)) parsed))"

definition page_failed :: "config \<Rightarrow> env \<Rightarrow> int \<Rightarrow> bool" where
  "page_failed cfg e p =
     (case page_result cfg e p of
        Failure q msg \<Rightarrow> True
      | Success q r \<Rightarrow> isl (load_and_parse r))"

text \<open>
  What the loop maintains at the start of the batch that begins at \<open>start\<close>: no page
  was dispatched twice, and every dispatched page lies before \<open>start\<close>.
\<close>

definition run_inv :: "int \<Rightarrow> run_state \<Rightarrow> bool" where
  "run_inv start st = (distinct (dispatched st) \<and> list_all (\<lambda>p. p < start) (dispatched st))"

text \<open>
  The values of \<open>start\<close> in the iterations of the loop, from one of them on, when the
  batch size is positive.
\<close>

function batch_starts :: "config \<Rightarrow> int \<Rightarrow> int list" where
  "batch_starts cfg start =
     (if 0 < BATCH_SIZE cfg \<and> start \<le> MAX_PAGES cfg
      then start # batch_starts cfg (start + BATCH_SIZE cfg) else [])"
  by pat_completeness auto
termination
  by (relation "measure (\<lambda>(cfg, start). nat (MAX_PAGES cfg + 1 - start))") auto

declare batch_starts.simps [simp del]

text \<open>
  What the batch that begins at \<open>start\<close> is expected to add to \<open>failedPages\<close> and to the
  calls of \<open>writeBatchFile\<close>, given the files found at the beginning of the run: nothing
  when its file exists; otherwise the pages that failed, followed by the other pages of
  the batch when the write throws, and one call with the records of the pages that did
  not fail.
\<close>

definition batch_failed ::
  "config \<Rightarrow> env \<Rightarrow> (int \<times> int \<Rightarrow> out_file option) \<Rightarrow> int \<Rightarrow> int list" where
  "batch_failed cfg e fs start =
     (if fileExistsNonEmpty fs (start, batch_end cfg start) then []
      else if write_error e (start, batch_end cfg start) = None
        then filter (page_failed cfg e) (batch_pages cfg start)
        else filter (page_failed cfg e) (batch_pages cfg start)
               @ filter (\<lambda>p. \<not> page_failed cfg e p) (batch_pages cfg start))"

definition batch_written ::
  "config \<Rightarrow> env \<Rightarrow> (int \<times> int \<Rightarrow> out_file option) \<Rightarrow> int
     \<Rightarrow> ((int \<times> int) \<times> jv list) list" where
  "batch_written cfg e fs start =
     (if fileExistsNonEmpty fs (start, batch_end cfg start) then []
      else [((start, batch_end cfg start),
             concat (map (page_items cfg e) (batch_pages cfg start)))])"



section \<open>The per-item detail run\<close>

text \<open>
  The environment of a run of the detail fetcher: what the HTTP client does for a URL
  (it throws, or returns the body and the URL the response came from, if known), the
  error it throws when called without a URL, the error thrown by the \<open>k\<close>-th write of
  the output file, if any, and the clock read while item \<open>i\<close> is processed.
\<close>

record detail_env =
  http_get :: "string \<Rightarrow> js_error + (js_error + node list) \<times> string option"
  null_url_error :: js_error
  append_error :: "nat \<Rightarrow> js_error option"
  clock :: "nat \<Rightarrow> string"

text \<open>
  \<open>fetchHtml(url)\<close>: every error of the client is rethrown as
  \<open>new Error(`Fetch failed: ${err.message || err}`)\<close>; the final URL is the response URL
  or, without one, the URL asked for.
\<close>

definition fetchHtml :: "detail_env \<Rightarrow> string option \<Rightarrow> js_error + response" where
  "fetchHtml e url =
     (case (case url of None \<Rightarrow> Inl (null_url_error e) | Some u \<Rightarrow> http_get e u) of
        Inl err \<Rightarrow>
          Inl (JsError (''Fetch failed: '' @ error_text err)
                       (''Error: Fetch failed: '' @ error_text err))
      | Inr (body, responseUrl) \<Rightarrow> Inr (Response body (or_empty (opt_or responseUrl url))))"

text \<open>
  The state of a run: the output file (\<open>None\<close> when it is missing or does not hold
  JSON text), its mirror \<open>outputArr\<close> in memory, and the number of writes made.
\<close>

record detail_state =
  output_file :: "jv option"
  outputArr :: "jv list"
  writes :: nat

text \<open>
  Writing the whole array: the write either throws, leaving the file as it is, or
  replaces the file; it is counted in both cases.  The second component is the error
  thrown, if any.
\<close>

definition write_output ::
  "detail_env \<Rightarrow> detail_state \<Rightarrow> jv list \<Rightarrow> detail_state \<times> js_error option" where
  "write_output e st arr =
     (case append_error e (writes st) of
        Some err \<Rightarrow> (st\<lparr>writes := Suc (writes st)\<rparr>, Some err)
      | None \<Rightarrow> (st\<lparr>output_file := Some (JArr arr), writes := Suc (writes st)\<rparr>, None))"

text \<open>
  \<open>ensureOutputFile()\<close>: a file that holds an array is kept and returned; any other
  file is replaced by the empty array, and an error of that write ends the run.
\<close>

definition ensureOutputFile :: "detail_env \<Rightarrow> jv option \<Rightarrow> js_error + detail_state" where
  "ensureOutputFile e f =
     (case f of
        Some (JArr arr) \<Rightarrow> Inr \<lparr>output_file = f, outputArr = arr, writes = 0\<rparr>
      | _ \<Rightarrow>
          (case write_output e \<lparr>output_file = f, outputArr = [], writes = 0\<rparr> [] of
             (st, Some err) \<Rightarrow> Inl err
           | (st, None) \<Rightarrow> Inr st))"

text \<open>
  \<open>appendToOutput(newObj)\<close>: the array read from the file (empty when the file does not
  hold one), with the new object pushed, is written back.
\<close>

definition appendToOutput ::
  "detail_env \<Rightarrow> detail_state \<Rightarrow> jv \<Rightarrow> detail_state \<times> js_error option" where
  "appendToOutput e st newObj =
     (let arr = (case output_file st of Some (JArr xs) \<Rightarrow> xs | _ \<Rightarrow> [])
      in write_output e st (arr @ [newObj]))"

text \<open>
  \<open>alreadyProcessed(outputArr, sourceUrl)\<close>, with \<open>sourceUrl\<close> a string or \<open>null\<close>.
\<close>

definition alreadyProcessed :: "jv list \<Rightarrow> string option \<Rightarrow> bool" where
  "alreadyProcessed arr sourceUrl =
     (if \<not> truthy_str sourceUrl then False
      else (let su = trim (or_empty sourceUrl)
            in list_ex (\<lambda>x. truthy x
                      \<and> (get_prop x ''source_url'' = JStr su
                          \<or> get_prop x ''source_url'' = JStr (normalizeUrl su))) arr))"

text \<open>
  \<open>item.source_url || item.source || item.href || item.link\<close> and
  \<open>src ? normalizeUrl(src) : null\<close>.  Reading a property of \<open>null\<close> throws, and so does
  \<open>normalizeUrl\<close> on a truthy value that is not a string, which has no \<open>startsWith\<close>;
  neither is inside a \<open>try\<close>.
\<close>

definition type_error :: "string \<Rightarrow> js_error" where
  "type_error msg = JsError msg (''TypeError: '' @ msg)"

definition item_source_url :: "jv \<Rightarrow> js_error + string option" where
  "item_source_url item =
     (if item = JNull \<or> item = JUndefined
      then Inl (type_error ''Cannot read properties of null'')
      else
       (let src = js_or (get_prop item ''source_url'')
                    (js_or (get_prop item ''source'')
                       (js_or (get_prop item ''href'') (get_prop item ''link'')))
        in if \<not> truthy src then Inr None
           else (case src of
                   JStr s \<Rightarrow> Inr (Some (normalizeUrl s))
                 | _ \<Rightarrow> Inl (type_error ''u.startsWith is not a function''))))"

text \<open>
  The \<open>try\<close> block for one item: fetch, parse, attach the original record, append,
  push to the mirror.  It gives the state it leaves and the error it throws, if any.
\<close>

definition try_item ::
  "detail_env \<Rightarrow> detail_state \<Rightarrow> nat \<Rightarrow> jv \<Rightarrow> string option
     \<Rightarrow> detail_state \<times> js_error option" where
  "try_item e st i item source_url =
     (case fetchHtml e source_url of
        Inl err \<Rightarrow> (st, Some err)
      | Inr r \<Rightarrow>
          (case html r of
             Inl err \<Rightarrow> (st, Some err)
           | Inr doc \<Rightarrow>
               (let pageUrl = (if finalUrl r \<noteq> [] then finalUrl r else or_empty source_url);
                    parsed = set_prop (parseBrandDetail_raw doc pageUrl (clock e i))
                               ''original_record''
                               (JObj [(''input_index'', JNum (int i)), (''brand_record'', item)])
                in (case appendToOutput e st parsed of
                      (st', Some err) \<Rightarrow> (st', Some err)
                    | (st', None) \<Rightarrow> (st'\<lparr>outputArr := outputArr st' @ [parsed]\<rparr>, None)))))"

text \<open>
  The body of the loop for item \<open>i\<close>.  An error of the \<open>try\<close> block is recorded as an
  error object; when that write throws too, nothing is recorded.  The left result is a
  throw outside the \<open>try\<close>, which ends the run.
\<close>

definition detail_step ::
  "detail_env \<Rightarrow> detail_state \<Rightarrow> nat \<Rightarrow> jv \<Rightarrow> js_error + detail_state" where
  "detail_step e st i item =
     (case item_source_url item of
        Inl err \<Rightarrow> Inl err
      | Inr source_url \<Rightarrow>
          (if alreadyProcessed (outputArr st) source_url then Inr st
           else
            (case try_item e st i item source_url of
               (st', None) \<Rightarrow> Inr st'
             | (st1, Some err) \<Rightarrow>
                 (let errObj = JObj [(''source_url'', jopt source_url),
                                     (''error'', JStr (error_text err)),
                                     (''fetched_at'', JStr (clock e i)),
                                     (''original_record'', item)]
                  in (case appendToOutput e st1 errObj of
                        (st2, Some writeErr) \<Rightarrow> Inr st2
                      | (st2, None) \<Rightarrow> Inr (st2\<lparr>outputArr := outputArr st2 @ [errObj]\<rparr>))))))"

text \<open>
  The loop over the input from index \<open>i\<close>: the final state, and the error that ended
  the run, if any.
\<close>

fun detail_loop ::
  "detail_env \<Rightarrow> detail_state \<Rightarrow> nat \<Rightarrow> jv list \<Rightarrow> detail_state \<times> js_error option" where
  "detail_loop e st i [] = (st, None)"
| "detail_loop e st i (item # items) =
     (case detail_step e st i item of
        Inl err \<Rightarrow> (st, Some err)
      | Inr st' \<Rightarrow> detail_loop e st' (Suc i) items)"

text \<open>
  A run of the detail fetcher on the input list and the output file it finds: the file
  it leaves, and the error that ended it, if any.
\<close>

definition detail_run :: "detail_env \<Rightarrow> jv list \<Rightarrow> jv option \<Rightarrow> jv option \<times> js_error option" where
  "detail_run e input f =
     (case ensureOutputFile e f of
        Inl err \<Rightarrow> (f, Some err)
      | Inr st \<Rightarrow>
          (case detail_loop e st 0 input of
             (st', crash) \<Rightarrow> (output_file st', crash)))"


section \<open>Example documents\<close>

definition span :: "string \<Rightarrow> string \<Rightarrow> node" where
  "span c t = Element ''span'' (if c = [] then [] else [(''class'', c)]) [TextNode t]"

definition package_container :: "node list \<Rightarrow> node" where
  "package_container ns = Element ''div'' [(''class'', ''package-container'')] ns"

definition packages_wrapper :: "node list \<Rightarrow> node list" where
  "packages_wrapper ns = [Element ''div'' [(''class'', ''packages-wrapper mt-5'')] ns]"

text \<open>
  Two packages, one listed twice: unit price and strip price with a pack size.
\<close>

definition doc_prices :: "node list" where
  "doc_prices =
     packages_wrapper
       [package_container [span [] ''Unit Price: '', span [] ''12.00'',
          span ''pack-size-info'' ''(10 x 10)''],
        package_container [span [] ''Strip Price:'', span [] ''120.00''],
        package_container [span [] ''Unit Price:'', span [] ''12.00'']]"

text \<open>Two different (label, price) pairs with the same key \<open>x||||y\<close>.\<close>

definition doc_same_key :: "node list" where
  "doc_same_key =
     packages_wrapper
       [package_container [span [] ''x||'', span [] ''y''],
        package_container [span [] ''x'', span [] ''||y'']]"

text \<open>A package whose value span is empty.\<close>

definition doc_no_price :: "node list" where
  "doc_no_price = packages_wrapper [package_container [span [] ''Unit Price:'', span [] []]]"

text \<open>
  A section whose body holds a list without items: the traversal finds nothing, the
  body has text.
\<close>

definition doc_loose_text :: "node list" where
  "doc_loose_text =
     [Element ''h3'' [(''id'', ''indications'')] [TextNode ''Indications''],
      Element ''div'' [(''class'', ''ac-body'')] [Element ''ul'' [] [TextNode '' loose  text '']]]"

definition body_loose_text :: el where
  "body_loose_text =
     ([1], Element ''div'' [(''class'', ''ac-body'')] [Element ''ul'' [] [TextNode '' loose  text '']])"

text \<open>
  A list whose two items each start with a bold node, the first with a nested list; a
  plain list; and a list whose only item has a bold node in the middle of its text.
\<close>

definition ul_bold_items :: el where
  "ul_bold_items =
     ([1, 1], Element ''ul'' []
        [Element ''li'' []
           [Element ''strong'' [] [TextNode ''Adults:''], TextNode '' one tablet '',
            Element ''ul'' [] [Element ''li'' [] [TextNode ''after meals''],
                               Element ''li'' [] [TextNode ''with water'']]],
         Element ''li'' [] [Element ''strong'' [] [TextNode ''Children:''],
                            TextNode '' half a tablet'']])"

definition ul_plain_items :: el where
  "ul_plain_items =
     ([1, 1], Element ''ul'' []
        [Element ''li'' [] [TextNode ''one tablet''],
         Element ''li'' [] [TextNode ''twice daily'']])"

definition li_bold_inside :: node where
  "li_bold_inside =
     Element ''li'' [] [TextNode ''Take '', Element ''strong'' [] [TextNode ''one''],
                        TextNode '' tablet'']"

definition doc_bold_inside :: "node list" where
  "doc_bold_inside =
     [Element ''h3'' [(''id'', ''dosage'')] [TextNode ''Dosage''],
      Element ''div'' [(''class'', ''ac-body'')]
        [Element ''strong'' [] [TextNode ''Adults''], Element ''ul'' [] [li_bold_inside]]]"

text \<open>A dosage body with a list of which only the first item has a bold child.\<close>

definition doc_mixed_list :: "node list" where
  "doc_mixed_list =
     [Element ''h3'' [(''id'', ''dosage'')] [TextNode ''Dosage''],
      Element ''div'' [(''class'', ''ac-body'')]
        [Element ''ul'' []
           [Element ''li'' [] [Element ''strong'' [] [TextNode ''Adults:''], TextNode '' one tablet''],
            Element ''li'' [] [TextNode ''after meals'']]]]"

text \<open>
  A MedEx listing page with one entry whose anchor has no \<open>href\<close>, and one whose
  \<open>href\<close> is a brand path; a listing page of the other site with one entry that has a
  medicine link and one that has none.
\<close>

definition medex_row :: "(string \<times> string) list \<Rightarrow> string \<Rightarrow> node" where
  "medex_row as nm =
     Element ''a'' ((''class'', ''hoverable-block'') # as)
       [Element ''div'' [(''class'', ''row data-row'')]
          [Element ''div'' [(''class'', ''col-xs-12 data-row-top'')] [TextNode nm],
           Element ''div'' [(''class'', ''col-xs-12 data-row-strength'')]
             [Element ''span'' [(''class'', ''grey-ligten'')] [TextNode ''500 mg'']],
           Element ''div'' [(''class'', ''col-xs-12'')] [TextNode ''Paracetamol''],
           Element ''div'' [(''class'', ''col-xs-12'')]
             [Element ''span'' [(''class'', ''data-row-company'')] [TextNode ''Beximco Ltd.'']]]]"

definition doc_medex_no_href :: "node list" where
  "doc_medex_no_href = [medex_row [] ''Napa'']"

definition doc_medex_listing :: "node list" where
  "doc_medex_listing = [medex_row [(''href'', ''/brands/11/napa'')] ''Napa'']"

text \<open>
  A listing with an anchor to a brand, an anchor whose path is not a brand path, and an
  anchor without a data row.
\<close>

definition doc_medex_paths :: "node list" where
  "doc_medex_paths =
     [medex_row [(''href'', ''/brands/11/napa'')] ''Napa'',
      medex_row [(''href'', ''/generics/7/ace'')] ''Ace'',
      Element ''a'' [(''class'', ''hoverable-block''), (''href'', ''/brands/12/x'')]
        [TextNode ''X'']]"

definition bissoy_li :: "string \<Rightarrow> string \<Rightarrow> node" where
  "bissoy_li href nm =
     Element ''li'' []
       [Element ''h3'' [(''class'', ''text-xl font-bold'')]
          [Element ''a'' [(''href'', href)] [TextNode nm]],
        Element ''div'' [] [Element ''p'' [] [TextNode ''500 mg''],
                            Element ''p'' [] [TextNode ''Paracetamol'']]]"

definition doc_bissoy_listing :: "node list" where
  "doc_bissoy_listing =
     [Element ''ul'' [(''class'', ''space-y-6'')]
        [bissoy_li ''/medicine/napa'' ''Napa | napa-bn'', bissoy_li ''/company/x'' ''Other'']]"

text \<open>
  A run over ten pages in two batches of five: the fetches of pages 2, 4 and 7 fail at
  every attempt, the others return a listing page with one entry.
\<close>

definition cfg_ten :: config where
  "cfg_ten = \<lparr>MAX_PAGES = 10, BATCH_SIZE = 5, MAX_RETRIES = 3\<rparr>"

definition env_three_fail :: env where
  "env_three_fail =
     \<lparr>network = (\<lambda>p k. if p = 2 \<or> p = 4 \<or> p = 7
                       then Inl (JsError ''timeout of 20000ms exceeded'' ''Error'')
                       else Inr (Response (Inr doc_medex_listing) ''https://medex.com.bd/brands'')),
      write_error = (\<lambda>name. None)\<rparr>"

definition napa_from :: "int \<Rightarrow> jv" where
  "napa_from p =
     JObj [(''name'', JStr ''Napa''), (''strength'', JStr ''500 mg''),
           (''generic'', JStr ''Paracetamol''), (''company'', JStr ''Beximco Ltd.''),
           (''medicine_type'', JNull),
           (''source_url'', JStr ''https://medex.com.bd/brands/11/napa''),
           (''_source_page'', JNum p)]"

text \<open>
  A brand page that holds only the heading, and a run of the detail fetcher in which
  the server answers the URL of the input item from another URL (a redirect).
\<close>

definition doc_brand_page :: "node list" where
  "doc_brand_page =
     [Element ''h1'' [(''class'', ''page-heading-1-l brand'')]
        [TextNode ''Napa '', Element ''small'' [(''class'', ''h1-subtitle'')] [TextNode ''Tablet'']]]"

definition env_redirect :: detail_env where
  "env_redirect =
     \<lparr>http_get = (\<lambda>u. if u = ''https://medex.com.bd/brands/11/napa''
                       then Inr (Inr doc_brand_page, Some ''https://medex.com.bd/brands/11/napa-500-mg'')
                       else Inl (JsError ''Request failed with status code 404'' ''AxiosError'')),
      null_url_error = JsError ''Invalid URL'' ''TypeError: Invalid URL'',
      append_error = (\<lambda>k. None),
      clock = (\<lambda>i. ''2025-01-01T00:00:00.000Z'')\<rparr>"

definition input_redirect :: "jv list" where
  "input_redirect =
     [JObj [(''name'', JStr ''Napa''), (''source_url'', JStr ''https://medex.com.bd/brands/11/napa'')]]"

text \<open>The \<open>source_url\<close> of each record of an output file.\<close>

definition stored_urls :: "jv option \<Rightarrow> jv list" where
  "stored_urls f =
     (case f of Some (JArr xs) \<Rightarrow> map (\<lambda>x. get_prop x ''source_url'') xs | _ \<Rightarrow> [])"

text \<open>An input item whose URL ends with a space; its fetch fails.\<close>

definition input_trailing_space :: "jv list" where
  "input_trailing_space =
     [JObj [(''name'', JStr ''Ace''), (''source_url'', JStr ''https://medex.com.bd/brands/12/ace '')]]"
section \<open>Properties of the URL normaliser\<close>

lemma startsWith_append: "startsWith (p @ s) p"
  by (simp add: startsWith_def)

lemma ORIGIN_http: "startsWith (ORIGIN @ s) ''http''"
  by (simp add: startsWith_def ORIGIN_def)

text \<open>
  Claim C9.  \<open>normalizeUrl\<close> is idempotent on every string, and a string that already
  starts with \<open>http\<close> is returned unchanged.
\<close>

theorem normalizeUrl_idempotent:
  "normalizeUrl (normalizeUrl u) = normalizeUrl u
   \<and> (startsWith u ''http'' \<longrightarrow> normalizeUrl u = u)"
proof -
  have fixed: "normalizeUrl (ORIGIN @ s) = ORIGIN @ s" for s
    by (simp add: normalizeUrl_def startsWith_def ORIGIN_def)
  have keep: "startsWith u ''http'' \<longrightarrow> normalizeUrl u = u"
    by (simp add: normalizeUrl_def)
  have "normalizeUrl (normalizeUrl u) = normalizeUrl u"
  proof (cases "u = [] \<or> startsWith u ''http''")
    case True
    then show ?thesis by (auto simp: normalizeUrl_def)
  next
    case False
    then have "normalizeUrl u = ORIGIN @ u \<or> normalizeUrl u = ORIGIN @ (''/'' @ u)"
      by (simp add: normalizeUrl_def)
    then show ?thesis using fixed by auto
  qed
  with keep show ?thesis by simp
qed

theorem normalizeUrl_idempotent_witness:
  "startsWith ''http://example.org/a'' ''http''
   \<and> normalizeUrl ''http://example.org/a'' = ''http://example.org/a''
   \<and> normalizeUrl (normalizeUrl ''brands/1'') = normalizeUrl ''brands/1''
   \<and> normalizeUrl ''brands/1'' = ''https://medex.com.bd/brands/1''"
  using normalizeUrl_idempotent [of "''http://example.org/a''"]
    normalizeUrl_idempotent [of "''brands/1''"]
  by (simp add: startsWith_def normalizeUrl_def ORIGIN_def)


section \<open>Properties of the fetch-retry unit\<close>

lemma fetch_loop_throw:
  "attempt < maxRetries \<Longrightarrow> net pg (attempt + 1) = Inl err \<Longrightarrow>
   fetch_loop net pg maxRetries attempt lastErr
     = fetch_loop net pg maxRetries (attempt + 1) (Some err)"
  by (simp add: fetch_loop.simps [of net pg maxRetries attempt])

lemma fetch_loop_return:
  "attempt < maxRetries \<Longrightarrow> net pg (attempt + 1) = Inr res \<Longrightarrow>
   fetch_loop net pg maxRetries attempt lastErr = (Success pg res, attempt + 1)"
  by (simp add: fetch_loop.simps [of net pg maxRetries attempt])

lemma fetch_loop_exit:
  "\<not> attempt < maxRetries \<Longrightarrow>
   fetch_loop net pg maxRetries attempt lastErr
     = (Failure pg (case lastErr of Some e \<Rightarrow> error_text e | None \<Rightarrow> ''unknown''), attempt)"
  by (simp add: fetch_loop.simps [of net pg maxRetries attempt])

lemma fetch_loop_attempts:
  "attempt \<le> maxRetries \<Longrightarrow> snd (fetch_loop net pg maxRetries attempt lastErr) \<le> maxRetries"
proof (induction net pg maxRetries attempt lastErr rule: fetch_loop.induct)
  case (1 net pg maxRetries attempt lastErr)
  show ?case
  proof (cases "attempt < maxRetries")
    case True
    show ?thesis
    proof (cases "net pg (attempt + 1)")
      case (Inl err)
      then show ?thesis
        using True "1.IH" [OF True Inl] by (simp add: fetch_loop_throw)
    next
      case (Inr res)
      then show ?thesis using True by (simp add: fetch_loop_return)
    qed
  next
    case False
    then show ?thesis using "1.prems" by (simp add: fetch_loop_exit)
  qed
qed

lemma fetch_loop_attempts_lower:
  "attempt \<le> snd (fetch_loop net pg maxRetries attempt lastErr)"
proof (induction net pg maxRetries attempt lastErr rule: fetch_loop.induct)
  case (1 net pg maxRetries attempt lastErr)
  show ?case
  proof (cases "attempt < maxRetries")
    case True
    show ?thesis
    proof (cases "net pg (attempt + 1)")
      case (Inl err)
      then show ?thesis
        using True "1.IH" [OF True Inl] by (simp add: fetch_loop_throw)
    next
      case (Inr res)
      then show ?thesis using True by (simp add: fetch_loop_return)
    qed
  next
    case False
    then show ?thesis by (simp add: fetch_loop_exit)
  qed
qed

lemma fetch_loop_all_fail:
  "attempt < maxRetries \<Longrightarrow> \<forall>k. attempt < k \<and> k \<le> maxRetries \<longrightarrow> isl (net pg k) \<Longrightarrow>
   fetch_loop net pg maxRetries attempt lastErr
     = (Failure pg (error_text (projl (net pg maxRetries))), maxRetries)"
proof (induction net pg maxRetries attempt lastErr rule: fetch_loop.induct)
  case (1 net pg maxRetries attempt lastErr)
  from "1.prems" have fail: "isl (net pg (attempt + 1))" by simp
  then obtain err where err: "net pg (attempt + 1) = Inl err"
    by (cases "net pg (attempt + 1)") auto
  have step: "fetch_loop net pg maxRetries attempt lastErr
                = fetch_loop net pg maxRetries (attempt + 1) (Some err)"
    using "1.prems"(1) err by (rule fetch_loop_throw)
  show ?case
  proof (cases "attempt + 1 < maxRetries")
    case True
    have "\<forall>k. attempt + 1 < k \<and> k \<le> maxRetries \<longrightarrow> isl (net pg k)"
      using "1.prems"(2) by auto
    then have "fetch_loop net pg maxRetries (attempt + 1) (Some err)
            = (Failure pg (error_text (projl (net pg maxRetries))), maxRetries)"
      using "1.IH" [OF "1.prems"(1) err True] by simp
    with step show ?thesis by simp
  next
    case False
    with "1.prems"(1) have eq: "attempt + 1 = maxRetries" by simp
    have "fetch_loop net pg maxRetries (attempt + 1) (Some err)
            = (Failure pg (error_text err), maxRetries)"
      using eq by (simp add: fetch_loop_exit)
    moreover have "projl (net pg maxRetries) = err"
      using err eq by simp
    ultimately show ?thesis using step by simp
  qed
qed

lemma fetch_loop_is_failure_or_success:
  "attempt \<le> maxRetries \<Longrightarrow>
   (case fst (fetch_loop net pg maxRetries attempt lastErr) of
      Success p res \<Rightarrow>
        p = pg \<and> net pg (snd (fetch_loop net pg maxRetries attempt lastErr)) = Inr res
    | Failure p msg \<Rightarrow>
        p = pg \<and> snd (fetch_loop net pg maxRetries attempt lastErr) = maxRetries)"
proof (induction net pg maxRetries attempt lastErr rule: fetch_loop.induct)
  case (1 net pg maxRetries attempt lastErr)
  show ?case
  proof (cases "attempt < maxRetries")
    case True
    show ?thesis
    proof (cases "net pg (attempt + 1)")
      case (Inl err)
      have step: "fetch_loop net pg maxRetries attempt lastErr
                    = fetch_loop net pg maxRetries (attempt + 1) (Some err)"
        using True Inl by (rule fetch_loop_throw)
      show ?thesis
        unfolding step using True "1.IH" [OF True Inl] by simp
    next
      case (Inr res)
      have step: "fetch_loop net pg maxRetries attempt lastErr = (Success pg res, attempt + 1)"
        using True Inr by (rule fetch_loop_return)
      show ?thesis unfolding step using Inr by simp
    qed
  next
    case False
    have step: "fetch_loop net pg maxRetries attempt lastErr
       = (Failure pg (case lastErr of Some e \<Rightarrow> error_text e | None \<Rightarrow> ''unknown''), attempt)"
      using False by (rule fetch_loop_exit)
    show ?thesis unfolding step using False "1.prems" by simp
  qed
qed

text \<open>
  Claim C2.  With \<open>maxAttempts \<ge> 1\<close>, \<open>fetchWithRetries\<close> makes at least one and at most
  \<open>maxAttempts\<close> calls of \<open>fetchPageRaw\<close>; it always returns a result object (the model
  is a total function whose only outcomes are \<open>Success\<close> and \<open>Failure\<close>: every throw of
  \<open>fetchPageRaw\<close> is caught in the loop), a success carrying the response of the attempt
  it stopped at and a failure only after \<open>maxAttempts\<close> attempts; and when every
  attempt throws, the result is the failure carrying the text of the error thrown by the
  last attempt.
\<close>

theorem fetchWithRetries_bounded:
  assumes "1 \<le> maxAttempts"
  shows "1 \<le> snd (fetchWithRetries net pg maxAttempts)
    \<and> snd (fetchWithRetries net pg maxAttempts) \<le> maxAttempts
    \<and> (case fst (fetchWithRetries net pg maxAttempts) of
          Success p res \<Rightarrow>
            p = pg \<and> net pg (snd (fetchWithRetries net pg maxAttempts)) = Inr res
        | Failure p msg \<Rightarrow>
            p = pg \<and> snd (fetchWithRetries net pg maxAttempts) = maxAttempts)
    \<and> ((\<forall>k. 1 \<le> k \<and> k \<le> maxAttempts \<longrightarrow> isl (net pg k)) \<longrightarrow>
          fetchWithRetries net pg maxAttempts
            = (Failure pg (error_text (projl (net pg maxAttempts))), maxAttempts))"
proof -
  have lower: "1 \<le> snd (fetchWithRetries net pg maxAttempts)"
  proof (cases "net pg 1")
    case (Inl err)
    have "0 + 1 \<le> snd (fetch_loop net pg maxAttempts (0 + 1) (Some err))"
      by (rule fetch_loop_attempts_lower)
    then show ?thesis
      using assms Inl fetch_loop_throw [of 0 maxAttempts net pg err None]
      by (simp add: fetchWithRetries_def)
  next
    case (Inr res)
    then show ?thesis
      using assms fetch_loop_return [of 0 maxAttempts net pg res None]
      by (simp add: fetchWithRetries_def)
  qed
  have upper: "snd (fetchWithRetries net pg maxAttempts) \<le> maxAttempts"
    unfolding fetchWithRetries_def using assms by (intro fetch_loop_attempts) simp
  have shape: "(case fst (fetchWithRetries net pg maxAttempts) of
          Success p res \<Rightarrow>
            p = pg \<and> net pg (snd (fetchWithRetries net pg maxAttempts)) = Inr res
        | Failure p msg \<Rightarrow>
            p = pg \<and> snd (fetchWithRetries net pg maxAttempts) = maxAttempts)"
    unfolding fetchWithRetries_def using assms
    by (intro fetch_loop_is_failure_or_success) simp
  have exhaust: "(\<forall>k. 1 \<le> k \<and> k \<le> maxAttempts \<longrightarrow> isl (net pg k)) \<longrightarrow>
          fetchWithRetries net pg maxAttempts
            = (Failure pg (error_text (projl (net pg maxAttempts))), maxAttempts)"
  proof
    assume all: "\<forall>k. 1 \<le> k \<and> k \<le> maxAttempts \<longrightarrow> isl (net pg k)"
    have "\<forall>k. 0 < k \<and> k \<le> maxAttempts \<longrightarrow> isl (net pg k)"
      using all by auto
    then show "fetchWithRetries net pg maxAttempts
            = (Failure pg (error_text (projl (net pg maxAttempts))), maxAttempts)"
      unfolding fetchWithRetries_def using assms
      by (intro fetch_loop_all_fail) auto
  qed
  from lower upper shape exhaust show ?thesis by blast
qed

theorem fetchWithRetries_bounded_witness:
  "(1::int) \<le> 3
   \<and> fetchWithRetries
         (\<lambda>p k. Inl (JsError (if k = 3 then ''timeout'' else ''reset'') ''Error'')
            :: js_error + string) 7 3
       = (Failure 7 ''timeout'', 3)"
  using fetchWithRetries_bounded
    [of 3 "\<lambda>p k. Inl (JsError (if k = 3 then ''timeout'' else ''reset'') ''Error'')
             :: js_error + string" 7]
  by (simp add: error_text_def)

text \<open>
  Claim C10.  With \<open>maxRetries \<le> 0\<close> the loop body is never entered: no fetch attempt is
  made and the result is the failure whose error is the literal \<open>unknown\<close>.
\<close>

theorem fetchWithRetries_no_budget:
  "maxRetries \<le> 0 \<Longrightarrow> fetchWithRetries net pg maxRetries = (Failure pg ''unknown'', 0)"
  by (simp add: fetchWithRetries_def fetch_loop_exit)

theorem fetchWithRetries_no_budget_witness:
  "(0::int) \<le> 0 \<and> (- 2::int) \<le> 0
   \<and> fetchWithRetries (\<lambda>p k. Inr ''page'') 7 0 = (Failure 7 ''unknown'', 0)
   \<and> fetchWithRetries (\<lambda>p k. Inr ''page'') 7 (- 2) = (Failure 7 ''unknown'', 0)"
  using fetchWithRetries_no_budget [of 0 "\<lambda>p k. Inr ''page''" 7]
    fetchWithRetries_no_budget [of "- 2" "\<lambda>p k. Inr ''page''" 7]
  by simp



section \<open>Properties of the whitespace normalisation\<close>

lemma tidy_collapse: "tidy prev (collapse_from prev s)"
  by (induction s arbitrary: prev) (auto simp: is_space_def)

lemma collapse_tidy: "tidy prev w \<Longrightarrow> collapse_from prev w = w"
  by (induction w arbitrary: prev) (auto split: if_splits)

lemma tidy_weaken: "tidy prev w \<Longrightarrow> tidy False w"
  by (cases w) (auto split: if_splits)

lemma tidy_dropWhile: "tidy prev w \<Longrightarrow> tidy False (dropWhile P w)"
proof (induction w arbitrary: prev)
  case Nil
  then show ?case by simp
next
  case (Cons c cs)
  have "tidy False cs \<or> tidy True cs" using Cons.prems by (auto split: if_splits)
  then have "tidy False (dropWhile P cs)" using Cons.IH by blast
  then show ?case using Cons.prems tidy_weaken [of prev "c # cs"] by simp
qed

lemma tidy_take: "tidy prev w \<Longrightarrow> tidy prev (take n w)"
proof (induction w arbitrary: prev n)
  case Nil
  then show ?case by simp
next
  case (Cons c cs)
  then show ?case by (cases n) (auto split: if_splits)
qed

lemma drop_trailing_take:
  "rev (dropWhile P (rev a)) = take (length a - length (takeWhile P (rev a))) a"
proof -
  have "rev (dropWhile P (rev a)) = rev (drop (length (takeWhile P (rev a))) (rev a))"
    by (simp add: dropWhile_eq_drop)
  also have "\<dots> = take (length a - length (takeWhile P (rev a))) a"
    by (simp add: rev_drop)
  finally show ?thesis .
qed

lemma tidy_trim: "tidy prev w \<Longrightarrow> tidy False (trim w)"
  unfolding trim_def drop_trailing_take
  by (intro tidy_take tidy_dropWhile)

lemma drop_trailing_Cons:
  "rev (dropWhile P (rev (x # xs))) =
     (if \<forall>y\<in>set xs. P y then (if P x then [] else [x]) else x # rev (dropWhile P (rev xs)))"
  by (auto simp: dropWhile_append)

lemma drop_trailing_head:
  "a = [] \<or> \<not> P (hd a) \<Longrightarrow> dropWhile P (rev (dropWhile P (rev a))) = rev (dropWhile P (rev a))"
proof (cases a)
  case Nil
  then show ?thesis by simp
next
  case (Cons x xs)
  assume "a = [] \<or> \<not> P (hd a)"
  then have "\<not> P x" using Cons by simp
  then show ?thesis unfolding Cons drop_trailing_Cons by simp
qed

lemma dropWhile_head: "dropWhile P w = [] \<or> \<not> P (hd (dropWhile P w))"
  by (metis hd_dropWhile)

lemma trim_idem: "trim (trim w) = trim w"
proof -
  let ?a = "dropWhile is_space w"
  let ?t = "rev (dropWhile is_space (rev ?a))"
  have "dropWhile is_space ?t = ?t"
    using dropWhile_head [of is_space w] by (rule drop_trailing_head)
  then show ?thesis by (simp add: trim_def)
qed

lemma squeeze_norm_ws: "squeeze (norm_ws x) = norm_ws x"
proof -
  have "tidy False (collapse_from False (replace_nbsp x))" by (rule tidy_collapse)
  then have "tidy False (norm_ws x)"
    unfolding norm_ws_def collapse_ws_def by (rule tidy_trim)
  then have "collapse_ws (norm_ws x) = norm_ws x"
    unfolding collapse_ws_def by (rule collapse_tidy)
  moreover have "trim (norm_ws x) = norm_ws x"
    unfolding norm_ws_def by (rule trim_idem)
  ultimately show ?thesis by (simp add: squeeze_def)
qed

lemma squeeze_li_rest: "squeeze (li_rest li) = li_rest li"
  by (simp add: li_rest_def squeeze_norm_ws)

lemma squeeze_li_child_instr:
  "filter (\<lambda>s. s \<noteq> []) (map squeeze (li_child_instr li)) = li_child_instr li"
proof -
  have "map squeeze (li_child_instr li) = li_child_instr li"
    unfolding li_child_instr_def
    by (rule map_idI) (auto simp: squeeze_norm_ws)
  moreover have "filter (\<lambda>s. s \<noteq> []) (li_child_instr li) = li_child_instr li"
    unfolding li_child_instr_def by simp
  ultimately show ?thesis by simp
qed

lemma normText_opt_or_null: "opt_or_null (normText s) = normText s"
  by (simp add: normText_def opt_or_null_def or_null_def)

text \<open>
  Normalising a string keeps its characters other than whitespace, so the normalised text
  is empty exactly when the text is made of whitespace only.
\<close>

lemma filter_dropWhile_neg:
  "filter (\<lambda>c. \<not> P c) (dropWhile P xs) = filter (\<lambda>c. \<not> P c) xs"
  by (induction xs) simp_all

lemma visible_trim: "filter (\<lambda>c. \<not> is_space c) (trim s) = filter (\<lambda>c. \<not> is_space c) s"
  by (simp add: trim_def rev_filter [symmetric] filter_dropWhile_neg)

lemma visible_collapse_from:
  "filter (\<lambda>c. \<not> is_space c) (collapse_from prev s) = filter (\<lambda>c. \<not> is_space c) s"
  by (induction s arbitrary: prev) (simp_all add: is_space_def)

lemma visible_replace_nbsp:
  "filter (\<lambda>c. \<not> is_space c) (replace_nbsp s) = filter (\<lambda>c. \<not> is_space c) s"
  by (induction s) (simp_all add: replace_nbsp_def is_space_def)

lemma visible_norm_ws: "filter (\<lambda>c. \<not> is_space c) (norm_ws s) = filter (\<lambda>c. \<not> is_space c) s"
  by (simp add: norm_ws_def collapse_ws_def visible_trim visible_collapse_from
      visible_replace_nbsp)

lemma trim_visible: "trim s \<noteq> [] \<Longrightarrow> \<exists>c\<in>set (trim s). \<not> is_space c"
proof -
  assume a: "trim s \<noteq> []"
  then have ne: "dropWhile is_space (rev (dropWhile is_space s)) \<noteq> []"
    by (simp add: trim_def)
  then have "\<not> is_space (hd (dropWhile is_space (rev (dropWhile is_space s))))"
    by (rule hd_dropWhile)
  moreover have "hd (dropWhile is_space (rev (dropWhile is_space s))) \<in> set (trim s)"
    using ne by (simp add: trim_def)
  ultimately show ?thesis by blast
qed

lemma norm_ws_visible: "norm_ws s \<noteq> [] \<longleftrightarrow> (\<exists>c\<in>set s. \<not> is_space c)"
proof
  assume "norm_ws s \<noteq> []"
  then have "\<exists>c\<in>set (norm_ws s). \<not> is_space c"
    unfolding norm_ws_def by (rule trim_visible)
  then have "filter (\<lambda>c. \<not> is_space c) (norm_ws s) \<noteq> []"
    by (simp add: filter_empty_conv)
  then show "\<exists>c\<in>set s. \<not> is_space c"
    by (simp add: visible_norm_ws filter_empty_conv)
next
  assume "\<exists>c\<in>set s. \<not> is_space c"
  then have "filter (\<lambda>c. \<not> is_space c) (norm_ws s) \<noteq> []"
    by (simp add: visible_norm_ws filter_empty_conv)
  then show "norm_ws s \<noteq> []" by auto
qed

lemma normText_visible:
  "normText [e] \<noteq> None \<longleftrightarrow> (\<exists>c\<in>set (sel_text [e]). \<not> is_space c)"
  using norm_ws_visible [of "sel_text [e]"] by (auto simp: normText_def or_null_def)



section \<open>Properties of the pricing extraction\<close>

lemma opt_or_null_truthy: "truthy_str x \<Longrightarrow> opt_or_null x = x"
  by (cases x) (auto simp: truthy_str_def opt_or_null_def or_null_def)

lemma opt_or_null_falsy: "\<not> truthy_str x \<Longrightarrow> opt_or_null x = None"
  by (cases x) (auto simp: truthy_str_def opt_or_null_def or_null_def)

lemma opt_or_null_idem: "opt_or_null (opt_or_null x) = opt_or_null x"
  by (cases x) (auto simp: opt_or_null_def or_null_def)

lemma truthy_opt_or_null: "truthy_str (opt_or_null x) = truthy_str x"
  by (cases x) (auto simp: truthy_str_def opt_or_null_def or_null_def)

lemma upt_Suc_shift: "[0..<Suc n] = 0 # map Suc [0..<n]"
  by (simp add: upt_conv_Cons map_Suc_upt del: upt_Suc)

lemma filter_upt_Suc:
  "filter Q [0..<Suc n] = (if Q 0 then [0] else []) @ map Suc (filter (\<lambda>i. Q (Suc i)) [0..<n])"
  by (simp add: upt_Suc_shift filter_map comp_def del: upt_Suc)

lemma dedupe_packages_filter:
  "dedupe_packages seen ps =
     map (\<lambda>i. ps ! i)
       (filter (\<lambda>i. pk_key (ps ! i) \<notin> set seen \<union> pk_key ` set (take i ps)) [0..<length ps])"
proof (induction ps arbitrary: seen)
  case Nil
  then show ?case by simp
next
  case (Cons p ps)
  show ?case
  proof (cases "pk_key p \<in> set seen")
    case True
    have "(\<lambda>i. pk_key (ps ! i) \<notin> set seen \<and> pk_key (ps ! i) \<noteq> pk_key p
              \<and> pk_key (ps ! i) \<notin> pk_key ` set (take i ps))
          = (\<lambda>i. pk_key (ps ! i) \<notin> set seen \<and> pk_key (ps ! i) \<notin> pk_key ` set (take i ps))"
      using True by (auto simp: fun_eq_iff)
    then show ?thesis
      using True Cons.IH [of seen]
      by (simp add: filter_upt_Suc comp_def del: upt_Suc)
  next
    case False
    then show ?thesis
      using Cons.IH [of "pk_key p # seen"]
      by (simp add: filter_upt_Suc comp_def conj_left_commute del: upt_Suc)
  qed
qed

lemma takeWhile_until:
  "c \<notin> set a \<Longrightarrow> takeWhile (\<lambda>x. x \<noteq> c) (a @ c # r) = a"
  by (induction a) auto

lemma append_bar_inj:
  assumes "CHR ''|'' \<notin> set a" "CHR ''|'' \<notin> set c" "a @ ''||'' @ b = c @ ''||'' @ d"
  shows "a = c \<and> b = d"
proof -
  have "takeWhile (\<lambda>x. x \<noteq> CHR ''|'') (a @ ''||'' @ b) = a"
    using assms(1) by (simp add: takeWhile_until)
  moreover have "takeWhile (\<lambda>x. x \<noteq> CHR ''|'') (c @ ''||'' @ d) = c"
    using assms(2) by (simp add: takeWhile_until)
  ultimately have "a = c" using assms(3) by simp
  with assms(3) show ?thesis by simp
qed

lemma pk_key_exact:
  assumes "CHR ''|'' \<notin> set (or_empty (pk_label p))" "CHR ''|'' \<notin> set (or_empty (pk_label q))"
    and "pk_label p \<noteq> Some []" "pk_price p \<noteq> Some []"
    and "pk_label q \<noteq> Some []" "pk_price q \<noteq> Some []"
  shows "pk_key p = pk_key q \<longleftrightarrow> pk_label p = pk_label q \<and> pk_price p = pk_price q"
proof
  assume "pk_key p = pk_key q"
  then have "or_empty (pk_label p) = or_empty (pk_label q) \<and> or_empty (pk_price p) = or_empty (pk_price q)"
    unfolding pk_key_def using assms(1,2) by (intro append_bar_inj) auto
  then show "pk_label p = pk_label q \<and> pk_price p = pk_price q"
    using assms(3-6) by (auto simp: or_empty_def split: option.splits)
next
  assume "pk_label p = pk_label q \<and> pk_price p = pk_price q"
  then show "pk_key p = pk_key q" by (simp add: pk_key_def)
qed

lemma opt_or_null_not_empty: "opt_or_null x \<noteq> Some []"
  by (cases x) (auto simp: opt_or_null_def or_null_def)

lemma package_entries_of_fields:
  "p \<in> set (package_entries_of pc) \<Longrightarrow>
     pk_label p \<noteq> Some [] \<and> pk_price p \<noteq> Some []"
  by (auto simp: package_entries_of_def Let_def label_of_def price_of_def opt_or_null_not_empty
      split: if_splits)

lemma packageEntries_fields:
  "p \<in> set (packageEntries doc) \<Longrightarrow> pk_label p \<noteq> Some [] \<and> pk_price p \<noteq> Some []"
  unfolding packageEntries_def using package_entries_of_fields by auto

lemma resolve_loop:
  "foldl resolve_step (u, s, i) ps = (u', s', i') \<Longrightarrow>
   opt_or_null u' =
     (if truthy_str u then u
      else (case List.find (\<lambda>p. contains_ci (or_empty (pk_label p)) ''unit price''
                \<and> truthy_str (pk_price p)) ps of
              Some p \<Rightarrow> pk_price p | None \<Rightarrow> None))
   \<and> opt_or_null s' =
     (if truthy_str s then s
      else (case List.find (\<lambda>p. contains_ci (or_empty (pk_label p)) ''strip price''
                \<and> truthy_str (pk_price p)) ps of
              Some p \<Rightarrow> pk_price p | None \<Rightarrow> None))
   \<and> opt_or_null i' =
     (if truthy_str i then i
      else (case List.find (\<lambda>p. truthy_str (pk_info p)) ps of
              Some p \<Rightarrow> pk_info p | None \<Rightarrow> None))"
proof (induction ps arbitrary: u s i)
  case Nil
  then show ?case by (auto simp: opt_or_null_truthy opt_or_null_falsy)
next
  case (Cons p ps)
  obtain u1 s1 i1 where step: "resolve_step (u, s, i) p = (u1, s1, i1)"
    by (cases "resolve_step (u, s, i) p") auto
  from Cons.prems step have "foldl resolve_step (u1, s1, i1) ps = (u', s', i')" by simp
  note IH = Cons.IH [OF this]
  from step have u1: "u1 = (if \<not> truthy_str u \<and> contains_ci (or_empty (pk_label p)) ''unit price''
      then pk_price p else u)"
    and s1: "s1 = (if \<not> truthy_str s \<and> contains_ci (or_empty (pk_label p)) ''strip price''
      then pk_price p else s)"
    and i1: "i1 = (if \<not> truthy_str i \<and> truthy_str (pk_info p) then pk_info p else i)"
    by auto
  have A: "opt_or_null u' =
     (if truthy_str u then u
      else (case List.find (\<lambda>p. contains_ci (or_empty (pk_label p)) ''unit price''
                \<and> truthy_str (pk_price p)) (p # ps) of
              Some p \<Rightarrow> pk_price p | None \<Rightarrow> None))"
    using IH u1 by (auto simp: opt_or_null_truthy)
  have B: "opt_or_null s' =
     (if truthy_str s then s
      else (case List.find (\<lambda>p. contains_ci (or_empty (pk_label p)) ''strip price''
                \<and> truthy_str (pk_price p)) (p # ps) of
              Some p \<Rightarrow> pk_price p | None \<Rightarrow> None))"
    using IH s1 by (auto simp: opt_or_null_truthy)
  have C: "opt_or_null i' =
     (if truthy_str i then i
      else (case List.find (\<lambda>p. truthy_str (pk_info p)) (p # ps) of
              Some p \<Rightarrow> pk_info p | None \<Rightarrow> None))"
    using IH i1 by (auto simp: opt_or_null_truthy)
  from A B C show ?case by blast
qed


lemma dedupe_subset: "set (dedupe_packages seen ps) \<subseteq> set ps"
  by (induction ps arbitrary: seen) auto

lemma truthy_str_entries:
  "p \<in> set (packageEntries doc) \<Longrightarrow> truthy_str (pk_price p) = (pk_price p \<noteq> None)"
  using packageEntries_fields [of p doc] by (cases "pk_price p") (auto simp: truthy_str_def)

lemma find_cong_set:
  "(\<And>x. x \<in> set xs \<Longrightarrow> P x = Q x) \<Longrightarrow> List.find P xs = List.find Q xs"
  by (induction xs) auto

text \<open>
  Claim C6, as the code has it.  The discovered triples are deduplicated by the key
  \<open>(label || "") + "||" + (price || "")\<close>: an entry is kept exactly when no earlier entry
  has its key, so the kept entries are in first-seen order; this is exact (label, price)
  match as soon as no label contains the character \<open>|\<close>.  \<open>unit_price\<close> is the price
  of the first kept entry whose label contains \<open>unit price\<close>, in any case of the letters,
  and whose price is not \<open>null\<close>, and \<open>strip_price\<close> likewise for \<open>strip price\<close>;
  \<open>pack_size_info\<close> is the first pack size information that is present.  When no
  labelled entry gives a unit price, \<open>unit_price\<close> is the price of the first kept entry;
  so \<open>unit_price\<close> is not \<open>null\<close> whenever the first kept entry has a price.
\<close>

theorem pricing_resolution:
  "(let es = packageEntries doc; ps = dedupe_packages [] es in
      ps = map (\<lambda>i. es ! i)
             (filter (\<lambda>i. pk_key (es ! i) \<notin> pk_key ` set (take i es)) [0..<length es])
    \<and> ((\<forall>p\<in>set es. CHR ''|'' \<notin> set (or_empty (pk_label p))) \<longrightarrow>
         (\<forall>p\<in>set es. \<forall>q\<in>set es.
            (pk_key p = pk_key q) = (pk_label p = pk_label q \<and> pk_price p = pk_price q)))
    \<and> pricing doc =
        JObj [(''unit_price'',
                jopt (case List.find (\<lambda>p. contains_ci (or_empty (pk_label p)) ''unit price''
                                    \<and> pk_price p \<noteq> None) ps of
                        Some p \<Rightarrow> pk_price p
                      | None \<Rightarrow> (case ps of [] \<Rightarrow> None | p # rest \<Rightarrow> pk_price p))),
              (''strip_price'',
                jopt (case List.find (\<lambda>p. contains_ci (or_empty (pk_label p)) ''strip price''
                                    \<and> pk_price p \<noteq> None) ps of
                        Some p \<Rightarrow> pk_price p | None \<Rightarrow> None)),
              (''pack_size_info'',
                jopt (case List.find (\<lambda>p. truthy_str (pk_info p)) ps of
                        Some p \<Rightarrow> pk_info p | None \<Rightarrow> None)),
              (''packages'', JArr (map package_obj ps))]
    \<and> (ps \<noteq> [] \<and> pk_price (hd ps) \<noteq> None \<longrightarrow> get_prop (pricing doc) ''unit_price'' \<noteq> JNull))"
proof -
  define es where "es = packageEntries doc"
  define ps where "ps = dedupe_packages [] es"
  define U where "U = (case List.find (\<lambda>p. contains_ci (or_empty (pk_label p)) ''unit price''
                                    \<and> pk_price p \<noteq> None) ps of
                        Some p \<Rightarrow> pk_price p
                      | None \<Rightarrow> (case ps of [] \<Rightarrow> None | p # rest \<Rightarrow> pk_price p))"
  define S where "S = (case List.find (\<lambda>p. contains_ci (or_empty (pk_label p)) ''strip price''
                                    \<and> pk_price p \<noteq> None) ps of
                        Some p \<Rightarrow> pk_price p | None \<Rightarrow> None)"
  define I where "I = (case List.find (\<lambda>p. truthy_str (pk_info p)) ps of
                        Some p \<Rightarrow> pk_info p | None \<Rightarrow> None)"
  have sub: "set ps \<subseteq> set es" unfolding ps_def by (rule dedupe_subset)
  have tr: "truthy_str (pk_price p) = (pk_price p \<noteq> None)" if "p \<in> set ps" for p
    using that sub truthy_str_entries [of p doc] by (auto simp: es_def)
  have ne: "pk_price p \<noteq> Some []" if "p \<in> set ps" for p
    using that sub packageEntries_fields [of p doc] by (auto simp: es_def)
  have first: "ps = map (\<lambda>i. es ! i)
             (filter (\<lambda>i. pk_key (es ! i) \<notin> pk_key ` set (take i es)) [0..<length es])"
    unfolding ps_def using dedupe_packages_filter [of "[]" es] by simp
  have exact: "(\<forall>p\<in>set es. CHR ''|'' \<notin> set (or_empty (pk_label p))) \<longrightarrow>
         (\<forall>p\<in>set es. \<forall>q\<in>set es.
            (pk_key p = pk_key q) = (pk_label p = pk_label q \<and> pk_price p = pk_price q))"
  proof (intro impI ballI)
    fix p q
    assume bar: "\<forall>p\<in>set es. CHR ''|'' \<notin> set (or_empty (pk_label p))"
      and p: "p \<in> set es" and q: "q \<in> set es"
    show "(pk_key p = pk_key q) = (pk_label p = pk_label q \<and> pk_price p = pk_price q)"
      using bar p q packageEntries_fields [of p doc] packageEntries_fields [of q doc]
      by (intro pk_key_exact) (auto simp: es_def)
  qed
  obtain u s i where loop: "foldl resolve_step (None, None, None) ps = (u, s, i)"
    by (cases "foldl resolve_step (None, None, None) ps") auto
  note R = resolve_loop [OF loop]
  have fu: "List.find (\<lambda>p. contains_ci (or_empty (pk_label p)) ''unit price''
                \<and> truthy_str (pk_price p)) ps
          = List.find (\<lambda>p. contains_ci (or_empty (pk_label p)) ''unit price''
                \<and> pk_price p \<noteq> None) ps"
    by (rule find_cong_set) (simp add: tr)
  have fs: "List.find (\<lambda>p. contains_ci (or_empty (pk_label p)) ''strip price''
                \<and> truthy_str (pk_price p)) ps
          = List.find (\<lambda>p. contains_ci (or_empty (pk_label p)) ''strip price''
                \<and> pk_price p \<noteq> None) ps"
    by (rule find_cong_set) (simp add: tr)
  have s_eq: "opt_or_null s = S"
    using R fs by (simp add: S_def truthy_str_def)
  have i_eq: "opt_or_null i = I"
    using R by (simp add: I_def truthy_str_def)
  have u_loop: "opt_or_null u = (case List.find (\<lambda>p. contains_ci (or_empty (pk_label p)) ''unit price''
                                    \<and> pk_price p \<noteq> None) ps of
                        Some p \<Rightarrow> pk_price p | None \<Rightarrow> None)"
    using R fu by (simp add: truthy_str_def)
  have u_eq: "opt_or_null (if \<not> truthy_str u \<and> 0 < length ps
                  then opt_or_null (pk_price (ps ! 0)) else u) = U"
  proof (cases "List.find (\<lambda>p. contains_ci (or_empty (pk_label p)) ''unit price''
                                    \<and> pk_price p \<noteq> None) ps")
    case None
    then have "opt_or_null u = None" using u_loop by simp
    then have nt: "\<not> truthy_str u"
      by (cases u) (auto simp: truthy_str_def opt_or_null_def or_null_def split: if_splits)
    show ?thesis
    proof (cases ps)
      case Nil
      then show ?thesis using None nt by (simp add: U_def opt_or_null_falsy)
    next
      case (Cons p rest)
      then have "pk_price p \<noteq> Some []" using ne [of p] by simp
      then have "opt_or_null (pk_price p) = pk_price p"
        by (cases "pk_price p") (auto simp: opt_or_null_def or_null_def)
      then show ?thesis using None nt Cons by (simp add: U_def opt_or_null_idem)
    qed
  next
    case (Some p)
    then have eq: "opt_or_null u = pk_price p" using u_loop by simp
    from Some have "pk_price p \<noteq> None" by (auto dest: find_Some_iff [THEN iffD1])
    then have "truthy_str u"
      using eq by (cases u) (auto simp: truthy_str_def opt_or_null_def or_null_def split: if_splits)
    then show ?thesis using Some eq by (simp add: U_def)
  qed
  have i_def': "opt_or_null (if \<not> truthy_str i \<and> 0 < length ps
                  then opt_or_null (pk_info (ps ! 0)) else i) = I"
  proof (cases "truthy_str i")
    case True
    then show ?thesis using i_eq by simp
  next
    case False
    then have none: "I = None" using i_eq by (simp add: opt_or_null_falsy)
    show ?thesis
    proof (cases ps)
      case Nil
      then show ?thesis using False none by (simp add: opt_or_null_falsy)
    next
      case (Cons p rest)
      have "List.find (\<lambda>p. truthy_str (pk_info p)) ps = None"
      proof (cases "List.find (\<lambda>p. truthy_str (pk_info p)) ps")
        case None
        then show ?thesis .
      next
        case (Some q)
        then have "truthy_str (pk_info q)" by (auto simp: find_Some_iff)
        then have "pk_info q \<noteq> None" by (cases "pk_info q") (auto simp: truthy_str_def)
        with Some none show ?thesis by (simp add: I_def)
      qed
      then have "\<not> truthy_str (pk_info p)"
        using Cons by (auto simp: find_None_iff)
      then have "opt_or_null (pk_info p) = None" by (rule opt_or_null_falsy)
      moreover have "opt_or_null None = None" by (simp add: opt_or_null_def)
      ultimately show ?thesis using False none Cons by simp
    qed
  qed
  have obj: "pricing doc =
        JObj [(''unit_price'', jopt U), (''strip_price'', jopt S),
              (''pack_size_info'', jopt I), (''packages'', JArr (map package_obj ps))]"
    using loop u_eq s_eq i_def'
    by (simp add: pricing_def pricing_of_def resolve_prices_def es_def [symmetric]
        ps_def [symmetric])
  have nonnull: "ps \<noteq> [] \<and> pk_price (hd ps) \<noteq> None \<longrightarrow> get_prop (pricing doc) ''unit_price'' \<noteq> JNull"
  proof
    assume a: "ps \<noteq> [] \<and> pk_price (hd ps) \<noteq> None"
    then obtain p rest where ps: "ps = p # rest" by (cases ps) auto
    have "U \<noteq> None"
    proof (cases "List.find (\<lambda>p. contains_ci (or_empty (pk_label p)) ''unit price''
                                    \<and> pk_price p \<noteq> None) ps")
      case None
      then show ?thesis using a ps by (simp add: U_def)
    next
      case (Some q)
      then have "pk_price q \<noteq> None" by (auto dest: find_Some_iff [THEN iffD1])
      then show ?thesis using Some by (simp add: U_def)
    qed
    then show "get_prop (pricing doc) ''unit_price'' \<noteq> JNull"
      by (cases U) (simp_all add: obj get_prop_def jopt_def)
  qed
  from first exact obj nonnull show ?thesis
    unfolding Let_def es_def [symmetric] ps_def [symmetric] U_def S_def I_def by blast
qed


theorem pricing_resolution_witness:
  "dedupe_packages [] (packageEntries doc_prices)
     = [Package (Some ''Unit Price'') (Some ''12.00'') (Some ''(10 x 10)''),
        Package (Some ''Strip Price'') (Some ''120.00'') None]
   \<and> list_all (\<lambda>p. CHR ''|'' \<notin> set (or_empty (pk_label p))) (packageEntries doc_prices)
   \<and> get_prop (pricing doc_prices) ''unit_price'' = JStr ''12.00''
   \<and> get_prop (pricing doc_prices) ''strip_price'' = JStr ''120.00''
   \<and> get_prop (pricing doc_prices) ''pack_size_info'' = JStr ''(10 x 10)''"
proof -
  have ev: "dedupe_packages [] (packageEntries doc_prices)
     = [Package (Some ''Unit Price'') (Some ''12.00'') (Some ''(10 x 10)''),
        Package (Some ''Strip Price'') (Some ''120.00'') None]"
    "list_all (\<lambda>p. CHR ''|'' \<notin> set (or_empty (pk_label p))) (packageEntries doc_prices)"
    by code_simp+
  have m: "contains_ci ''Unit Price'' ''unit price''" "\<not> contains_ci ''Strip Price'' ''unit price''"
    "contains_ci ''Strip Price'' ''strip price''" "\<not> contains_ci ''Unit Price'' ''strip price''"
    by code_simp+
  show ?thesis
    using pricing_resolution [of doc_prices] ev m
    by (simp add: Let_def get_prop_def jopt_def or_empty_def truthy_str_def)
qed

text \<open>
  Claim C6 as stated fails in two ways.  In \<open>doc_same_key\<close> the two entries differ in
  label and in price but have the same key, and the second is dropped.  In
  \<open>doc_no_price\<close> a package entry is found and \<open>unit_price\<close>, \<open>strip_price\<close> and
  \<open>pack_size_info\<close> are all \<open>null\<close>, because the first entry has no price.
\<close>

theorem pricing_counterexample:
  "packageEntries doc_same_key
     = [Package (Some ''x||'') (Some ''y'') None, Package (Some ''x'') (Some ''||y'') None]
   \<and> get_prop (pricing doc_same_key) ''packages''
     = JArr [JObj [(''label'', JStr ''x||''), (''price'', JStr ''y''), (''pack_size_info'', JNull)]]
   \<and> pricing doc_no_price
     = JObj [(''unit_price'', JNull), (''strip_price'', JNull), (''pack_size_info'', JNull),
             (''packages'',
               JArr [JObj [(''label'', JStr ''Unit Price''), (''price'', JNull),
                           (''pack_size_info'', JNull)]])]"
  by code_simp



section \<open>Properties of the section parser\<close>

lemma get_prop_section_group [simp]:
  "get_prop (section_group t i xs) ''title'' = jopt t"
  "get_prop (section_group t i xs) ''information'' = jopt i"
  "get_prop (section_group t i xs) ''items'' = jstrs xs"
  by (simp_all add: get_prop_def section_group_def)

lemma jopt_JNull [simp]: "(jopt x = JNull) = (x = None)"
  by (cases x) (simp_all add: jopt_def)

lemma jstrs_empty [simp]: "(jstrs xs = JArr []) = (xs = [])"
  by (simp add: jstrs_def)

lemma or_null_None [simp]: "(or_null s = None) = (s = [])"
  by (simp add: or_null_def)

lemma opt_or_null_None: "(opt_or_null x = None) = (x = None \<or> x = Some [])"
  by (cases x) (simp_all add: opt_or_null_def)

lemma flushCurrent_inv: "section_inv st \<Longrightarrow> section_inv (flushCurrent st)"
  by (cases st) (auto simp: section_inv_def Let_def nonempty_group_def opt_or_null_None list_all_iff)

lemma section_node_inv: "section_inv st \<Longrightarrow> section_inv (section_node st nd)"
proof -
  assume inv: "section_inv st"
  obtain out t infos items where st: "st = (out, t, infos, items)" by (cases st) auto
  show ?thesis
  proof (cases "node_type (snd nd) = ''tag'' \<and> tagName (snd nd) = ''strong''")
    case True
    obtain out' t' infos' items' where fl: "flushCurrent (out, t, infos, items) = (out', t', infos', items')"
      by (cases "flushCurrent (out, t, infos, items)") auto
    have "section_inv (out', t', infos', items')"
      using flushCurrent_inv [OF inv [unfolded st]] fl by simp
    then have "section_inv (out', opt_or_null (normText [nd]), infos', items')"
      by (simp add: section_inv_def opt_or_null_not_empty)
    moreover have "section_node st nd = (out', opt_or_null (normText [nd]), infos', items')"
      using True fl st by simp
    ultimately show ?thesis by simp
  next
    case False
    then show ?thesis
      using inv st by (auto simp: section_inv_def Let_def)
  qed
qed

lemma section_foldl_inv: "section_inv st \<Longrightarrow> section_inv (foldl section_node st nds)"
  by (induction nds arbitrary: st) (simp_all add: section_node_inv)

lemma section_walk_groups: "g \<in> set (section_walk body) \<Longrightarrow> nonempty_group g"
proof -
  have "section_inv ([], None, [], [])" by (simp add: section_inv_def)
  then have "section_inv (flushCurrent (foldl section_node ([], None, [], []) (child_nodes body)))"
    by (intro flushCurrent_inv section_foldl_inv)
  then show "g \<in> set (section_walk body) \<Longrightarrow> nonempty_group g"
    unfolding section_walk_def section_inv_def by (auto simp: list_all_iff split: prod.splits)
qed

lemma normText_opt: "opt_or_null (normText s) = normText s"
  by (simp add: normText_def opt_or_null_def or_null_def)

text \<open>
  Claim C4.  A flush emits a group only if the accumulated title is not \<open>null\<close>, or the
  accumulated prose or the accumulated items are not empty; every group the parser returns
  therefore carries a title, prose or an item.  When the traversal gives no group and the
  normalised text of the body is not empty, the result is exactly the fallback group:
  \<open>null\<close> title, that text as information, no items.  So a section body whose text has
  a character other than whitespace always yields at least one group.
\<close>

theorem section_parser_complete:
  "(fst (flushCurrent (out, currTitle, currInfos, currItems)) \<noteq> out \<longrightarrow>
      currTitle \<noteq> None \<or> norm_ws (join_sp currInfos) \<noteq> []
      \<or> filter (\<lambda>s. s \<noteq> []) (map norm_ws currItems) \<noteq> [])
   \<and> (\<forall>g\<in>set (parse_section_body body). nonempty_group g)
   \<and> (section_walk body = [] \<and> normText [body] = Some full \<longrightarrow>
        parse_section_body body = [section_group None (Some full) []])
   \<and> ((\<exists>c\<in>set (sel_text [body]). \<not> is_space c) \<longrightarrow> parse_section_body body \<noteq> [])
   \<and> (section_body doc sectionId = body # rest \<longrightarrow>
        parseSectionToStructuredArray doc sectionId = parse_section_body body)"
proof -
  have flush: "fst (flushCurrent (out, currTitle, currInfos, currItems)) \<noteq> out \<longrightarrow>
      currTitle \<noteq> None \<or> norm_ws (join_sp currInfos) \<noteq> []
      \<or> filter (\<lambda>s. s \<noteq> []) (map norm_ws currItems) \<noteq> []"
    by (auto simp: Let_def)
  have groups: "\<forall>g\<in>set (parse_section_body body). nonempty_group g"
  proof
    fix g assume g: "g \<in> set (parse_section_body body)"
    show "nonempty_group g"
    proof (cases "section_walk body = []")
      case True
      then show ?thesis
        using g by (auto simp: parse_section_body_def normText_opt nonempty_group_def
            split: option.splits)
    next
      case False
      then have "parse_section_body body = section_walk body"
        by (simp add: parse_section_body_def)
      then show ?thesis using g section_walk_groups by simp
    qed
  qed
  have fallback: "section_walk body = [] \<and> normText [body] = Some full \<longrightarrow>
        parse_section_body body = [section_group None (Some full) []]"
  proof
    assume a: "section_walk body = [] \<and> normText [body] = Some full"
    then have "opt_or_null (normText [body]) = Some full"
      using normText_opt [of "[body]"] by simp
    then show "parse_section_body body = [section_group None (Some full) []]"
      using a by (simp add: parse_section_body_def)
  qed
  have "normText [body] \<noteq> None \<longrightarrow> parse_section_body body \<noteq> []"
    by (auto simp: parse_section_body_def normText_opt Let_def split: option.splits)
  then have some: "(\<exists>c\<in>set (sel_text [body]). \<not> is_space c) \<longrightarrow> parse_section_body body \<noteq> []"
    using normText_visible [of body] by blast
  have located: "section_body doc sectionId = body # rest \<longrightarrow>
        parseSectionToStructuredArray doc sectionId = parse_section_body body"
    by (simp add: parseSectionToStructuredArray_def)
  from flush groups fallback some located show ?thesis by blast
qed

theorem section_parser_complete_witness:
  "section_body doc_loose_text ''indications'' = [body_loose_text]
   \<and> section_walk body_loose_text = []
   \<and> normText [body_loose_text] = Some ''loose text''
   \<and> CHR ''l'' \<in> set (sel_text [body_loose_text]) \<and> \<not> is_space (CHR ''l'')
   \<and> parse_section_body body_loose_text \<noteq> []
   \<and> parseSectionToStructuredArray doc_loose_text ''indications''
       = [section_group None (Some ''loose text'') []]
   \<and> fst (flushCurrent ([], Some ''Adults'', [], [])) = [section_group (Some ''Adults'') None []]
   \<and> nonempty_group (section_group None (Some ''loose text'') [])"
proof -
  have ev: "section_body doc_loose_text ''indications'' = [body_loose_text]"
    "section_walk body_loose_text = []"
    "normText [body_loose_text] = Some ''loose text''"
    "CHR ''l'' \<in> set (sel_text [body_loose_text])" "\<not> is_space (CHR ''l'')"
    "fst (flushCurrent ([], Some ''Adults'', [], [])) = [section_group (Some ''Adults'') None []]"
    by code_simp+
  show ?thesis
    using section_parser_complete [of "[]" "Some ''Adults''" "[]" "[]" body_loose_text
        "''loose text''" doc_loose_text "''indications''" "[]"] ev
    by auto
qed



section \<open>Properties of the dosage parser\<close>

lemma dosage_lis_all_strong:
  "\<forall>li\<in>set lis. strong_child li \<noteq> [] \<Longrightarrow>
   dosage_lis groups lis =
     Inr (groups @ map (\<lambda>li.
        dosage_group (normText (strong_child li)) (or_null (li_rest li)) (li_child_instr li)) lis)"
proof (induction lis arbitrary: groups)
  case Nil
  then show ?case by simp
next
  case (Cons li lis)
  have "dosage_li groups li =
      Inr (groups @ [dosage_group (normText (strong_child li)) (or_null (li_rest li)) (li_child_instr li)])"
    using Cons.prems
    by (simp add: dosage_li_def Let_def pushGroup_def squeeze_li_rest squeeze_li_child_instr
        normText_opt_or_null or_null_def)
  then show ?case using Cons by simp
qed

text \<open>
  The loop body on a \<open>ul\<close> child of the dosage body, in terms of the test the code
  makes, \<open>$li.find("> strong").first()\<close>.  When it succeeds on every item, the current
  group is pushed if it holds something and the list gives one group per item, in order;
  when it fails on every item, the texts of the items below the list are appended to
  the instructions of the current group.
\<close>

lemma dosage_node_ul:
  "(node_type (snd nd) = ''tag'' \<and> tagName (snd nd) = ''ul''
      \<and> children [Tag ''li''] [nd] \<noteq> []
      \<and> (\<forall>li\<in>set (children [Tag ''li''] [nd]). strong_child li \<noteq> []) \<longrightarrow>
    dosage_node (dosageArray, currMed, currInfos, currInstr) nd =
      Inr ((if currMed \<noteq> None \<or> currInfos \<noteq> [] \<or> currInstr \<noteq> []
            then dosageArray @
                 [dosage_group (opt_or_null currMed)
                    (if currInfos \<noteq> [] then Some (squeeze (join_sp currInfos)) else None)
                    (filter (\<lambda>s. s \<noteq> []) (map squeeze currInstr))]
            else dosageArray)
           @ map (\<lambda>li.
               dosage_group (normText (strong_child li)) (or_null (li_rest li)) (li_child_instr li))
               (children [Tag ''li''] [nd]),
           None, [], []))
   \<and> (node_type (snd nd) = ''tag'' \<and> tagName (snd nd) = ''ul''
      \<and> (\<forall>li\<in>set (children [Tag ''li''] [nd]). strong_child li = []) \<longrightarrow>
    dosage_node (dosageArray, currMed, currInfos, currInstr) nd =
      Inr (dosageArray, currMed, currInfos, currInstr @ li_texts nd))"
proof (intro conjI impI)
  assume a: "node_type (snd nd) = ''tag'' \<and> tagName (snd nd) = ''ul''
      \<and> children [Tag ''li''] [nd] \<noteq> []
      \<and> (\<forall>li\<in>set (children [Tag ''li''] [nd]). strong_child li \<noteq> [])"
  then have ex: "list_ex (\<lambda>li. strong_child li \<noteq> []) (children [Tag ''li''] [nd])"
    by (cases "children [Tag ''li''] [nd]") (auto simp: list_ex_iff)
  from a have all: "\<forall>li\<in>set (children [Tag ''li''] [nd]). strong_child li \<noteq> []" by simp
  show "dosage_node (dosageArray, currMed, currInfos, currInstr) nd =
      Inr ((if currMed \<noteq> None \<or> currInfos \<noteq> [] \<or> currInstr \<noteq> []
            then dosageArray @
                 [dosage_group (opt_or_null currMed)
                    (if currInfos \<noteq> [] then Some (squeeze (join_sp currInfos)) else None)
                    (filter (\<lambda>s. s \<noteq> []) (map squeeze currInstr))]
            else dosageArray)
           @ map (\<lambda>li.
               dosage_group (normText (strong_child li)) (or_null (li_rest li)) (li_child_instr li))
               (children [Tag ''li''] [nd]),
           None, [], [])"
    using a ex by (auto simp: Let_def pushGroup_def dosage_lis_all_strong [OF all])
next
  assume b: "node_type (snd nd) = ''tag'' \<and> tagName (snd nd) = ''ul''
      \<and> (\<forall>li\<in>set (children [Tag ''li''] [nd]). strong_child li = [])"
  then have "\<not> list_ex (\<lambda>li. strong_child li \<noteq> []) (children [Tag ''li''] [nd])"
    by (auto simp: list_ex_iff)
  then show "dosage_node (dosageArray, currMed, currInfos, currInstr) nd =
      Inr (dosageArray, currMed, currInfos, currInstr @ li_texts nd)"
    using b by (simp add: Let_def)
qed

lemma dosage_node_ul_example:
  "dosage_node ([], None, [''General advice''], []) ul_bold_items =
     Inr ([dosage_group None (Some ''General advice'') [],
           dosage_group (Some ''Adults:'') (Some ''one tablet after mealswith water'')
             [''after meals'', ''with water''],
           dosage_group (Some ''Children:'') (Some ''half a tablet'') []],
          None, [], [])
   \<and> dosage_node ([], Some ''Adults'', [], []) ul_plain_items =
     Inr ([], Some ''Adults'', [], [''one tablet'', ''twice daily''])"
proof -
  have ev: "node_type (snd ul_bold_items) = ''tag''" "tagName (snd ul_bold_items) = ''ul''"
    "children [Tag ''li''] [ul_bold_items] \<noteq> []"
    "list_all (\<lambda>li. strong_child li \<noteq> []) (children [Tag ''li''] [ul_bold_items])"
    "node_type (snd ul_plain_items) = ''tag''" "tagName (snd ul_plain_items) = ''ul''"
    "list_all (\<lambda>li. strong_child li = []) (children [Tag ''li''] [ul_plain_items])"
    by code_simp+
  have vals: "map (\<lambda>li.
               dosage_group (normText (strong_child li)) (or_null (li_rest li)) (li_child_instr li))
               (children [Tag ''li''] [ul_bold_items])
       = [dosage_group (Some ''Adults:'') (Some ''one tablet after mealswith water'')
             [''after meals'', ''with water''],
           dosage_group (Some ''Children:'') (Some ''half a tablet'') []]"
    "squeeze (join_sp [''General advice'']) = ''General advice''"
    "li_texts ul_plain_items = [''one tablet'', ''twice daily'']"
    "opt_or_null None = None"
    by code_simp+
  show ?thesis
    using dosage_node_ul [of ul_bold_items "[]" None "[''General advice'']" "[]"]
      dosage_node_ul [of ul_plain_items "[]" "Some ''Adults''" "[]" "[]"] ev vals
    by (simp add: list_all_iff)
qed

text \<open>
  Claim C5.  A list whose items do not begin with a bold node is to be folded into the
  instructions of the current group.  The comment on this loop in the commented copy of
  the parser (\<open>src/unnamed/part_003\<close>) says the same: a list is split when its items
  have \<open>strong\<close> as their first child, otherwise its items are appended to the
  instructions of the current group.  The code does not do that: it looks for a bold
  node anywhere among the children of an item.  The only item of
  the list of \<open>doc_bold_inside\<close> begins with the text \<open>Take\<close> and has a bold node after it;
  the parser makes a group of its own for it, titled with the bold text, where the
  claim gives one group \<open>Adults\<close> with the instruction \<open>Take one tablet\<close>.
\<close>

theorem dosage_nonleading_bold_split:
  "hd (contents li_bold_inside) = TextNode ''Take ''
   \<and> dosage doc_bold_inside =
       Inr [dosage_group (Some ''Adults'') None [],
            dosage_group (Some ''one'') (Some ''Take tablet'') []]
   \<and> dosage doc_bold_inside \<noteq> Inr [dosage_group (Some ''Adults'') None [''Take one tablet'']]"
  by code_simp

text \<open>
  In a list of which only some items have a bold child, an item without one is passed
  to \<open>pushGroup\<close> with \<open>null\<close> for \<open>infos\<close>, and the parser throws.
\<close>

lemma dosage_mixed_list_throws:
  "dosage doc_mixed_list = Inl null_length_error"
  by code_simp



section \<open>Properties of the listing extractors\<close>

lemma set_ins_el: "set (ins_el e es) \<subseteq> insert e (set es)"
  by (induction es) auto

lemma set_uniq_sort: "set (uniq_sort es) \<subseteq> set es"
  unfolding uniq_sort_def
proof (induction es)
  case Nil
  then show ?case by simp
next
  case (Cons e es)
  then show ?case using set_ins_el [of e "foldr ins_el es []"] by auto
qed

lemma sel_step_matches: "e \<in> set (sel_step (c, ts) ctx) \<Longrightarrow> matches ts (snd e)"
  unfolding sel_step_def using set_uniq_sort by fastforce

lemma find_els_one_step:
  "e \<in> set (find_els [[(c, ts)]] ctx) \<Longrightarrow> matches ts (snd e)"
proof -
  assume "e \<in> set (find_els [[(c, ts)]] ctx)"
  then have "e \<in> set (find1 [(c, ts)] ctx)"
    unfolding find_els_def using set_uniq_sort by fastforce
  then have "e \<in> set (sel_step (c, ts) ctx)"
    by (simp add: find1_def sel_chain_def sel_start_def)
  then show ?thesis by (rule sel_step_matches)
qed

lemma first_subset: "e \<in> set (first s) \<Longrightarrow> e \<in> set s"
  by (auto simp: first_def dest: in_set_takeD)

lemma bissoy_link_href:
  assumes "bissoy_link li = e # es"
  shows "\<exists>h. attr_of (bissoy_link li) ''href'' = Some h \<and> startsWith h ''/medicine/''"
proof -
  have "e \<in> set (find_els [[(Desc, [Tag ''a'', AttrPrefix ''href'' ''/medicine/''])]] [li])"
    using assms first_subset [of e] by (simp add: bissoy_link_def)
  then have "matches [Tag ''a'', AttrPrefix ''href'' ''/medicine/''] (snd e)"
    by (rule find_els_one_step)
  then have "holds (AttrPrefix ''href'' ''/medicine/'') (snd e)"
    by (simp add: matches_def)
  then show ?thesis
    using assms by (auto simp: attr_of_def split: option.splits)
qed

lemma bissoy_entry_record:
  assumes "r \<in> set (bissoy_entry li)"
  shows "(\<exists>n. get_prop r ''name_en'' = JStr n \<and> n \<noteq> [])
       \<and> (\<exists>h. get_prop r ''source_url'' = JStr (ORIGIN_bissoy @ h) \<and> startsWith h ''/medicine/'')"
proof (cases "bissoy_link li")
  case Nil
  then have "bissoy_entry li = []"
    by (simp add: bissoy_entry_def attr_of_def or_empty_def startsWith_def)
  with assms show ?thesis by simp
next
  case (Cons e es)
  then obtain h where h: "attr_of (bissoy_link li) ''href'' = Some h" "startsWith h ''/medicine/''"
    using bissoy_link_href by blast
  then have nohttp: "\<not> startsWith h ''http''"
    by (cases h) (auto simp: startsWith_def)
  show ?thesis
    using assms h(1) h(2) nohttp
    by (auto simp: bissoy_entry_def Let_def or_empty_def get_prop_def split: if_splits)
qed

lemma medex_entry_record:
  assumes "r \<in> set (medex_entry a)"
  shows "(\<exists>n. get_prop r ''name'' = JStr n \<and> n \<noteq> [])
    \<and> get_prop r ''source_url'' = JStr (medex_source_url a)"
  using assms
  by (auto simp: medex_entry_def Let_def get_prop_def split: if_splits)

text \<open>
  An anchor is emitted exactly when it has a data row and a name, whatever its \<open>href\<close>;
  an item of the second site exactly when it has a link to \<open>/medicine/\<close> and a name.
\<close>

lemma medex_entry_emitted:
  "map (\<lambda>r. (get_prop r ''name'', get_prop r ''source_url'')) (medex_entry a)
     = (if medex_data_row a \<noteq> [] \<and> medex_name (medex_data_row a) \<noteq> []
        then [(JStr (medex_name (medex_data_row a)), JStr (medex_source_url a))] else [])"
  by (simp add: medex_entry_def Let_def get_prop_def)

lemma bissoy_entry_emitted:
  "map (\<lambda>r. (get_prop r ''name_en'', get_prop r ''source_url'')) (bissoy_entry li)
     = (if bissoy_link li \<noteq> [] \<and> bissoy_names li ! 0 \<noteq> []
        then [(JStr (bissoy_names li ! 0),
               JStr (ORIGIN_bissoy @ or_empty (attr_of (bissoy_link li) ''href'')))]
        else [])"
proof (cases "bissoy_link li")
  case Nil
  then show ?thesis
    by (simp add: bissoy_entry_def attr_of_def or_empty_def startsWith_def)
next
  case (Cons e es)
  then obtain h where h: "attr_of (bissoy_link li) ''href'' = Some h" "startsWith h ''/medicine/''"
    using bissoy_link_href by blast
  then have nohttp: "\<not> startsWith h ''http''" and ne: "h \<noteq> []"
    by (cases h; auto simp: startsWith_def)+
  show ?thesis
    using Cons h(1) nohttp ne
    by (simp add: bissoy_entry_def Let_def or_empty_def get_prop_def)
qed

lemma emitted_entries:
  assumes "\<And>x. map f (entry x) = (if keep x then [g x] else [])"
  shows "map f (concat (map entry xs)) = map g (filter keep xs)"
  by (induction xs) (simp_all add: assms)

text \<open>
  Claim C7, as the code has it.  Every record returned by either listing extractor has
  a name that is a non-empty string: an entry without a name is not emitted.  The
  MedEx extractor has no test on the path: it emits one record for each
  \<open>a.hoverable-block\<close> that has a data row and a name, in document order, and the URL of
  the record is the \<open>href\<close> of the anchor (the empty string when the anchor has none),
  with the origin in front unless it starts with \<open>http\<close>.  The extractor of the second
  site emits one record for each list item that has a link whose \<open>href\<close> starts with
  \<open>/medicine/\<close> and a name, in document order; the record's URL is the site origin
  followed by that \<open>href\<close>, and an item without such a link is discarded.
\<close>

theorem listing_discard_rules:
  "(\<forall>r\<in>set (parsePageByStructure doc). \<exists>n. get_prop r ''name'' = JStr n \<and> n \<noteq> [])
   \<and> map (\<lambda>r. (get_prop r ''name'', get_prop r ''source_url'')) (parsePageByStructure doc)
       = map (\<lambda>a. (JStr (medex_name (medex_data_row a)),
                    JStr (if startsWith (or_empty (attr (snd a) ''href'')) ''http''
                          then or_empty (attr (snd a) ''href'')
                          else ORIGIN @ or_empty (attr (snd a) ''href''))))
           (filter (\<lambda>a. medex_data_row a \<noteq> [] \<and> medex_name (medex_data_row a) \<noteq> [])
              (query doc [[(Desc, [Tag ''a'', Cls ''hoverable-block''])]]))
   \<and> (\<forall>r\<in>set (parsePageByStructure_bissoy page_b).
        (\<exists>n. get_prop r ''name_en'' = JStr n \<and> n \<noteq> [])
        \<and> (\<exists>h. get_prop r ''source_url'' = JStr (ORIGIN_bissoy @ h) \<and> startsWith h ''/medicine/''))
   \<and> map (\<lambda>r. (get_prop r ''name_en'', get_prop r ''source_url''))
         (parsePageByStructure_bissoy page_b)
       = map (\<lambda>li. (JStr (bissoy_names li ! 0),
                     JStr (ORIGIN_bissoy @ or_empty (attr_of (bissoy_link li) ''href''))))
           (filter (\<lambda>li. bissoy_link li \<noteq> [] \<and> bissoy_names li ! 0 \<noteq> [])
              (query page_b [[(Desc, [Tag ''ul'', Cls ''space-y-6'']), (Child, [Tag ''li''])]]))
   \<and> (bissoy_link li = [] \<longrightarrow> bissoy_entry li = [])
   \<and> (bissoy_link li \<noteq> [] \<longrightarrow>
        (\<exists>h. attr_of (bissoy_link li) ''href'' = Some h \<and> startsWith h ''/medicine/''))"
proof -
  have a: "\<forall>r\<in>set (parsePageByStructure doc). \<exists>n. get_prop r ''name'' = JStr n \<and> n \<noteq> []"
    unfolding parsePageByStructure_def using medex_entry_record by fastforce
  have b: "map (\<lambda>r. (get_prop r ''name'', get_prop r ''source_url'')) (parsePageByStructure doc)
       = map (\<lambda>a. (JStr (medex_name (medex_data_row a)),
                    JStr (if startsWith (or_empty (attr (snd a) ''href'')) ''http''
                          then or_empty (attr (snd a) ''href'')
                          else ORIGIN @ or_empty (attr (snd a) ''href''))))
           (filter (\<lambda>a. medex_data_row a \<noteq> [] \<and> medex_name (medex_data_row a) \<noteq> [])
              (query doc [[(Desc, [Tag ''a'', Cls ''hoverable-block''])]]))"
    unfolding parsePageByStructure_def
    using emitted_entries [of "\<lambda>r. (get_prop r ''name'', get_prop r ''source_url'')" medex_entry
        "\<lambda>a. medex_data_row a \<noteq> [] \<and> medex_name (medex_data_row a) \<noteq> []"
        "\<lambda>a. (JStr (medex_name (medex_data_row a)), JStr (medex_source_url a))"]
      medex_entry_emitted
    by (simp add: medex_source_url_def Let_def)
  have c: "\<forall>r\<in>set (parsePageByStructure_bissoy page_b).
        (\<exists>n. get_prop r ''name_en'' = JStr n \<and> n \<noteq> [])
        \<and> (\<exists>h. get_prop r ''source_url'' = JStr (ORIGIN_bissoy @ h) \<and> startsWith h ''/medicine/'')"
    unfolding parsePageByStructure_bissoy_def using bissoy_entry_record by fastforce
  have d: "map (\<lambda>r. (get_prop r ''name_en'', get_prop r ''source_url''))
         (parsePageByStructure_bissoy page_b)
       = map (\<lambda>li. (JStr (bissoy_names li ! 0),
                     JStr (ORIGIN_bissoy @ or_empty (attr_of (bissoy_link li) ''href''))))
           (filter (\<lambda>li. bissoy_link li \<noteq> [] \<and> bissoy_names li ! 0 \<noteq> [])
              (query page_b [[(Desc, [Tag ''ul'', Cls ''space-y-6'']), (Child, [Tag ''li''])]]))"
    unfolding parsePageByStructure_bissoy_def
    using emitted_entries [of "\<lambda>r. (get_prop r ''name_en'', get_prop r ''source_url'')" bissoy_entry
        "\<lambda>li. bissoy_link li \<noteq> [] \<and> bissoy_names li ! 0 \<noteq> []"
        "\<lambda>li. (JStr (bissoy_names li ! 0),
               JStr (ORIGIN_bissoy @ or_empty (attr_of (bissoy_link li) ''href'')))"]
      bissoy_entry_emitted
    by simp
  have e: "bissoy_link li = [] \<longrightarrow> bissoy_entry li = []"
    by (simp add: bissoy_entry_def attr_of_def or_empty_def startsWith_def)
  have f: "bissoy_link li \<noteq> [] \<longrightarrow>
        (\<exists>h. attr_of (bissoy_link li) ''href'' = Some h \<and> startsWith h ''/medicine/'')"
    using bissoy_link_href [of li] by (cases "bissoy_link li") auto
  from a b c d e f show ?thesis by blast
qed

theorem listing_discard_rules_witness:
  "map (\<lambda>r. (get_prop r ''name'', get_prop r ''source_url'')) (parsePageByStructure doc_medex_paths)
     = [(JStr ''Napa'', JStr ''https://medex.com.bd/brands/11/napa''),
        (JStr ''Ace'', JStr ''https://medex.com.bd/generics/7/ace'')]
   \<and> parsePageByStructure_bissoy doc_bissoy_listing =
     [JObj [(''name_en'', JStr ''Napa''), (''name_bn'', JStr ''napa-bn''),
            (''source_url'', JStr ''https://www.bissoy.com/medicine/napa''),
            (''company'', JNull), (''price'', JNull),
            (''generic'', JStr ''Paracetamol''), (''strength'', JStr ''500 mg'')]]
   \<and> bissoy_link ([0, 1], bissoy_li ''/company/x'' ''Other'') = []
   \<and> bissoy_entry ([0, 1], bissoy_li ''/company/x'' ''Other'') = []
   \<and> bissoy_link ([0, 0], bissoy_li ''/medicine/napa'' ''Napa | napa-bn'') \<noteq> []
   \<and> attr_of (bissoy_link ([0, 0], bissoy_li ''/medicine/napa'' ''Napa | napa-bn'')) ''href''
       = Some ''/medicine/napa''"
proof -
  have ev: "map (\<lambda>a. (JStr (medex_name (medex_data_row a)),
                    JStr (if startsWith (or_empty (attr (snd a) ''href'')) ''http''
                          then or_empty (attr (snd a) ''href'')
                          else ORIGIN @ or_empty (attr (snd a) ''href''))))
           (filter (\<lambda>a. medex_data_row a \<noteq> [] \<and> medex_name (medex_data_row a) \<noteq> [])
              (query doc_medex_paths [[(Desc, [Tag ''a'', Cls ''hoverable-block''])]]))
     = [(JStr ''Napa'', JStr ''https://medex.com.bd/brands/11/napa''),
        (JStr ''Ace'', JStr ''https://medex.com.bd/generics/7/ace'')]"
    "parsePageByStructure_bissoy doc_bissoy_listing =
     [JObj [(''name_en'', JStr ''Napa''), (''name_bn'', JStr ''napa-bn''),
            (''source_url'', JStr ''https://www.bissoy.com/medicine/napa''),
            (''company'', JNull), (''price'', JNull),
            (''generic'', JStr ''Paracetamol''), (''strength'', JStr ''500 mg'')]]"
    "bissoy_link ([0, 1], bissoy_li ''/company/x'' ''Other'') = []"
    "bissoy_link ([0, 0], bissoy_li ''/medicine/napa'' ''Napa | napa-bn'') \<noteq> []"
    "attr_of (bissoy_link ([0, 0], bissoy_li ''/medicine/napa'' ''Napa | napa-bn'')) ''href''
       = Some ''/medicine/napa''"
    by code_simp+
  show ?thesis
    using listing_discard_rules [of doc_medex_paths doc_bissoy_listing
        "([0, 1], bissoy_li ''/company/x'' ''Other'')"]
      listing_discard_rules [of doc_medex_paths doc_bissoy_listing
        "([0, 0], bissoy_li ''/medicine/napa'' ''Napa | napa-bn'')"] ev
    by simp
qed

text \<open>
  Claim C7 as stated fails for the MedEx extractor: the anchor of \<open>doc_medex_no_href\<close>
  has no \<open>href\<close> at all, its entry is emitted, and the URL of the record is the bare
  origin, which has no path.
\<close>

theorem listing_discard_counterexample:
  "attr (hd doc_medex_no_href) ''href'' = None
   \<and> parsePageByStructure doc_medex_no_href =
     [JObj [(''name'', JStr ''Napa''), (''strength'', JStr ''500 mg''),
            (''generic'', JStr ''Paracetamol''), (''company'', JStr ''Beximco Ltd.''),
            (''medicine_type'', JNull), (''source_url'', JStr ''https://medex.com.bd'')]]"
  by code_simp



section \<open>Properties of the batch scheduler\<close>

lemma fetch_loop_page:
  "(case fst (fetch_loop net pg maxRetries attempt lastErr) of
      Success p res \<Rightarrow> p = pg | Failure p msg \<Rightarrow> p = pg)"
proof (induction net pg maxRetries attempt lastErr rule: fetch_loop.induct)
  case (1 net pg maxRetries attempt lastErr)
  show ?case
  proof (cases "attempt < maxRetries")
    case True
    show ?thesis
    proof (cases "net pg (attempt + 1)")
      case (Inl err)
      have step: "fetch_loop net pg maxRetries attempt lastErr
                    = fetch_loop net pg maxRetries (attempt + 1) (Some err)"
        using True Inl by (rule fetch_loop_throw)
      show ?thesis unfolding step using "1.IH" [OF True Inl] by simp
    next
      case (Inr res)
      have step: "fetch_loop net pg maxRetries attempt lastErr = (Success pg res, attempt + 1)"
        using True Inr by (rule fetch_loop_return)
      show ?thesis unfolding step by simp
    qed
  next
    case False
    have step: "fetch_loop net pg maxRetries attempt lastErr
       = (Failure pg (case lastErr of Some e \<Rightarrow> error_text e | None \<Rightarrow> ''unknown''), attempt)"
      using False by (rule fetch_loop_exit)
    show ?thesis unfolding step by simp
  qed
qed

lemma page_result_page:
  "page_result cfg e p = Success q r \<Longrightarrow> q = p"
  "page_result cfg e p = Failure q msg \<Longrightarrow> q = p"
  using fetch_loop_page [where net = "network e" and pg = p and maxRetries = "MAX_RETRIES cfg"
      and attempt = 0 and lastErr = None]
  by (auto simp: page_result_def fetchWithRetries_def)

lemma collect_results_pages:
  "collect_results (map (page_result cfg e) ps) (items, failed) =
     (items @ concat (map (page_items cfg e) ps),
      failed @ map (\<lambda>p. (p, snd (hd (snd (collect_results [page_result cfg e p] ([], []))))))
                 (filter (page_failed cfg e) ps))"
proof (induction ps arbitrary: items failed)
  case Nil
  then show ?case by simp
next
  case (Cons p ps)
  show ?case
  proof (cases "page_result cfg e p")
    case (Success q r)
    then have q: "q = p" by (rule page_result_page)
    show ?thesis
      using Success q Cons.IH
      by (cases "load_and_parse r") (simp_all add: page_items_def page_failed_def)
  next
    case (Failure q msg)
    then have q: "q = p" by (rule page_result_page)
    show ?thesis
      using Failure q Cons.IH by (simp add: page_items_def page_failed_def)
  qed
qed

lemma collect_results_batch:
  "fst (collect_results (map (page_result cfg e) ps) ([], [])) = concat (map (page_items cfg e) ps)"
  "map fst (snd (collect_results (map (page_result cfg e) ps) ([], []))) = filter (page_failed cfg e) ps"
  by (simp_all add: collect_results_pages comp_def)

lemma batch_results:
  "map (\<lambda>p. fst (fetchWithRetries (network e) p (MAX_RETRIES cfg))) ps = map (page_result cfg e) ps"
  by (simp add: page_result_def)

lemma batch_step_written:
  assumes "\<not> fileExistsNonEmpty (files st) (start, batch_end cfg start)"
    and "write_error e (start, batch_end cfg start) = None"
  shows "files (batch_step cfg e start st) (start, batch_end cfg start)
           = Some (JsonArray (concat (map (page_items cfg e) (batch_pages cfg start))))"
    and "failedPages (batch_step cfg e start st)
           = failedPages st @ filter (page_failed cfg e) (batch_pages cfg start)"
    and "dispatched (batch_step cfg e start st) = dispatched st @ batch_pages cfg start"
    and "totalSaved (batch_step cfg e start st)
           = totalSaved st + int (length (concat (map (page_items cfg e) (batch_pages cfg start))))"
  using assms
  by (simp_all add: batch_step_def Let_def batch_results collect_results_batch)

lemma batch_step_dispatched:
  "dispatched (batch_step cfg e start st) = dispatched st
   \<or> dispatched (batch_step cfg e start st) = dispatched st @ batch_pages cfg start"
  by (auto simp: batch_step_def Let_def split: option.splits)

lemma batch_pages_bounds:
  "p \<in> set (batch_pages cfg start) \<Longrightarrow> start \<le> p \<and> p < start + BATCH_SIZE cfg"
  by (auto simp: batch_pages_def batch_end_def)

lemma batch_step_inv:
  assumes "0 < BATCH_SIZE cfg" "run_inv start st"
  shows "run_inv (start + BATCH_SIZE cfg) (batch_step cfg e start st)"
proof -
  have d: "distinct (batch_pages cfg start)" by (simp add: batch_pages_def)
  from batch_step_dispatched [of cfg e start st] show ?thesis
  proof
    assume "dispatched (batch_step cfg e start st) = dispatched st"
    then show ?thesis using assms by (auto simp: run_inv_def list_all_iff)
  next
    assume eq: "dispatched (batch_step cfg e start st) = dispatched st @ batch_pages cfg start"
    show ?thesis
      unfolding run_inv_def eq using assms d batch_pages_bounds [of _ cfg start]
      by (fastforce simp: run_inv_def list_all_iff)
  qed
qed

lemma main_loop_terminates:
  assumes "0 < BATCH_SIZE cfg"
  shows "run_inv start st \<Longrightarrow>
     \<exists>st'. main_loop cfg e start st = Some st' \<and> distinct (dispatched st')"
proof (induction "nat (MAX_PAGES cfg + 1 - start)" arbitrary: start st rule: less_induct)
  case less
  show ?case
  proof (cases "start \<le> MAX_PAGES cfg")
    case True
    have "nat (MAX_PAGES cfg + 1 - (start + BATCH_SIZE cfg)) < nat (MAX_PAGES cfg + 1 - start)"
      using True assms by simp
    moreover have "run_inv (start + BATCH_SIZE cfg) (batch_step cfg e start st)"
      using assms less.prems by (rule batch_step_inv)
    ultimately have "\<exists>st'. main_loop cfg e (start + BATCH_SIZE cfg) (batch_step cfg e start st) = Some st'
        \<and> distinct (dispatched st')"
      by (rule less.hyps)
    then show ?thesis using True by (subst main_loop.simps) simp
  next
    case False
    then show ?thesis using less.prems by (subst main_loop.simps) (simp add: run_inv_def)
  qed
qed

lemma failedUnique_props:
  "sorted (failedUnique xs)" "distinct (failedUnique xs)" "set (failedUnique xs) = set xs"
  by (simp_all add: failedUnique_def)


lemma mark_write_failed_keeps:
  "set (map fst bf) \<subseteq> set (map fst (mark_write_failed err ps bf))"
  unfolding mark_write_failed_def
proof (induction ps arbitrary: bf)
  case Nil
  then show ?case by simp
next
  case (Cons p ps)
  have "set (map fst bf)
          \<subseteq> set (map fst (if p \<in> fst ` set bf then bf
                                else bf @ [(p, ''write_error: '' @ error_text err)]))"
    by auto
  also have "\<dots> \<subseteq> set (map fst (foldl (\<lambda>bf p. if p \<in> fst ` set bf then bf
                 else bf @ [(p, ''write_error: '' @ error_text err)])
               (if p \<in> fst ` set bf then bf else bf @ [(p, ''write_error: '' @ error_text err)]) ps))"
    by (rule Cons.IH)
  finally show ?case by simp
qed

lemma batch_step_records_failed:
  assumes "\<not> fileExistsNonEmpty (files st) (start, batch_end cfg start)"
  shows "dispatched (batch_step cfg e start st) = dispatched st @ batch_pages cfg start"
    and "write_calls (batch_step cfg e start st)
           = write_calls st @ [((start, batch_end cfg start),
                                concat (map (page_items cfg e) (batch_pages cfg start)))]"
    and "set (filter (page_failed cfg e) (batch_pages cfg start))
           \<subseteq> set (failedPages (batch_step cfg e start st))"
proof -
  show "dispatched (batch_step cfg e start st) = dispatched st @ batch_pages cfg start"
    using assms by (simp add: batch_step_def Let_def split: option.splits)
  show "write_calls (batch_step cfg e start st)
           = write_calls st @ [((start, batch_end cfg start),
                                concat (map (page_items cfg e) (batch_pages cfg start)))]"
    using assms
    by (simp add: batch_step_def Let_def batch_results collect_results_batch split: option.splits)
  show "set (filter (page_failed cfg e) (batch_pages cfg start))
           \<subseteq> set (failedPages (batch_step cfg e start st))"
  proof (cases "write_error e (start, batch_end cfg start)")
    case None
    then show ?thesis using batch_step_written(2) [OF assms None] by simp
  next
    case (Some err)
    have "set (filter (page_failed cfg e) (batch_pages cfg start))
            \<subseteq> set (map fst (mark_write_failed err (batch_pages cfg start)
                  (snd (collect_results (map (page_result cfg e) (batch_pages cfg start)) ([], [])))))"
      using mark_write_failed_keeps
        [of "snd (collect_results (map (page_result cfg e) (batch_pages cfg start)) ([], []))"
            err "batch_pages cfg start"]
      by (simp only: collect_results_batch(2))
    then show ?thesis
      using assms Some by (auto simp: batch_step_def Let_def batch_results)
  qed
qed

text \<open>
  The run as a whole: the loop is the iteration of the batch step over the starts of the
  batches, and a batch changes no file but its own.
\<close>

lemma main_loop_run:
  assumes "0 < BATCH_SIZE cfg"
  shows "main_loop cfg e start st
           = Some (foldl (\<lambda>s b. batch_step cfg e b s) st (batch_starts cfg start))"
  using assms
proof (induction cfg start arbitrary: st rule: batch_starts.induct)
  case (1 cfg start)
  show ?case
  proof (cases "start \<le> MAX_PAGES cfg")
    case True
    then have "main_loop cfg e start st
        = main_loop cfg e (start + BATCH_SIZE cfg) (batch_step cfg e start st)"
      by (subst main_loop.simps) simp
    also have "\<dots> = Some (foldl (\<lambda>s b. batch_step cfg e b s) (batch_step cfg e start st)
                         (batch_starts cfg (start + BATCH_SIZE cfg)))"
      using "1.IH" "1.prems" True by simp
    finally show ?thesis
      using True "1.prems" by (subst batch_starts.simps) simp
  next
    case False
    then show ?thesis
      by (subst main_loop.simps, subst batch_starts.simps) simp
  qed
qed

lemma batch_starts_above:
  "b \<in> set (batch_starts cfg start) \<Longrightarrow> start \<le> b"
proof (induction cfg start rule: batch_starts.induct)
  case (1 cfg start)
  from "1.prems" show ?case
    by (subst (asm) batch_starts.simps) (use "1.IH" in \<open>auto split: if_splits\<close>)
qed

lemma batch_starts_distinct: "distinct (batch_starts cfg start)"
proof (induction cfg start rule: batch_starts.induct)
  case (1 cfg start)
  show ?case
    by (subst batch_starts.simps)
       (use "1.IH" batch_starts_above [of start cfg "start + BATCH_SIZE cfg"] in auto)
qed

lemma mark_write_failed_pages:
  "distinct ps \<Longrightarrow>
   map fst (mark_write_failed err ps bf)
     = map fst bf @ filter (\<lambda>p. p \<notin> set (map fst bf)) ps"
  unfolding mark_write_failed_def
proof (induction ps arbitrary: bf)
  case Nil
  then show ?case by simp
next
  case (Cons p ps)
  have ps: "distinct ps" "p \<notin> set ps" using Cons.prems by simp_all
  show ?case
  proof (cases "p \<in> fst ` set bf")
    case True
    then show ?thesis using Cons.IH [OF ps(1), of bf] by simp
  next
    case False
    have "filter (\<lambda>q. q \<noteq> p \<and> q \<notin> fst ` set bf) ps = filter (\<lambda>q. q \<notin> fst ` set bf) ps"
      using ps(2) by (intro filter_cong) auto
    then show ?thesis
      using False Cons.IH [OF ps(1), of "bf @ [(p, ''write_error: '' @ error_text err)]"]
      by (simp add: conj_commute)
  qed
qed

lemma batch_step_failed:
  "failedPages (batch_step cfg e b st) = failedPages st @ batch_failed cfg e (files st) b"
proof (cases "fileExistsNonEmpty (files st) (b, batch_end cfg b)")
  case True
  then show ?thesis by (simp add: batch_step_def batch_failed_def)
next
  case False
  define bf where "bf = snd (collect_results (map (page_result cfg e) (batch_pages cfg b)) ([], []))"
  have bf: "map fst bf = filter (page_failed cfg e) (batch_pages cfg b)"
    unfolding bf_def by (rule collect_results_batch(2))
  show ?thesis
  proof (cases "write_error e (b, batch_end cfg b)")
    case None
    then show ?thesis
      using False bf
      by (simp add: batch_step_def batch_failed_def Let_def batch_results bf_def)
  next
    case (Some err)
    have d: "distinct (batch_pages cfg b)" by (simp add: batch_pages_def)
    have "filter (\<lambda>p. p \<notin> set (map fst bf)) (batch_pages cfg b)
            = filter (\<lambda>p. \<not> page_failed cfg e p) (batch_pages cfg b)"
      unfolding bf by (intro filter_cong) auto
    then have "map fst (mark_write_failed err (batch_pages cfg b) bf)
        = filter (page_failed cfg e) (batch_pages cfg b)
            @ filter (\<lambda>p. \<not> page_failed cfg e p) (batch_pages cfg b)"
      using mark_write_failed_pages [OF d, of err bf] bf by simp
    then show ?thesis
      using False Some
      by (simp add: batch_step_def batch_failed_def Let_def batch_results bf_def)
  qed
qed

lemma batch_step_calls:
  "write_calls (batch_step cfg e b st) = write_calls st @ batch_written cfg e (files st) b"
  by (auto simp: batch_step_def batch_written_def Let_def batch_results collect_results_batch
      split: option.splits)

lemma batch_step_files_other:
  "name \<noteq> (b, batch_end cfg b) \<Longrightarrow> files (batch_step cfg e b st) name = files st name"
  by (auto simp: batch_step_def Let_def split: option.splits)

lemma batch_failed_cong:
  "fs1 (b, batch_end cfg b) = fs2 (b, batch_end cfg b) \<Longrightarrow>
   batch_failed cfg e fs1 b = batch_failed cfg e fs2 b"
  by (simp add: batch_failed_def fileExistsNonEmpty_def)

lemma batch_written_cong:
  "fs1 (b, batch_end cfg b) = fs2 (b, batch_end cfg b) \<Longrightarrow>
   batch_written cfg e fs1 b = batch_written cfg e fs2 b"
  by (simp add: batch_written_def fileExistsNonEmpty_def)

lemma run_files_other:
  "b \<notin> set bs \<Longrightarrow>
   files (foldl (\<lambda>s b. batch_step cfg e b s) st bs) (b, x) = files st (b, x)"
  by (induction bs arbitrary: st) (simp_all add: batch_step_files_other)

lemma run_failed:
  "distinct bs \<Longrightarrow>
   failedPages (foldl (\<lambda>s b. batch_step cfg e b s) st bs)
     = failedPages st @ concat (map (batch_failed cfg e (files st)) bs)"
proof (induction bs arbitrary: st)
  case Nil
  then show ?case by simp
next
  case (Cons b bs)
  have same: "\<And>c. c \<in> set bs \<Longrightarrow>
      files (batch_step cfg e b st) (c, batch_end cfg c) = files st (c, batch_end cfg c)"
    using Cons.prems by (intro batch_step_files_other) auto
  have maps: "map (batch_failed cfg e (files (batch_step cfg e b st))) bs
             = map (batch_failed cfg e (files st)) bs"
    using same by (intro map_cong refl batch_failed_cong) simp
  have "failedPages (foldl (\<lambda>s b. batch_step cfg e b s) (batch_step cfg e b st) bs)
          = failedPages (batch_step cfg e b st)
              @ concat (map (batch_failed cfg e (files (batch_step cfg e b st))) bs)"
    using Cons.IH [of "batch_step cfg e b st"] Cons.prems by simp
  then show ?case unfolding maps batch_step_failed by simp
qed

lemma run_calls:
  "distinct bs \<Longrightarrow>
   write_calls (foldl (\<lambda>s b. batch_step cfg e b s) st bs)
     = write_calls st @ concat (map (batch_written cfg e (files st)) bs)"
proof (induction bs arbitrary: st)
  case Nil
  then show ?case by simp
next
  case (Cons b bs)
  have same: "\<And>c. c \<in> set bs \<Longrightarrow>
      files (batch_step cfg e b st) (c, batch_end cfg c) = files st (c, batch_end cfg c)"
    using Cons.prems by (intro batch_step_files_other) auto
  have maps: "map (batch_written cfg e (files (batch_step cfg e b st))) bs
             = map (batch_written cfg e (files st)) bs"
    using same by (intro map_cong refl batch_written_cong) simp
  have "write_calls (foldl (\<lambda>s b. batch_step cfg e b s) (batch_step cfg e b st) bs)
          = write_calls (batch_step cfg e b st)
              @ concat (map (batch_written cfg e (files (batch_step cfg e b st))) bs)"
    using Cons.IH [of "batch_step cfg e b st"] Cons.prems by simp
  then show ?case unfolding maps batch_step_calls by simp
qed

lemma run_files:
  assumes "distinct bs" "b \<in> set bs"
    "\<not> fileExistsNonEmpty (files st) (b, batch_end cfg b)"
    "write_error e (b, batch_end cfg b) = None"
  shows "files (foldl (\<lambda>s b. batch_step cfg e b s) st bs) (b, batch_end cfg b)
           = Some (JsonArray (concat (map (page_items cfg e) (batch_pages cfg b))))"
  using assms
proof (induction bs arbitrary: st)
  case Nil
  then show ?case by simp
next
  case (Cons c bs)
  show ?case
  proof (cases "c = b")
    case True
    then have "b \<notin> set bs" using Cons.prems(1) by simp
    then show ?thesis
      using True batch_step_written(1) [OF Cons.prems(3) Cons.prems(4)]
      by (simp add: run_files_other)
  next
    case False
    then have "files (batch_step cfg e c st) (b, batch_end cfg b) = files st (b, batch_end cfg b)"
      by (intro batch_step_files_other) simp
    then have "\<not> fileExistsNonEmpty (files (batch_step cfg e c st)) (b, batch_end cfg b)"
      using Cons.prems(3) by (simp add: fileExistsNonEmpty_def)
    then show ?thesis
      using Cons.IH [of "batch_step cfg e c st"] Cons.prems False by simp
  qed
qed

lemma batch_failed_set:
  "p \<in> set (batch_failed cfg e fs b) \<longleftrightarrow>
     \<not> fileExistsNonEmpty fs (b, batch_end cfg b) \<and> p \<in> set (batch_pages cfg b)
     \<and> (page_failed cfg e p \<or> write_error e (b, batch_end cfg b) \<noteq> None)"
  by (auto simp: batch_failed_def)

text \<open>
  Claim C3.  In every batch that is not skipped the scheduler calls \<open>writeBatchFile\<close>
  once, with exactly the records parsed from the pages whose fetch succeeded, each tagged
  with its page, in page order; every page of the batch is handed to \<open>fetchWithRetries\<close>
  once, and every page that failed is appended to \<open>failedPages\<close>.  A page whose fetch
  failed after its retries contributes no record and counts as failed (as does a page
  whose parse throws).  When the write does not throw, the file of the batch holds those
  records and \<open>failedPages\<close> gets exactly the failed pages of the batch.  With a positive
  batch size the run ends, and at its end \<open>failedPages\<close> holds, batch after batch, the
  failed pages of every batch that was not skipped (and all the pages of a batch whose
  write threw), the file of every such batch whose write did not throw holds the records
  of its pages that did not fail, and no page was dispatched twice.  The report is that
  list without repetition, in ascending order: a page is reported exactly when its batch
  was not skipped and the page failed or the write of its batch threw.
\<close>

theorem partial_success_persistence:
  "(\<not> fileExistsNonEmpty (files st) (start, batch_end cfg start)
      \<and> write_error e (start, batch_end cfg start) = None \<longrightarrow>
       files (batch_step cfg e start st) (start, batch_end cfg start)
         = Some (JsonArray (concat (map (page_items cfg e) (batch_pages cfg start))))
     \<and> failedPages (batch_step cfg e start st)
         = failedPages st @ filter (page_failed cfg e) (batch_pages cfg start)
     \<and> dispatched (batch_step cfg e start st) = dispatched st @ batch_pages cfg start)
   \<and> (\<not> fileExistsNonEmpty (files st) (start, batch_end cfg start) \<longrightarrow>
       write_calls (batch_step cfg e start st)
         = write_calls st @ [((start, batch_end cfg start),
                              concat (map (page_items cfg e) (batch_pages cfg start)))]
     \<and> dispatched (batch_step cfg e start st) = dispatched st @ batch_pages cfg start
     \<and> set (filter (page_failed cfg e) (batch_pages cfg start))
           \<subseteq> set (failedPages (batch_step cfg e start st)))
   \<and> (\<forall>q msg. page_result cfg e p = Failure q msg \<longrightarrow>
         page_items cfg e p = [] \<and> page_failed cfg e p)
   \<and> (\<forall>q r parsed. page_result cfg e p = Success q r \<and> load_and_parse r = Inr parsed \<longrightarrow>
         page_items cfg e p = map (\<lambda>it. set_prop it ''_source_page'' (JNum p)) parsed
         \<and> \<not> page_failed cfg e p)
   \<and> (0 < BATCH_SIZE cfg \<longrightarrow>
        (\<exists>st'. main cfg e fs = Some (st', failedUnique (failedPages st'))
           \<and> failedPages st' = concat (map (batch_failed cfg e fs) (batch_starts cfg 1))
           \<and> write_calls st' = concat (map (batch_written cfg e fs) (batch_starts cfg 1))
           \<and> (\<forall>b\<in>set (batch_starts cfg 1).
                 \<not> fileExistsNonEmpty fs (b, batch_end cfg b)
                 \<and> write_error e (b, batch_end cfg b) = None \<longrightarrow>
                 files st' (b, batch_end cfg b)
                   = Some (JsonArray (concat (map (page_items cfg e) (batch_pages cfg b)))))
           \<and> sorted (failedUnique (failedPages st'))
           \<and> distinct (failedUnique (failedPages st'))
           \<and> (\<forall>q. q \<in> set (failedUnique (failedPages st')) \<longleftrightarrow>
                 (\<exists>b\<in>set (batch_starts cfg 1).
                    \<not> fileExistsNonEmpty fs (b, batch_end cfg b) \<and> q \<in> set (batch_pages cfg b)
                    \<and> (page_failed cfg e q \<or> write_error e (b, batch_end cfg b) \<noteq> None)))
           \<and> distinct (dispatched st')))"
proof -
  have batch: "\<not> fileExistsNonEmpty (files st) (start, batch_end cfg start)
      \<and> write_error e (start, batch_end cfg start) = None \<longrightarrow>
       files (batch_step cfg e start st) (start, batch_end cfg start)
         = Some (JsonArray (concat (map (page_items cfg e) (batch_pages cfg start))))
     \<and> failedPages (batch_step cfg e start st)
         = failedPages st @ filter (page_failed cfg e) (batch_pages cfg start)
     \<and> dispatched (batch_step cfg e start st) = dispatched st @ batch_pages cfg start"
    using batch_step_written [of st start cfg e] by blast
  have anyway: "\<not> fileExistsNonEmpty (files st) (start, batch_end cfg start) \<longrightarrow>
       write_calls (batch_step cfg e start st)
         = write_calls st @ [((start, batch_end cfg start),
                              concat (map (page_items cfg e) (batch_pages cfg start)))]
     \<and> dispatched (batch_step cfg e start st) = dispatched st @ batch_pages cfg start
     \<and> set (filter (page_failed cfg e) (batch_pages cfg start))
           \<subseteq> set (failedPages (batch_step cfg e start st))"
    using batch_step_records_failed [of st start cfg e] by blast
  have failed: "\<forall>q msg. page_result cfg e p = Failure q msg \<longrightarrow>
         page_items cfg e p = [] \<and> page_failed cfg e p"
    by (simp add: page_items_def page_failed_def)
  have ok: "\<forall>q r parsed. page_result cfg e p = Success q r \<and> load_and_parse r = Inr parsed \<longrightarrow>
         page_items cfg e p = map (\<lambda>it. set_prop it ''_source_page'' (JNum p)) parsed
         \<and> \<not> page_failed cfg e p"
    by (simp add: page_items_def page_failed_def)
  have run: "0 < BATCH_SIZE cfg \<longrightarrow>
        (\<exists>st'. main cfg e fs = Some (st', failedUnique (failedPages st'))
           \<and> failedPages st' = concat (map (batch_failed cfg e fs) (batch_starts cfg 1))
           \<and> write_calls st' = concat (map (batch_written cfg e fs) (batch_starts cfg 1))
           \<and> (\<forall>b\<in>set (batch_starts cfg 1).
                 \<not> fileExistsNonEmpty fs (b, batch_end cfg b)
                 \<and> write_error e (b, batch_end cfg b) = None \<longrightarrow>
                 files st' (b, batch_end cfg b)
                   = Some (JsonArray (concat (map (page_items cfg e) (batch_pages cfg b)))))
           \<and> sorted (failedUnique (failedPages st'))
           \<and> distinct (failedUnique (failedPages st'))
           \<and> (\<forall>q. q \<in> set (failedUnique (failedPages st')) \<longleftrightarrow>
                 (\<exists>b\<in>set (batch_starts cfg 1).
                    \<not> fileExistsNonEmpty fs (b, batch_end cfg b) \<and> q \<in> set (batch_pages cfg b)
                    \<and> (page_failed cfg e q \<or> write_error e (b, batch_end cfg b) \<noteq> None)))
           \<and> distinct (dispatched st'))"
  proof
    assume pos: "0 < BATCH_SIZE cfg"
    define st0 where
      "st0 = \<lparr>files = fs, failedPages = [], totalSaved = 0, dispatched = [], write_calls = []\<rparr>"
    define st' where "st' = foldl (\<lambda>s b. batch_step cfg e b s) st0 (batch_starts cfg 1)"
    have loop: "main_loop cfg e 1 st0 = Some st'"
      unfolding st'_def using pos by (rule main_loop_run)
    have "run_inv 1 st0" by (simp add: run_inv_def st0_def)
    with pos have "\<exists>s. main_loop cfg e 1 st0 = Some s \<and> distinct (dispatched s)"
      by (rule main_loop_terminates)
    with loop have disp: "distinct (dispatched st')" by simp
    have d: "distinct (batch_starts cfg 1)" by (rule batch_starts_distinct)
    have m: "main cfg e fs = Some (st', failedUnique (failedPages st'))"
      using loop by (simp add: main_def st0_def)
    have f: "failedPages st' = concat (map (batch_failed cfg e fs) (batch_starts cfg 1))"
      unfolding st'_def using run_failed [OF d, of cfg e st0] by (simp add: st0_def)
    have w: "write_calls st' = concat (map (batch_written cfg e fs) (batch_starts cfg 1))"
      unfolding st'_def using run_calls [OF d, of cfg e st0] by (simp add: st0_def)
    have fl: "\<forall>b\<in>set (batch_starts cfg 1).
                 \<not> fileExistsNonEmpty fs (b, batch_end cfg b)
                 \<and> write_error e (b, batch_end cfg b) = None \<longrightarrow>
                 files st' (b, batch_end cfg b)
                   = Some (JsonArray (concat (map (page_items cfg e) (batch_pages cfg b))))"
      unfolding st'_def using run_files [OF d, of _ st0 cfg e] by (simp add: st0_def)
    have r: "\<forall>q. q \<in> set (failedUnique (failedPages st')) \<longleftrightarrow>
                 (\<exists>b\<in>set (batch_starts cfg 1).
                    \<not> fileExistsNonEmpty fs (b, batch_end cfg b) \<and> q \<in> set (batch_pages cfg b)
                    \<and> (page_failed cfg e q \<or> write_error e (b, batch_end cfg b) \<noteq> None))"
      unfolding failedUnique_props(3) f by (simp add: batch_failed_set)
    from m f w fl r disp failedUnique_props(1,2) [of "failedPages st'"]
    show "\<exists>st'. main cfg e fs = Some (st', failedUnique (failedPages st'))
           \<and> failedPages st' = concat (map (batch_failed cfg e fs) (batch_starts cfg 1))
           \<and> write_calls st' = concat (map (batch_written cfg e fs) (batch_starts cfg 1))
           \<and> (\<forall>b\<in>set (batch_starts cfg 1).
                 \<not> fileExistsNonEmpty fs (b, batch_end cfg b)
                 \<and> write_error e (b, batch_end cfg b) = None \<longrightarrow>
                 files st' (b, batch_end cfg b)
                   = Some (JsonArray (concat (map (page_items cfg e) (batch_pages cfg b)))))
           \<and> sorted (failedUnique (failedPages st'))
           \<and> distinct (failedUnique (failedPages st'))
           \<and> (\<forall>q. q \<in> set (failedUnique (failedPages st')) \<longleftrightarrow>
                 (\<exists>b\<in>set (batch_starts cfg 1).
                    \<not> fileExistsNonEmpty fs (b, batch_end cfg b) \<and> q \<in> set (batch_pages cfg b)
                    \<and> (page_failed cfg e q \<or> write_error e (b, batch_end cfg b) \<noteq> None)))
           \<and> distinct (dispatched st')"
      by blast
  qed
  from batch anyway failed ok run show ?thesis by blast
qed

theorem partial_success_persistence_witness:
  "map_option snd (main cfg_ten env_three_fail (\<lambda>name. None)) = Some [2, 4, 7]
   \<and> map_option (\<lambda>r. failedPages (fst r)) (main cfg_ten env_three_fail (\<lambda>name. None))
       = Some [2, 4, 7]
   \<and> map_option (\<lambda>r. files (fst r) (1, 5)) (main cfg_ten env_three_fail (\<lambda>name. None))
       = Some (Some (JsonArray [napa_from 1, napa_from 3, napa_from 5]))
   \<and> map_option (\<lambda>r. files (fst r) (6, 10)) (main cfg_ten env_three_fail (\<lambda>name. None))
       = Some (Some (JsonArray [napa_from 6, napa_from 8, napa_from 9, napa_from 10]))
   \<and> map_option (\<lambda>r. write_calls (fst r)) (main cfg_ten env_three_fail (\<lambda>name. None))
       = Some [((1, 5), [napa_from 1, napa_from 3, napa_from 5]),
               ((6, 10), [napa_from 6, napa_from 8, napa_from 9, napa_from 10])]
   \<and> files (batch_step cfg_ten env_three_fail 1
               \<lparr>files = (\<lambda>name. None), failedPages = [], totalSaved = 0, dispatched = [],
                 write_calls = []\<rparr>)
         (1, 5)
       = Some (JsonArray [napa_from 1, napa_from 3, napa_from 5])
   \<and> failedPages (batch_step cfg_ten env_three_fail 1
               \<lparr>files = (\<lambda>name. None), failedPages = [], totalSaved = 0, dispatched = [],
                 write_calls = []\<rparr>)
       = [2, 4]
   \<and> dispatched (batch_step cfg_ten env_three_fail 1
               \<lparr>files = (\<lambda>name. None), failedPages = [], totalSaved = 0, dispatched = [],
                 write_calls = []\<rparr>)
       = [1, 2, 3, 4, 5]"
proof -
  define st0 where
    "st0 = \<lparr>files = (\<lambda>name. None), failedPages = [], totalSaved = 0, dispatched = [],
                 write_calls = []\<rparr>"
  define fs0 where "fs0 = (\<lambda>name :: int \<times> int. None :: out_file option)"
  have ev: "batch_pages cfg_ten 1 = [1, 2, 3, 4, 5]" "batch_end cfg_ten 1 = 5"
    "batch_pages cfg_ten 6 = [6, 7, 8, 9, 10]" "batch_end cfg_ten 6 = 10"
    "batch_starts cfg_ten 1 = [1, 6]"
    "map (page_items cfg_ten env_three_fail) [1, 2, 3, 4, 5]
       = [[napa_from 1], [], [napa_from 3], [], [napa_from 5]]"
    "map (page_items cfg_ten env_three_fail) [6, 7, 8, 9, 10]
       = [[napa_from 6], [], [napa_from 8], [napa_from 9], [napa_from 10]]"
    "filter (page_failed cfg_ten env_three_fail) [1, 2, 3, 4, 5] = [2, 4]"
    "filter (page_failed cfg_ten env_three_fail) [6, 7, 8, 9, 10] = [7]"
    "failedUnique [2, 4, 7] = [2, 4, 7]"
    by code_simp+
  have hyp: "\<not> fileExistsNonEmpty fs0 (1, 5)" "\<not> fileExistsNonEmpty fs0 (6, 10)"
    "write_error env_three_fail (1, 5) = None" "write_error env_three_fail (6, 10) = None"
    "(0::int) < BATCH_SIZE cfg_ten"
    by (simp_all add: fs0_def fileExistsNonEmpty_def env_three_fail_def cfg_ten_def)
  have bf: "batch_failed cfg_ten env_three_fail fs0 1 = [2, 4]"
    "batch_failed cfg_ten env_three_fail fs0 6 = [7]"
    "batch_written cfg_ten env_three_fail fs0 1 = [((1, 5), [napa_from 1, napa_from 3, napa_from 5])]"
    "batch_written cfg_ten env_three_fail fs0 6
       = [((6, 10), [napa_from 6, napa_from 8, napa_from 9, napa_from 10])]"
    using hyp ev by (simp_all add: batch_failed_def batch_written_def)
  have step: "files (batch_step cfg_ten env_three_fail 1 st0) (1, 5)
         = Some (JsonArray [napa_from 1, napa_from 3, napa_from 5])"
    "failedPages (batch_step cfg_ten env_three_fail 1 st0) = [2, 4]"
    "dispatched (batch_step cfg_ten env_three_fail 1 st0) = [1, 2, 3, 4, 5]"
    using partial_success_persistence [of st0 1 cfg_ten env_three_fail] hyp ev
    by (simp_all add: st0_def fs0_def)
  obtain st' where st': "main cfg_ten env_three_fail fs0 = Some (st', failedUnique (failedPages st'))"
    "failedPages st' = concat (map (batch_failed cfg_ten env_three_fail fs0) (batch_starts cfg_ten 1))"
    "write_calls st' = concat (map (batch_written cfg_ten env_three_fail fs0) (batch_starts cfg_ten 1))"
    "\<forall>b\<in>set (batch_starts cfg_ten 1).
         \<not> fileExistsNonEmpty fs0 (b, batch_end cfg_ten b)
         \<and> write_error env_three_fail (b, batch_end cfg_ten b) = None \<longrightarrow>
         files st' (b, batch_end cfg_ten b)
           = Some (JsonArray (concat (map (page_items cfg_ten env_three_fail) (batch_pages cfg_ten b))))"
    using partial_success_persistence [of st0 1 cfg_ten env_three_fail 1 fs0] hyp(5) by blast
  have fp: "failedPages st' = [2, 4, 7]"
    using st'(2) ev(5) bf by simp
  have wc: "write_calls st' = [((1, 5), [napa_from 1, napa_from 3, napa_from 5]),
               ((6, 10), [napa_from 6, napa_from 8, napa_from 9, napa_from 10])]"
    using st'(3) ev(5) bf by simp
  have f1: "files st' (1, 5) = Some (JsonArray [napa_from 1, napa_from 3, napa_from 5])"
    using st'(4) ev hyp by simp
  have f2: "files st' (6, 10)
      = Some (JsonArray [napa_from 6, napa_from 8, napa_from 9, napa_from 10])"
    using st'(4) ev hyp by simp
  show ?thesis
    using st'(1) fp wc f1 f2 step ev(10) unfolding st0_def fs0_def by simp
qed


section \<open>The shape of the records\<close>

lemma defined_jopt [simp]: "defined (jopt x)"
  by (cases x) (simp_all add: jopt_def)

lemma defined_jstrs [simp]: "defined (jstrs xs)"
  by (simp add: jstrs_def list_all_iff)

lemma defined_section_group [simp]: "defined (section_group t i xs)"
  by (simp add: section_group_def)

lemma defined_dosage_group [simp]: "defined (dosage_group m i xs)"
  by (simp add: dosage_group_def)

lemma defined_package_obj [simp]: "defined (package_obj p)"
  by (simp add: package_obj_def)

lemma defined_pricing [simp]: "defined (pricing doc)"
  by (simp add: pricing_def pricing_of_def list_all_iff split: prod.splits)

lemma defined_flags [simp]: "list_all defined (flags doc)"
  by (simp add: flags_def list_all_iff)

lemma defined_also_available [simp]: "list_all defined (also_available doc)"
  by (simp add: also_available_def list_all_iff)

lemma defined_compound_summary [simp]: "defined (compound_summary doc)"
  by (simp add: compound_summary_def Let_def)

lemma defined_question_entry: "list_all defined (question_entry el)"
  by (simp add: question_entry_def Let_def)

lemma defined_common_questions [simp]: "list_all defined (common_questions doc)"
  using defined_question_entry
  by (auto simp: common_questions_def Let_def list_all_iff)

lemma flushCurrent_defined:
  "list_all defined (fst st) \<Longrightarrow> list_all defined (fst (flushCurrent st))"
  by (cases st) (auto simp: Let_def)

lemma section_node_defined:
  "list_all defined (fst st) \<Longrightarrow> list_all defined (fst (section_node st nd))"
proof -
  assume d: "list_all defined (fst st)"
  obtain out t infos items where st: "st = (out, t, infos, items)" by (cases st) auto
  show ?thesis
  proof (cases "node_type (snd nd) = ''tag'' \<and> tagName (snd nd) = ''strong''")
    case True
    obtain out' t' infos' items' where fl: "flushCurrent (out, t, infos, items) = (out', t', infos', items')"
      by (cases "flushCurrent (out, t, infos, items)") auto
    have "list_all defined out'"
      using flushCurrent_defined [OF d] st fl by simp
    then show ?thesis using True fl st by simp
  next
    case False
    then show ?thesis using d st by (auto simp: Let_def)
  qed
qed

lemma section_foldl_defined:
  "list_all defined (fst st) \<Longrightarrow> list_all defined (fst (foldl section_node st nds))"
  by (induction nds arbitrary: st) (simp_all add: section_node_defined)

lemma defined_parse_section_body: "list_all defined (parse_section_body body)"
proof -
  have "list_all defined (section_walk body)"
    unfolding section_walk_def
    by (intro flushCurrent_defined section_foldl_defined) simp
  then show ?thesis
    by (auto simp: parse_section_body_def Let_def split: option.splits)
qed

lemma defined_parseSection [simp]: "list_all defined (parseSectionToStructuredArray doc sid)"
  by (auto simp: parseSectionToStructuredArray_def defined_parse_section_body split: list.splits)

lemma pushGroup_defined:
  "list_all defined groups \<Longrightarrow> pushGroup groups m infos instr = Inr groups' \<Longrightarrow> list_all defined groups'"
  by (auto simp: pushGroup_def Let_def split: option.splits)









lemma defined_set_prop: "defined v \<Longrightarrow> defined x \<Longrightarrow> defined (set_prop v k x)"
  by (cases v) (auto simp: set_prop_def list_all_iff)

lemma obj_keys_set_prop_new:
  "k \<notin> set (obj_keys (JObj kvs)) \<Longrightarrow> obj_keys (set_prop (JObj kvs) k x) = obj_keys (JObj kvs) @ [k]"
  by (auto simp: set_prop_def obj_keys_def)

lemma set_prop_is_obj: "\<exists>kvs'. set_prop (JObj kvs) k x = JObj kvs'"
  by (simp add: set_prop_def)





lemma foldl_defined:
  "(\<And>v x. defined v \<Longrightarrow> defined (f v x)) \<Longrightarrow> defined v0 \<Longrightarrow> defined (foldl f v0 xs)"
  by (induction xs arbitrary: v0) simp_all

lemma defined_sections_raw [simp]: "defined (sections_raw doc)"
  unfolding sections_raw_def by (rule foldl_defined) (simp_all add: defined_set_prop)

lemma defined_compound_raw_row: "defined c \<Longrightarrow> defined (compound_raw_row c tr)"
  by (simp add: compound_raw_row_def Let_def defined_set_prop)

lemma defined_compound_raw [simp]: "defined (compound_raw doc)"
  unfolding compound_raw_def Let_def
  by (auto intro!: foldl_defined defined_compound_raw_row defined_set_prop)

lemma defined_pricing_raw [simp]: "defined (pricing_raw doc)"
  by (simp add: pricing_raw_def split: prod.splits)

lemma defined_dosage_raw [simp]: "list_all defined (dosage_raw doc)"
  by (auto simp: dosage_raw_def Let_def dosage_raw_group_def list_all_iff)

lemma defined_common_questions_raw [simp]: "list_all defined (common_questions_raw doc)"
  by (auto simp: common_questions_raw_def Let_def list_all_iff)






section \<open>Re-running the detail fetcher\<close>

text \<open>
  An item whose URL, trimmed, is the \<open>source_url\<close> of a record of the mirror is
  skipped: the state is left as it is.
\<close>

lemma recorded_item_is_skipped:
  assumes "item_source_url item = Inr (Some u)" "u \<noteq> []"
    and "x \<in> set (outputArr st)" "truthy x" "get_prop x ''source_url'' = JStr (trim u)"
  shows "detail_step e st i item = Inr st"
proof -
  have "alreadyProcessed (outputArr st) (Some u)"
    using assms(2-5) by (auto simp: alreadyProcessed_def truthy_str_def or_empty_def list_ex_iff Let_def)
  then show ?thesis using assms(1) by (simp add: detail_step_def)
qed

text \<open>
  Claim C1 on the code.  The input holds one brand; the server answers its URL from
  another URL.  The first run, on a missing output file, stores the record under the
  final URL.  The second run, on the file the first one left, does not find the input
  URL in the store, fetches the page again and appends a second record with the same
  \<open>source_url\<close>.
\<close>

theorem rerun_appends_duplicate:
  "stored_urls (fst (detail_run env_redirect input_redirect None))
     = [JStr ''https://medex.com.bd/brands/11/napa-500-mg'']
   \<and> stored_urls (fst (detail_run env_redirect input_redirect
                          (fst (detail_run env_redirect input_redirect None))))
     = [JStr ''https://medex.com.bd/brands/11/napa-500-mg'',
        JStr ''https://medex.com.bd/brands/11/napa-500-mg'']"
  by code_simp

text \<open>
  The same happens without a redirect when the URL of the item ends with a space: the
  error record keeps the URL as it is, the check compares with the trimmed URL.
\<close>

lemma rerun_trailing_space_duplicate:
  "stored_urls (fst (detail_run env_redirect input_trailing_space None))
     = [JStr ''https://medex.com.bd/brands/12/ace '']
   \<and> stored_urls (fst (detail_run env_redirect input_trailing_space
                          (fst (detail_run env_redirect input_trailing_space None))))
     = [JStr ''https://medex.com.bd/brands/12/ace '', JStr ''https://medex.com.bd/brands/12/ace '']"
  by code_simp

end
